theory Spec2Isabelle
  imports Main "HOL-Library.Product_Lexorder"
begin

section \<open>Minutes of the day and grid snapping\<close>

text \<open>
  The planner measures time in integer minutes of one day; \<open>24 * 60\<close> is written out in
  the source wherever the end of the day is meant. Python integers are unbounded, so minutes
  are \<^typ>\<open>int\<close>.

  Python 3's \<open>round(a / b)\<close> on two integers: the quotient is rounded to the nearest
  integer and a quotient that lies exactly half way goes to the even neighbour. The source
  divides in double precision; for operands below \<open>2 ^ 24\<close> in absolute value (every
  minute and step the planner handles is far below) the double quotient lies on the same
  side of each half-integer as the exact quotient, so the result is the one computed here on
  integers. The divisor is positive at every call site (\<open>step > 1\<close>, \<open>chunk \<ge> 1\<close>).
\<close>

definition py_round_div :: "int \<Rightarrow> int \<Rightarrow> int" where
  "py_round_div a b =
     (let q = a div b; r = a mod b
      in if 2 * r < b then q
         else if b < 2 * r then q + 1
         else if even q then q else q + 1)"

section \<open>Blocks and the day view\<close>

text \<open>
  An \<open>EventWidget\<close> is a mutable object that the day view, the selection set and the
  group-move references all point to. Objects live in an explicit store (\<open>heap\<close>) and are
  named by their address; \<open>event_widgets\<close>, the selection and the references hold addresses,
  so that an assignment to \<open>w.start_min\<close> is seen through every reference to \<open>w\<close>.
  The pixmap and the widget geometry belong to painting and are left out.

  The planner holds a block's colour as a \<open>QColor\<close> and reads two things from it: whether
  it is valid, and its name. A \<open>QColor\<close> is modelled by its validity flag and its red,
  green and blue channels, each from 0 to 255; \<open>QColor.name(HexRgb)\<close> writes \<open>#\<close> and
  the three channels as two lower-case hexadecimal digits each. The constructor of a
  \<open>QColor\<close> from a string is Qt's (it takes colour names and several hexadecimal
  forms); the functions that call it have it as their argument \<open>QColor_str\<close>.
  \<^verbatim>\<open>
  def qcolor_to_hex(c: QColor) -> str:
      return c.name(QColor.NameFormat.HexRgb)
  def hex_to_qcolor(s: str, fallback: str = "#000000") -> QColor:
      c = QColor(s)
      if not c.isValid():
          c = QColor(fallback)
      return c
  \<close>
\<close>

datatype qcolor = QColor (isValid: bool) (red: nat) (green: nat) (blue: nat)

definition hex_digit :: "nat \<Rightarrow> char" where
  "hex_digit n = ''0123456789abcdef'' ! (n mod 16)"

definition hex_byte :: "nat \<Rightarrow> string" where
  "hex_byte n = [hex_digit (n div 16), hex_digit n]"

definition qcolor_to_hex :: "qcolor \<Rightarrow> string" where
  "qcolor_to_hex c = CHR ''#'' # hex_byte (red c) @ hex_byte (green c) @ hex_byte (blue c)"

definition hex_to_qcolor :: "(string \<Rightarrow> qcolor) \<Rightarrow> string \<Rightarrow> string \<Rightarrow> qcolor" where
  "hex_to_qcolor QColor_str s fallback =
     (let c = QColor_str s in if \<not> isValid c then QColor_str fallback else c)"

datatype drag_mode = ResizeTop | ResizeBottom | Move

record event_widget =
  start_min :: int
  end_min :: int
  title :: string
  tag :: string
  color :: qcolor
  from_rule :: bool
  rule_id :: "string option"
  locked :: bool
  image_rel :: "string option"
  notify_offset :: int
  group_dragging :: bool
  drag_mode :: "drag_mode option"
  orig_start :: int
  orig_end :: int
  orig_duration :: int

text \<open>
  \<open>str.strip()\<close> removes leading and trailing white space; on ASCII text these are the
  characters 9 to 13, 28 to 32.
\<close>

definition py_isspace :: "char \<Rightarrow> bool" where
  "py_isspace c = ((of_char c :: nat) \<in> {9, 10, 11, 12, 13, 28, 29, 30, 31, 32})"

definition py_strip :: "string \<Rightarrow> string" where
  "py_strip s = rev (dropWhile py_isspace (rev (dropWhile py_isspace s)))"

text \<open>
  \<open>EventWidget.__init__\<close>:
  \<^verbatim>\<open>
  self.start_min = max(0, min(start_min, 24 * 60 - 1))
  self.end_min = max(self.start_min + 1, min(end_min, 24 * 60))
  self.title = title
  self.tag = (tag or "").strip()
  self.color = QColor(color or self.day_view.prefs.event_default)
  ...
  self.notify_offset = max(0, int(notify_offset or 0))
  self._group_dragging = False
  self._drag_mode = None
  self._orig_start = self.start_min; self._orig_end = self.end_min
  self._orig_duration = max(1, self._orig_end - self._orig_start)
  \<close>
  The colour argument is the one \<open>add_block\<close> has resolved against the default fill
  before the call; \<open>QColor(c)\<close> of a \<open>QColor\<close> is a copy of it.
\<close>

definition EventWidget_init ::
  "int \<Rightarrow> int \<Rightarrow> string \<Rightarrow> qcolor \<Rightarrow> bool \<Rightarrow> string option \<Rightarrow> bool \<Rightarrow> string option \<Rightarrow>
   string \<Rightarrow> int \<Rightarrow> event_widget" where
  "EventWidget_init start_arg end_arg title_arg color_arg from_rule_arg rule_id_arg locked_arg
       image_arg tag_arg notify_arg =
     (let s = max 0 (min start_arg (24 * 60 - 1));
          e = max (s + 1) (min end_arg (24 * 60))
      in \<lparr> start_min = s, end_min = e, title = title_arg, tag = py_strip tag_arg,
           color = color_arg, from_rule = from_rule_arg, rule_id = rule_id_arg,
           locked = locked_arg, image_rel = image_arg, notify_offset = max 0 notify_arg,
           group_dragging = False, drag_mode = None, orig_start = s, orig_end = e,
           orig_duration = max 1 (e - s) \<rparr>)"

text \<open>
  The attributes of \<open>DayView\<close> that the constraint engine reads and writes. A Python set
  of widgets is a list of addresses in the set's iteration order; membership is membership
  in the list.
\<close>

record day_view =
  heap :: "nat \<Rightarrow> event_widget"
  next_wid :: nat
  event_widgets :: "nat list"
  time_size_minutes :: int
  snap_enabled :: bool
  smart_scale_enabled :: bool
  magnetic_mode :: bool
  event_default :: qcolor
  box_select_mode :: bool
  box_selecting :: bool
  box_selected_widgets :: "nat list"
  group_move_active :: bool
  group_move_last_delta :: int
  group_move_refs :: "(nat \<times> int \<times> int) list"
  group_move_selected :: "nat list"

text \<open>Assignment to both ends of the block at address \<open>w\<close>.\<close>

definition set_interval :: "day_view \<Rightarrow> nat \<Rightarrow> int \<Rightarrow> int \<Rightarrow> day_view" where
  "set_interval dv w s e = dv\<lparr>heap := (heap dv)(w := (heap dv w)\<lparr>start_min := s, end_min := e\<rparr>)\<rparr>"

text \<open>
  \<open>DayView.snap_step\<close> and \<open>DayView.snap_minute\<close>:
  \<^verbatim>\<open>
  def snap_step(self): return self.time_size_minutes if self.snap_enabled else 1
  def snap_minute(self, minute):
      step = self.snap_step()
      if step <= 1:
          return max(0, min(24 * 60, int(minute)))
      snapped = int(round(minute / step) * step)
      return max(0, min(24 * 60, snapped))
  \<close>
\<close>

definition snap_step :: "day_view \<Rightarrow> int" where
  "snap_step dv = (if snap_enabled dv then time_size_minutes dv else 1)"

definition snap_minute :: "day_view \<Rightarrow> int \<Rightarrow> int" where
  "snap_minute dv minute =
     (let step = snap_step dv
      in if step \<le> 1 then max 0 (min (24 * 60) minute)
         else max 0 (min (24 * 60) (py_round_div minute step * step)))"

text \<open>
  \<open>DayView.overlaps_range\<close>: the loop over \<open>event_widgets\<close> with its two \<open>continue\<close>s
  and the early \<open>return True\<close>.
\<close>

primrec overlaps_loop ::
  "(nat \<Rightarrow> event_widget) \<Rightarrow> int \<Rightarrow> int \<Rightarrow> nat option \<Rightarrow> nat list \<Rightarrow> nat list \<Rightarrow> bool" where
  "overlaps_loop h s e exclude exclude_set [] = False"
| "overlaps_loop h s e exclude exclude_set (ev # evs) =
     (if Some ev = exclude then overlaps_loop h s e exclude exclude_set evs
      else if exclude_set \<noteq> [] \<and> ev \<in> set exclude_set
        then overlaps_loop h s e exclude exclude_set evs
      else if max s (start_min (h ev)) < min e (end_min (h ev)) then True
      else overlaps_loop h s e exclude exclude_set evs)"

definition overlaps_range :: "day_view \<Rightarrow> int \<Rightarrow> int \<Rightarrow> nat option \<Rightarrow> nat list \<Rightarrow> bool" where
  "overlaps_range dv s e exclude exclude_set =
     overlaps_loop (heap dv) s e exclude exclude_set (event_widgets dv)"

text \<open>
  \<open>DayView.clamp_start_to_available\<close>. \<open>first_conflict\<close> is the inner \<open>for\<close> loop that
  stops at the first block overlapping the candidate; \<open>clamp_iter\<close> is the outer loop, its
  first argument the number of iterations left.
  \<^verbatim>\<open>
  duration = max(1, duration)
  start = max(0, min(start, 24 * 60 - duration))
  excluded = set(exclude_set or [])
  if exclude is not None: excluded.add(exclude)
  max_iters = len(self.event_widgets) + 1
  for _ in range(max_iters):
      conflict = None
      for ev in self.event_widgets:
          if ev in excluded: continue
          if max(start, ev.start_min) < min(start + duration, ev.end_min):
              conflict = ev; break
      if conflict is None: return start
      if direction > 0: start = conflict.end_min
      elif direction < 0: start = conflict.start_min - duration
      else:
          down = conflict.end_min
          up = conflict.start_min - duration
          candidates = []
          if 0 <= down <= 24 * 60 - duration: candidates.append((abs(down - start), down))
          if up >= 0 and up <= 24 * 60 - duration: candidates.append((abs(up - start), up))
          if candidates:
              candidates.sort()
              start = candidates[0][1]
          else: return None
      start = max(0, min(start, 24 * 60 - duration))
  return None
  \<close>
  Sorting a list of pairs orders them by the first component and then by the second.
\<close>

primrec first_conflict ::
  "(nat \<Rightarrow> event_widget) \<Rightarrow> nat list \<Rightarrow> int \<Rightarrow> int \<Rightarrow> nat list \<Rightarrow> nat option" where
  "first_conflict h excluded start duration [] = None"
| "first_conflict h excluded start duration (ev # evs) =
     (if ev \<in> set excluded then first_conflict h excluded start duration evs
      else if max start (start_min (h ev)) < min (start + duration) (end_min (h ev)) then Some ev
      else first_conflict h excluded start duration evs)"

definition nearest_candidates :: "int \<Rightarrow> int \<Rightarrow> int \<Rightarrow> int \<Rightarrow> (int \<times> int) list" where
  "nearest_candidates start duration down up =
     (if 0 \<le> down \<and> down \<le> 24 * 60 - duration then [(\<bar>down - start\<bar>, down)] else []) @
     (if up \<ge> 0 \<and> up \<le> 24 * 60 - duration then [(\<bar>up - start\<bar>, up)] else [])"

primrec clamp_iter ::
  "nat \<Rightarrow> (nat \<Rightarrow> event_widget) \<Rightarrow> nat list \<Rightarrow> nat list \<Rightarrow> int \<Rightarrow> int \<Rightarrow> int \<Rightarrow> int option" where
  "clamp_iter 0 h evs excluded direction duration start = None"
| "clamp_iter (Suc n) h evs excluded direction duration start =
     (case first_conflict h excluded start duration evs of
        None \<Rightarrow> Some start
      | Some conflict \<Rightarrow>
          if direction > 0 then
            clamp_iter n h evs excluded direction duration
              (max 0 (min (end_min (h conflict)) (24 * 60 - duration)))
          else if direction < 0 then
            clamp_iter n h evs excluded direction duration
              (max 0 (min (start_min (h conflict) - duration) (24 * 60 - duration)))
          else
            (let down = end_min (h conflict);
                 up = start_min (h conflict) - duration;
                 candidates = nearest_candidates start duration down up
             in if candidates \<noteq> [] then
                  clamp_iter n h evs excluded direction duration
                    (max 0 (min (snd (hd (sort candidates))) (24 * 60 - duration)))
                else None))"

definition clamp_start_to_available ::
  "day_view \<Rightarrow> int \<Rightarrow> int \<Rightarrow> nat option \<Rightarrow> nat list \<Rightarrow> int \<Rightarrow> int option" where
  "clamp_start_to_available dv start_arg duration_arg exclude exclude_set direction =
     (let duration = max 1 duration_arg;
          start = max 0 (min start_arg (24 * 60 - duration));
          excluded = (case exclude of None \<Rightarrow> exclude_set | Some w \<Rightarrow> w # exclude_set);
          max_iters = length (event_widgets dv) + 1
      in clamp_iter max_iters (heap dv) (event_widgets dv) excluded direction duration start)"

text \<open>
  \<open>DayView._update_group_move\<close>. The argument \<open>delta_minutes\<close> is the value of
  \<open>self.snap_delta(raw_minutes)\<close>, the pointer travel in pixels converted to minutes and
  snapped; the conversion is floating-point arithmetic on screen coordinates.
  \<^verbatim>\<open>
  if not self._group_move_active: return
  ...
  if delta_minutes == self._group_move_last_delta: return
  new_positions = []
  for w, start, end in self._group_move_refs:
      new_start = start + delta_minutes
      new_end = end + delta_minutes
      if new_start < 0 or new_end > 24 * 60: return
      new_positions.append((w, new_start, new_end))
  excludes = self._group_move_selected
  for w, new_start, new_end in new_positions:
      if self.overlaps_range(new_start, new_end, exclude_set=excludes): return
  for w, new_start, new_end in new_positions:
      w.start_min = new_start
      w.end_min = new_end
  self._group_move_last_delta = delta_minutes
  \<close>
\<close>

primrec group_new_positions ::
  "int \<Rightarrow> (nat \<times> int \<times> int) list \<Rightarrow> (nat \<times> int \<times> int) list option" where
  "group_new_positions d [] = Some []"
| "group_new_positions d (r # refs) =
     (case r of (w, s, e) \<Rightarrow>
        if s + d < 0 \<or> e + d > 24 * 60 then None
        else map_option ((#) (w, s + d, e + d)) (group_new_positions d refs))"

definition apply_positions :: "(nat \<times> int \<times> int) list \<Rightarrow> day_view \<Rightarrow> day_view" where
  "apply_positions ps dv = fold (\<lambda>(w, s, e) dv'. set_interval dv' w s e) ps dv"

definition update_group_move :: "day_view \<Rightarrow> int \<Rightarrow> day_view" where
  "update_group_move dv delta_minutes =
     (if \<not> group_move_active dv then dv
      else if delta_minutes = group_move_last_delta dv then dv
      else case group_new_positions delta_minutes (group_move_refs dv) of
             None \<Rightarrow> dv
           | Some new_positions \<Rightarrow>
               if list_ex (\<lambda>(w, s, e). overlaps_range dv s e None (group_move_selected dv))
                    new_positions
               then dv
               else (apply_positions new_positions dv)\<lparr>group_move_last_delta := delta_minutes\<rparr>)"

text \<open>
  \<open>DayView.__init__\<close>, as far as the attributes above go; the arguments are the values read
  from the preferences. No block exists yet: every address of the store holds a placeholder.
  \<^verbatim>\<open>
  self.time_size_minutes = max(1, int(getattr(self.prefs, "time_size_minutes", ...)))
  self.snap_enabled = bool(getattr(self.prefs, "time_snap_enabled", True))
  self.smart_scale_enabled = bool(getattr(self.prefs, "smart_scale_enabled", False))
  self.magnetic_mode = bool(getattr(self.prefs, "magnetic_mode", False))
  self.event_widgets = []
  self.box_select_mode = False
  self._box_selecting = False
  self._box_selected_widgets = set()
  self._group_move_active = False
  self._group_move_last_delta = 0
  self._group_move_refs = []
  self._group_move_selected = set()
  \<close>
\<close>

text \<open>
  The default event fill of the preferences, \<open>QColor("#4879C5")\<close>: the channels are
  \<open>0x48\<close>, \<open>0x79\<close> and \<open>0xC5\<close>.
\<close>

definition default_fill :: qcolor where
  "default_fill = QColor True 72 121 197"

definition no_widget :: event_widget where
  "no_widget = EventWidget_init 0 0 [] default_fill False None False None [] 0"

definition DayView_init :: "int \<Rightarrow> bool \<Rightarrow> bool \<Rightarrow> bool \<Rightarrow> qcolor \<Rightarrow> day_view" where
  "DayView_init prefs_time_size prefs_snap prefs_smart_scale prefs_magnetic prefs_event_default =
     \<lparr> heap = (\<lambda>_. no_widget), next_wid = 0, event_widgets = [],
       time_size_minutes = max 1 prefs_time_size, snap_enabled = prefs_snap,
       smart_scale_enabled = prefs_smart_scale, magnetic_mode = prefs_magnetic,
       event_default = prefs_event_default, box_select_mode = False, box_selecting = False,
       box_selected_widgets = [], group_move_active = False, group_move_last_delta = 0,
       group_move_refs = [], group_move_selected = [] \<rparr>"

text \<open>
  A day view holding the given intervals as plain unlocked blocks at the addresses
  \<open>0, 1, 2, \<dots>\<close>, in this order; used to write down concrete schedules.
\<close>

definition plain_block :: "int \<times> int \<Rightarrow> event_widget" where
  "plain_block p = EventWidget_init (fst p) (snd p) [] default_fill False None False None [] 0"

definition with_blocks :: "day_view \<Rightarrow> (int \<times> int) list \<Rightarrow> day_view" where
  "with_blocks dv ps =
     dv\<lparr> heap := (\<lambda>w. if w < length ps then plain_block (ps ! w) else heap dv w),
         next_wid := length ps, event_widgets := [0..<length ps] \<rparr>"

section \<open>The specification's wording of grid snapping and placement\<close>

text \<open>
  Grid snapping as the specification words it: the nearest multiple of the step, a value
  half way between two multiples going to the one away from zero, clamped to the day.
\<close>

definition round_half_away :: "int \<Rightarrow> int \<Rightarrow> int" where
  "round_half_away a b =
     (if 0 \<le> a then (2 * a + b) div (2 * b) else - ((2 * (- a) + b) div (2 * b)))"

definition gridSnap_spec :: "int \<Rightarrow> int \<Rightarrow> int" where
  "gridSnap_spec minute step = max 0 (min (24 * 60) (round_half_away minute step * step))"

text \<open>
  A block \<open>ev\<close> that is not excluded conflicts with the candidate \<open>[s, s + duration)\<close>;
  a start lies in the day when the whole candidate does.
\<close>

definition conflicts :: "(nat \<Rightarrow> event_widget) \<Rightarrow> nat list \<Rightarrow> int \<Rightarrow> int \<Rightarrow> nat \<Rightarrow> bool" where
  "conflicts h excluded s duration ev =
     (ev \<notin> set excluded \<and> max s (start_min (h ev)) < min (s + duration) (end_min (h ev)))"

definition in_day_range :: "int \<Rightarrow> int \<Rightarrow> bool" where
  "in_day_range duration s = (0 \<le> s \<and> s \<le> 24 * 60 - duration)"

text \<open>
  The placement search as the specification words it. In the mode \<open>nearest\<close> a candidate is
  discarded when it lies outside the day or still overlaps a block; of two remaining
  candidates the one closer to the original request wins and a tie goes to the forward one.
\<close>

definition spec_valid :: "(nat \<Rightarrow> event_widget) \<Rightarrow> nat list \<Rightarrow> nat list \<Rightarrow> int \<Rightarrow> int \<Rightarrow> bool" where
  "spec_valid h evs excluded duration s =
     (in_day_range duration s \<and> List.find (conflicts h excluded s duration) evs = None)"

primrec place_spec_iter ::
  "nat \<Rightarrow> (nat \<Rightarrow> event_widget) \<Rightarrow> nat list \<Rightarrow> nat list \<Rightarrow> int \<Rightarrow> int \<Rightarrow> int \<Rightarrow> int \<Rightarrow> int option"
  where
  "place_spec_iter 0 h evs excluded direction duration request cand = None"
| "place_spec_iter (Suc n) h evs excluded direction duration request cand =
     (case List.find (conflicts h excluded cand duration) evs of
        None \<Rightarrow> Some cand
      | Some c \<Rightarrow>
          if direction > 0 then
            place_spec_iter n h evs excluded direction duration request (end_min (h c))
          else if direction < 0 then
            place_spec_iter n h evs excluded direction duration request
              (start_min (h c) - duration)
          else
            (let fwd = end_min (h c);
                 bwd = start_min (h c) - duration;
                 fwd_ok = spec_valid h evs excluded duration fwd;
                 bwd_ok = spec_valid h evs excluded duration bwd
             in if fwd_ok \<and> bwd_ok then
                  (if \<bar>bwd - request\<bar> < \<bar>fwd - request\<bar>
                   then place_spec_iter n h evs excluded direction duration request bwd
                   else place_spec_iter n h evs excluded direction duration request fwd)
                else if fwd_ok then
                  place_spec_iter n h evs excluded direction duration request fwd
                else if bwd_ok then
                  place_spec_iter n h evs excluded direction duration request bwd
                else None))"

definition place_spec ::
  "day_view \<Rightarrow> int \<Rightarrow> int \<Rightarrow> nat option \<Rightarrow> nat list \<Rightarrow> int \<Rightarrow> int option" where
  "place_spec dv requested duration exclude exclude_set direction =
     place_spec_iter (length (event_widgets dv) + 1) (heap dv) (event_widgets dv)
       (case exclude of None \<Rightarrow> exclude_set | Some w \<Rightarrow> w # exclude_set) direction duration
       requested (max 0 (min requested (24 * 60 - duration)))"

text \<open>
  The placement search as the code performs it, said without the candidate list and its
  sort: in the mode \<open>nearest\<close> a candidate is discarded only when it lies outside the day,
  the distance is taken from the current candidate, a tie goes to the backward candidate,
  and every new candidate is clamped into the day again.
\<close>

definition nearest_choice :: "int \<Rightarrow> int \<Rightarrow> int \<Rightarrow> int \<Rightarrow> int option" where
  "nearest_choice duration cand fwd bwd =
     (if in_day_range duration fwd \<and> in_day_range duration bwd then
        (if \<bar>fwd - cand\<bar> < \<bar>bwd - cand\<bar> then Some fwd else Some bwd)
      else if in_day_range duration fwd then Some fwd
      else if in_day_range duration bwd then Some bwd
      else None)"

primrec place_amended_iter ::
  "nat \<Rightarrow> (nat \<Rightarrow> event_widget) \<Rightarrow> nat list \<Rightarrow> nat list \<Rightarrow> int \<Rightarrow> int \<Rightarrow> int \<Rightarrow> int option" where
  "place_amended_iter 0 h evs excluded direction duration cand = None"
| "place_amended_iter (Suc n) h evs excluded direction duration cand =
     (case List.find (conflicts h excluded cand duration) evs of
        None \<Rightarrow> Some cand
      | Some c \<Rightarrow>
          (case (if direction > 0 then Some (end_min (h c))
                 else if direction < 0 then Some (start_min (h c) - duration)
                 else nearest_choice duration cand (end_min (h c)) (start_min (h c) - duration)) of
             None \<Rightarrow> None
           | Some nxt \<Rightarrow>
               place_amended_iter n h evs excluded direction duration
                 (max 0 (min nxt (24 * 60 - duration)))))"

definition place_amended ::
  "day_view \<Rightarrow> int \<Rightarrow> int \<Rightarrow> nat option \<Rightarrow> nat list \<Rightarrow> int \<Rightarrow> int option" where
  "place_amended dv requested duration_arg exclude exclude_set direction =
     (let duration = max 1 duration_arg
      in place_amended_iter (length (event_widgets dv) + 1) (heap dv) (event_widgets dv)
           (case exclude of None \<Rightarrow> exclude_set | Some w \<Rightarrow> w # exclude_set) direction duration
           (max 0 (min requested (24 * 60 - duration))))"

section \<open>The main window: day data, rules and the history log\<close>

text \<open>
  \<open>events_by_date\<close> maps a date key (\<open>"yyyy-MM-dd"\<close>) to the list of dictionaries saved
  for that day; \<open>repeat_rules\<close> is the list of rule dictionaries. A dictionary with a fixed
  set of keys is a record. \<open>current_date\<close> is kept as its date key. \<open>clock\<close> stands for
  the reading of \<open>QDateTime.currentDateTime()\<close>, and \<open>status_messages\<close> collects, in
  order, the texts handed to \<open>flash_status\<close>.
\<close>

record event_item =
  it_start_min :: int
  it_end_min :: int
  it_title :: string
  it_tag :: string
  it_color :: string
  it_locked :: int
  it_image :: string
  it_notify_offset :: int

record rule =
  r_id :: string
  r_type :: string
  r_start_min :: int
  r_end_min :: int
  r_title :: string
  r_tag :: string
  r_color :: string
  r_locked :: int
  r_image :: string
  r_notify_offset :: int

record snapshot =
  snap_date :: string
  snap_events :: "event_item list"
  snap_action :: string
  snap_timestamp :: string

datatype py_error = IndexError

record main_window =
  day_view :: day_view
  events_by_date :: "string \<Rightarrow> event_item list option"
  repeat_rules :: "rule list"
  current_date :: string
  history :: "snapshot list"
  history_index :: int
  history_freeze :: bool
  pending_history_action :: "string option"
  status_messages :: "string list"
  clock :: string

text \<open>\<open>self._history_max = 11  # baseline + 10 actions\<close>\<close>

definition history_max :: nat where
  "history_max = 11"

text \<open>
  Python list indexing and the slice \<open>xs[:k]\<close>: a negative index counts from the end, an
  index out of range raises \<open>IndexError\<close>, a slice never raises.
\<close>

definition py_index :: "'a list \<Rightarrow> int \<Rightarrow> py_error + 'a" where
  "py_index xs i =
     (if 0 \<le> i \<and> i < int (length xs) then Inr (xs ! nat i)
      else if i < 0 \<and> - int (length xs) \<le> i then Inr (xs ! nat (int (length xs) + i))
      else Inl IndexError)"

definition py_slice_to :: "'a list \<Rightarrow> int \<Rightarrow> 'a list" where
  "py_slice_to xs k = (if 0 \<le> k then take (nat k) xs else take (length xs - nat (- k)) xs)"

definition flash_status :: "main_window \<Rightarrow> string \<Rightarrow> main_window" where
  "flash_status mw msg = mw\<lparr>status_messages := status_messages mw @ [msg]\<rparr>"

text \<open>
  \<open>MainWindow.note_history_action\<close>:
  \<^verbatim>\<open>
  if action: self._pending_history_action = action
  \<close>
\<close>

definition note_history_action :: "main_window \<Rightarrow> string \<Rightarrow> main_window" where
  "note_history_action mw action =
     (if action \<noteq> [] then mw\<lparr>pending_history_action := Some action\<rparr> else mw)"

text \<open>
  \<open>MainWindow._history_snapshot\<close> returns the date key and a deep copy of the day's saved
  list; both attributes it tests for are set by \<open>__init__\<close>, so it does not return \<open>None\<close>.
  The caller adds the action label and the time stamp.
  \<^verbatim>\<open>
  key = self.date_key(qdate)
  data = deepcopy(self.events_by_date.get(key, []))
  return {"date": key, "events": data}
  \<close>
\<close>

definition day_events :: "main_window \<Rightarrow> string \<Rightarrow> event_item list" where
  "day_events mw key = (case events_by_date mw key of None \<Rightarrow> [] | Some items \<Rightarrow> items)"

definition history_snapshot :: "main_window \<Rightarrow> string \<Rightarrow> string \<Rightarrow> snapshot" where
  "history_snapshot mw qdate action =
     \<lparr> snap_date = qdate, snap_events = day_events mw qdate, snap_action = action,
       snap_timestamp = clock mw \<rparr>"

text \<open>
  \<open>MainWindow._reset_history\<close>:
  \<^verbatim>\<open>
  snap["action"] = "Initial load"
  snap["timestamp"] = QDateTime.currentDateTime().toString(Qt.ISODate)
  self._history = [snap]
  self._history_index = 0
  self._pending_history_action = None
  \<close>
\<close>

definition reset_history :: "main_window \<Rightarrow> string \<Rightarrow> main_window" where
  "reset_history mw qdate =
     mw\<lparr> history := [history_snapshot mw qdate ''Initial load''], history_index := 0,
         pending_history_action := None \<rparr>"

text \<open>
  \<open>MainWindow._record_history\<close>:
  \<^verbatim>\<open>
  if self._history_freeze: return
  snap = self._history_snapshot()
  action = self._pending_history_action or "Change"
  self._pending_history_action = None
  snap["action"] = action
  snap["timestamp"] = ...
  if self._history_index >= 0 and self._history and \
     snap["events"] == self._history[self._history_index].get("events"):
      return
  if self._history_index < len(self._history) - 1:
      self._history = self._history[:self._history_index + 1]
  self._history.append(snap)
  self._history_index += 1
  if len(self._history) > self._history_max:
      excess = len(self._history) - self._history_max
      del self._history[:excess]
      self._history_index = max(0, self._history_index - excess)
  \<close>
\<close>

definition same_as_cursor :: "main_window \<Rightarrow> snapshot \<Rightarrow> py_error + bool" where
  "same_as_cursor mw snap =
     (if history_index mw \<ge> 0 \<and> history mw \<noteq> [] then
        (case py_index (history mw) (history_index mw) of
           Inl err \<Rightarrow> Inl err
         | Inr entry \<Rightarrow> Inr (snap_events snap = snap_events entry))
      else Inr False)"

definition append_history :: "main_window \<Rightarrow> snapshot \<Rightarrow> main_window" where
  "append_history mw snap =
     (let h1 = (if history_index mw < int (length (history mw)) - 1
                then py_slice_to (history mw) (history_index mw + 1) else history mw);
          h2 = h1 @ [snap];
          i2 = history_index mw + 1
      in if length h2 > history_max then
           (let excess = length h2 - history_max
            in mw\<lparr>history := drop excess h2, history_index := max 0 (i2 - int excess)\<rparr>)
         else mw\<lparr>history := h2, history_index := i2\<rparr>)"

definition record_history :: "main_window \<Rightarrow> py_error + main_window" where
  "record_history mw =
     (if history_freeze mw then Inr mw
      else
        (let action = (case pending_history_action mw of
                         None \<Rightarrow> ''Change''
                       | Some a \<Rightarrow> if a = [] then ''Change'' else a);
             snap = history_snapshot mw (current_date mw) action;
             mw1 = mw\<lparr>pending_history_action := None\<rparr>
         in case same_as_cursor mw1 snap of
              Inl err \<Rightarrow> Inl err
            | Inr True \<Rightarrow> Inr mw1
            | Inr False \<Rightarrow> Inr (append_history mw1 snap)))"

text \<open>
  \<open>MainWindow.save_day\<close> writes the blocks that do not come from a rule into
  \<open>events_by_date\<close>; \<open>MainWindow.on_day_changed\<close> saves the day and records history.
  Notifications, tag totals and the files on disk are outside the model.
  \<^verbatim>\<open>
  for ev in self.day_view.event_widgets:
      if getattr(ev, "from_rule", False): continue
      data.append({
          "start_min": ev.start_min, "end_min": ev.end_min, "title": ev.title,
          "tag": getattr(ev, "tag", "") or "",
          "color": qcolor_to_hex(ev.color), "locked": 1 if ev.locked else 0,
          "image": ev.image_rel or "",
          "notify_offset": int(getattr(ev, "notify_offset", 0)),
      })
  self.events_by_date[key] = data
  \<close>
\<close>

definition item_of_widget :: "event_widget \<Rightarrow> event_item" where
  "item_of_widget ev =
     \<lparr> it_start_min = start_min ev, it_end_min = end_min ev, it_title = title ev,
       it_tag = tag ev, it_color = qcolor_to_hex (color ev),
       it_locked = (if locked ev then 1 else 0),
       it_image = (case image_rel ev of None \<Rightarrow> [] | Some p \<Rightarrow> p),
       it_notify_offset = notify_offset ev \<rparr>"

definition save_day :: "main_window \<Rightarrow> string \<Rightarrow> main_window" where
  "save_day mw qdate =
     (let dv = day_view mw;
          data = map (\<lambda>w. item_of_widget (heap dv w))
                   (filter (\<lambda>w. \<not> from_rule (heap dv w)) (event_widgets dv))
      in mw\<lparr>events_by_date := (events_by_date mw)(qdate \<mapsto> data)\<rparr>)"

definition on_day_changed :: "main_window \<Rightarrow> py_error + main_window" where
  "on_day_changed mw = record_history (save_day mw (current_date mw))"

text \<open>\<open>DayView.on_block_changed\<close>: \<open>if self.owner is not None: self.owner.on_day_changed()\<close>\<close>

definition on_block_changed :: "main_window \<Rightarrow> py_error + main_window" where
  "on_block_changed mw = on_day_changed mw"

text \<open>
  \<open>DayView._refresh_widget_transparency\<close> calls \<open>set_mouse_transparent\<close> on every block;
  in box-select mode a block outside the selection becomes transparent, which also clears
  its \<open>_group_dragging\<close> flag. \<open>DayView._update_box_selection\<close> replaces the selection
  when it differs as a set and then refreshes.
\<close>

definition refresh_widget_transparency :: "day_view \<Rightarrow> day_view" where
  "refresh_widget_transparency dv =
     (if \<not> box_select_mode dv then dv
      else dv\<lparr>heap := (\<lambda>w. if w \<in> set (event_widgets dv) \<and> w \<notin> set (box_selected_widgets dv)
                             then (heap dv w)\<lparr>group_dragging := False\<rparr> else heap dv w)\<rparr>)"

definition update_box_selection :: "day_view \<Rightarrow> nat list \<Rightarrow> day_view" where
  "update_box_selection dv new_selection =
     (if set new_selection = set (box_selected_widgets dv) then dv
      else refresh_widget_transparency (dv\<lparr>box_selected_widgets := new_selection\<rparr>))"

text \<open>
  \<open>DayView.add_block\<close>. The new object gets the next free address.
  \<^verbatim>\<open>
  duration_min = max(1, duration_min)
  start_candidate = self.clamp_start_to_available(start_min, duration_min, exclude=None, direction=0)
  if start_candidate is None:
      if self.owner: self.owner.flash_status("No room for new event here", warn=True)
      return None
  start_min = start_candidate
  end_min = start_min + duration_min
  if self.overlaps_range(start_min, end_min):
      if self.owner: self.owner.flash_status("Time occupied - cannot create here", warn=True)
      return None
  color = color or self.prefs.event_default
  block = EventWidget(self, start_min, end_min, title, color, ...)
  ...
  self.event_widgets.append(block)
  self._refresh_widget_transparency()
  if record_history: self.note_history_action("Add block")
  return block
  \<close>
\<close>

definition add_block ::
  "main_window \<Rightarrow> int \<Rightarrow> int \<Rightarrow> string \<Rightarrow> qcolor option \<Rightarrow> bool \<Rightarrow> string option \<Rightarrow> bool \<Rightarrow>
   string option \<Rightarrow> string \<Rightarrow> int \<Rightarrow> bool \<Rightarrow> nat option \<times> main_window" where
  "add_block mw start_arg duration_arg title_arg color_arg from_rule_arg rule_id_arg locked_arg
       image_arg tag_arg notify_arg record_arg =
     (let dv = day_view mw;
          duration_min = max 1 duration_arg
      in case clamp_start_to_available dv start_arg duration_min None [] 0 of
           None \<Rightarrow> (None, flash_status mw ''No room for new event here'')
         | Some s \<Rightarrow>
             if overlaps_range dv s (s + duration_min) None [] then
               (None, flash_status mw ''Time occupied - cannot create here'')
             else
               (let col = (case color_arg of None \<Rightarrow> event_default dv | Some c \<Rightarrow> c);
                    block = EventWidget_init s (s + duration_min) title_arg col from_rule_arg
                              rule_id_arg locked_arg image_arg tag_arg notify_arg;
                    w = next_wid dv;
                    dv1 = refresh_widget_transparency
                            (dv\<lparr> heap := (heap dv)(w := block), next_wid := Suc w,
                                event_widgets := event_widgets dv @ [w] \<rparr>);
                    mw1 = mw\<lparr>day_view := dv1\<rparr>
                in (Some w, if record_arg then note_history_action mw1 ''Add block'' else mw1)))"

text \<open>
  \<open>DayView.clear_blocks\<close> and \<open>MainWindow.load_day\<close>: the day's saved items, sorted by
  start (Python's \<open>sorted\<close> is stable), and then the daily rules are added one by one
  through \<open>add_block\<close> without history notes. \<open>add_item\<close> and \<open>add_rule_block\<close>
  are the bodies of the two loops.
  \<^verbatim>\<open>
  self.day_view.clear_blocks(); key = self.date_key(qdate)
  for item in sorted(self.events_by_date.get(key, []), key=lambda x: x["start_min"]):
      color = hex_to_qcolor(item.get("color", "#4879C5"), "#4879C5")
      self.day_view.add_block(
          item["start_min"], item["end_min"] - item["start_min"], item.get("title", ""),
          color, from_rule=False, rule_id=None, locked=bool(int(item.get("locked", 0))),
          image_rel=item.get("image") or None, tag=item.get("tag", "") or "",
          notify_offset=int(item.get("notify_offset", 0)), record_history=False)
  for r in self.repeat_rules:
      if r.get("type") == "DAILY":
          color = hex_to_qcolor(r.get("color", "#4879C5"), "#4879C5")
          self.day_view.add_block(
              r["start_min"], r["end_min"] - r["start_min"], r.get("title", ""), color,
              from_rule=True, rule_id=str(r.get("id")), locked=bool(int(r.get("locked", 0))),
              image_rel=r.get("image") or None, tag=r.get("tag", "") or "",
              notify_offset=int(r.get("notify_offset", 0)), record_history=False)
  if reset_history: self._reset_history(qdate)
  \<close>
\<close>

definition clear_blocks :: "day_view \<Rightarrow> day_view" where
  "clear_blocks dv = (update_box_selection dv [])\<lparr>event_widgets := []\<rparr>"

definition add_item :: "(string \<Rightarrow> qcolor) \<Rightarrow> event_item \<Rightarrow> main_window \<Rightarrow> main_window" where
  "add_item QColor_str item mw =
     snd (add_block mw (it_start_min item) (it_end_min item - it_start_min item) (it_title item)
            (Some (hex_to_qcolor QColor_str (it_color item) ''#4879C5'')) False None
            (it_locked item \<noteq> 0)
            (if it_image item = [] then None else Some (it_image item)) (it_tag item)
            (it_notify_offset item) False)"

definition add_rule_block :: "(string \<Rightarrow> qcolor) \<Rightarrow> rule \<Rightarrow> main_window \<Rightarrow> main_window" where
  "add_rule_block QColor_str r mw =
     (if r_type r = ''DAILY'' then
        snd (add_block mw (r_start_min r) (r_end_min r - r_start_min r) (r_title r)
               (Some (hex_to_qcolor QColor_str (r_color r) ''#4879C5'')) True (Some (r_id r))
               (r_locked r \<noteq> 0)
               (if r_image r = [] then None else Some (r_image r)) (r_tag r)
               (r_notify_offset r) False)
      else mw)"

definition load_day :: "(string \<Rightarrow> qcolor) \<Rightarrow> main_window \<Rightarrow> string \<Rightarrow> bool \<Rightarrow> main_window" where
  "load_day QColor_str mw qdate reset =
     (let mw1 = mw\<lparr>day_view := clear_blocks (day_view mw)\<rparr>;
          mw2 = fold (add_item QColor_str) (sort_key it_start_min (day_events mw1 qdate)) mw1;
          mw3 = fold (add_rule_block QColor_str) (repeat_rules mw2) mw2
      in if reset then reset_history mw3 qdate else mw3)"

text \<open>
  \<open>MainWindow._apply_history_snapshot\<close>. The argument \<open>valid\<close> stands for
  \<open>QDate.fromString(key, "yyyy-MM-dd").isValid()\<close>, the argument \<open>QColor_str\<close> for the
  string constructor of \<open>QColor\<close> that \<open>load_day\<close> calls; a snapshot dictionary is
  never empty.
  \<^verbatim>\<open>
  key = snapshot.get("date")
  if not key: return
  self.events_by_date[key] = deepcopy(snapshot.get("events", []))
  target_date = QDate.fromString(key, "yyyy-MM-dd")
  if target_date.isValid():
      self.current_date = target_date
      ...
      self.load_day(target_date, reset_history=False)
  else:
      self.load_day(self.current_date, reset_history=False)
  \<close>
\<close>

definition apply_history_snapshot ::
  "(string \<Rightarrow> bool) \<Rightarrow> (string \<Rightarrow> qcolor) \<Rightarrow> main_window \<Rightarrow> snapshot \<Rightarrow> main_window" where
  "apply_history_snapshot valid QColor_str mw snap =
     (let key = snap_date snap
      in if key = [] then mw
         else
           (let mw1 = mw\<lparr>events_by_date := (events_by_date mw)(key \<mapsto> snap_events snap)\<rparr>
            in if valid key then load_day QColor_str (mw1\<lparr>current_date := key\<rparr>) key False
               else load_day QColor_str mw1 (current_date mw1) False))"

text \<open>
  \<open>MainWindow.perform_undo\<close>, \<open>perform_redo\<close> and \<open>restore_history_entry\<close>. The
  \<open>finally\<close> clause that clears the freeze flag is modelled on the path without an
  exception; an \<open>IndexError\<close> ends the model's run.
  \<^verbatim>\<open>
  def perform_undo(self):
      if self._history_index <= 0 or not self._history: ...; return
      self._history_index -= 1
      self._history_freeze = True
      try:
          snapshot = self._history[self._history_index]
          self._apply_history_snapshot(snapshot)
      finally:
          self._history_freeze = False
      self._pending_history_action = None
  def perform_redo(self):
      if not self._history or self._history_index >= len(self._history) - 1: ...; return
      self._history_index += 1
      ... (as above)
  def restore_history_entry(self, index):
      if not (0 <= index < len(self._history)): ...; return
      snapshot = self._history[index]
      self._history_index = index
      ... (as above)
  \<close>
\<close>

definition apply_at_cursor ::
  "(string \<Rightarrow> bool) \<Rightarrow> (string \<Rightarrow> qcolor) \<Rightarrow> main_window \<Rightarrow> py_error + main_window" where
  "apply_at_cursor valid QColor_str mw =
     (case py_index (history mw) (history_index mw) of
        Inl err \<Rightarrow> Inl err
      | Inr snap \<Rightarrow>
          Inr ((apply_history_snapshot valid QColor_str (mw\<lparr>history_freeze := True\<rparr>) snap)
                 \<lparr>history_freeze := False, pending_history_action := None\<rparr>))"

definition perform_undo ::
  "(string \<Rightarrow> bool) \<Rightarrow> (string \<Rightarrow> qcolor) \<Rightarrow> main_window \<Rightarrow> py_error + main_window" where
  "perform_undo valid QColor_str mw =
     (if history_index mw \<le> 0 \<or> history mw = [] then Inr mw
      else apply_at_cursor valid QColor_str (mw\<lparr>history_index := history_index mw - 1\<rparr>))"

definition perform_redo ::
  "(string \<Rightarrow> bool) \<Rightarrow> (string \<Rightarrow> qcolor) \<Rightarrow> main_window \<Rightarrow> py_error + main_window" where
  "perform_redo valid QColor_str mw =
     (if history mw = [] \<or> history_index mw \<ge> int (length (history mw)) - 1 then Inr mw
      else apply_at_cursor valid QColor_str (mw\<lparr>history_index := history_index mw + 1\<rparr>))"

definition restore_history_entry ::
  "(string \<Rightarrow> bool) \<Rightarrow> (string \<Rightarrow> qcolor) \<Rightarrow> main_window \<Rightarrow> int \<Rightarrow> py_error + main_window"
  where
  "restore_history_entry valid QColor_str mw index =
     (if \<not> (0 \<le> index \<and> index < int (length (history mw))) then Inr mw
      else apply_at_cursor valid QColor_str (mw\<lparr>history_index := index\<rparr>))"

text \<open>
  \<open>MainWindow.__init__\<close>: \<open>MainWindow_fields\<close> sets the attributes above, and the
  constructor ends with \<open>self.load_day(self.current_date)\<close>. The arguments are the contents
  of the data and rule files, today's date key, the clock and the day view built from the
  preferences.
  \<^verbatim>\<open>
  self.events_by_date = self.load_data()
  self.repeat_rules = self.load_rules()
  self.current_date = QDate.currentDate()
  self._history = []
  self._history_index = -1
  self._history_freeze = False
  self._history_max = 11
  self._pending_history_action = None
  \<close>
\<close>

definition MainWindow_fields ::
  "(string \<Rightarrow> event_item list option) \<Rightarrow> rule list \<Rightarrow> string \<Rightarrow> string \<Rightarrow> day_view \<Rightarrow> main_window"
  where
  "MainWindow_fields data rules today now dv =
     \<lparr> day_view = dv, events_by_date = data, repeat_rules = rules, current_date = today,
       history = [], history_index = - 1, history_freeze = False,
       pending_history_action = None, status_messages = [], clock = now \<rparr>"

definition MainWindow_init ::
  "(string \<Rightarrow> qcolor) \<Rightarrow> (string \<Rightarrow> event_item list option) \<Rightarrow> rule list \<Rightarrow> string \<Rightarrow> string \<Rightarrow>
   day_view \<Rightarrow> main_window"
  where
  "MainWindow_init QColor_str data rules today now dv =
     load_day QColor_str (MainWindow_fields data rules today now dv) today True"

text \<open>
  A saved item with the given interval, the default fill and no further attributes, for
  concrete days.
\<close>

definition plain_item :: "int \<times> int \<Rightarrow> event_item" where
  "plain_item p =
     \<lparr> it_start_min = fst p, it_end_min = snd p, it_title = [], it_tag = [],
       it_color = ''#4879c5'',
       it_locked = 0, it_image = [], it_notify_offset = 0 \<rparr>"

section \<open>Group move, deletion and single-block gestures\<close>

text \<open>
  \<open>DayView._cancel_group_move\<close>, \<open>_start_group_move\<close>, \<open>start_group_move_by_widget\<close>
  and \<open>_finish_group_move\<close>. \<open>set(self._box_selected_widgets)\<close> copies the selection
  without duplicates.
  \<^verbatim>\<open>
  def _start_group_move(self, start_global_y):
      selected = set(self._box_selected_widgets)
      if not selected: return False
      if any(w.locked for w in selected):
          if self.owner: self.owner.flash_status("Locked events cannot move", warn=True)
          return False
      self._group_move_active = True
      self._group_move_last_delta = 0
      self._group_move_refs = [(w, w.start_min, w.end_min) for w in selected]
      self._group_move_selected = selected
      self._box_selecting = False
      return True
  def _finish_group_move(self):
      if not self._group_move_active: return
      moved = self._group_move_last_delta != 0
      self._group_move_active = False
      self._group_move_refs = []
      self._group_move_selected = set()
      self._group_move_last_delta = 0
      self._refresh_widget_transparency()
      if moved: self.on_block_changed(None)
  \<close>
\<close>

definition cancel_group_move :: "day_view \<Rightarrow> day_view" where
  "cancel_group_move dv =
     (if \<not> group_move_active dv then dv
      else refresh_widget_transparency
             (dv\<lparr> group_move_active := False, group_move_refs := [], group_move_selected := [],
                 group_move_last_delta := 0 \<rparr>))"

definition start_group_move :: "main_window \<Rightarrow> bool \<times> main_window" where
  "start_group_move mw =
     (let dv = day_view mw;
          selected = remdups (box_selected_widgets dv)
      in if selected = [] then (False, mw)
         else if list_ex (\<lambda>w. locked (heap dv w)) selected then
           (False, flash_status mw ''Locked events cannot move'')
         else
           (True, mw\<lparr>day_view := dv\<lparr> group_move_active := True, group_move_last_delta := 0,
                     group_move_refs :=
                       map (\<lambda>w. (w, start_min (heap dv w), end_min (heap dv w))) selected,
                     group_move_selected := selected, box_selecting := False \<rparr>\<rparr>))"

definition start_group_move_by_widget :: "main_window \<Rightarrow> nat \<Rightarrow> bool \<times> main_window" where
  "start_group_move_by_widget mw widget =
     (if widget \<notin> set (box_selected_widgets (day_view mw)) then (False, mw)
      else start_group_move mw)"

definition finish_group_move :: "main_window \<Rightarrow> py_error + main_window" where
  "finish_group_move mw =
     (let dv = day_view mw
      in if \<not> group_move_active dv then Inr mw
         else
           (let moved = (group_move_last_delta dv \<noteq> 0);
                dv1 = refresh_widget_transparency
                        (dv\<lparr> group_move_active := False, group_move_refs := [],
                            group_move_selected := [], group_move_last_delta := 0 \<rparr>);
                mw1 = mw\<lparr>day_view := dv1\<rparr>
            in if moved then on_block_changed mw1 else Inr mw1))"

text \<open>
  \<open>DayView.delete_block\<close>; the clean-up of an image file that is no longer referenced
  touches the file system only and is left out.
  \<^verbatim>\<open>
  if block in self.event_widgets:
      if block.locked:
          if self.owner: self.owner.flash_status("Event is locked", warn=True)
          return
      self.note_history_action("Delete block")
      if block in self._box_selected_widgets:
          new_sel = set(self._box_selected_widgets)
          new_sel.discard(block)
          self._update_box_selection(new_sel)
      self.event_widgets.remove(block); block.deleteLater(); self.on_block_changed(None)
      self._refresh_widget_transparency()
  \<close>
\<close>

definition delete_block :: "main_window \<Rightarrow> nat \<Rightarrow> py_error + main_window" where
  "delete_block mw block =
     (let dv = day_view mw
      in if block \<in> set (event_widgets dv) then
           (if locked (heap dv block) then Inr (flash_status mw ''Event is locked'')
            else
              (let mw1 = note_history_action mw ''Delete block'';
                   dv1 = (if block \<in> set (box_selected_widgets dv)
                          then update_box_selection dv (removeAll block (box_selected_widgets dv))
                          else dv);
                   dv2 = dv1\<lparr>event_widgets := remove1 block (event_widgets dv1)\<rparr>
               in case on_block_changed (mw1\<lparr>day_view := dv2\<rparr>) of
                    Inl err \<Rightarrow> Inl err
                  | Inr mw2 \<Rightarrow>
                      Inr (mw2\<lparr>day_view := refresh_widget_transparency (day_view mw2)\<rparr>)))
         else Inr mw)"

text \<open>
  \<open>MainWindow.delete_daily_rule\<close> on the rule list: the first rule with the given id is
  removed unless it is locked.
\<close>

primrec delete_daily_rule :: "rule list \<Rightarrow> string \<Rightarrow> rule list" where
  "delete_daily_rule [] rid = []"
| "delete_daily_rule (r # rs) rid =
     (if r_id r = rid then (if r_locked r = 1 then r # rs else rs)
      else r # delete_daily_rule rs rid)"

definition delete_daily_rule_with_cleanup :: "main_window \<Rightarrow> string option \<Rightarrow> main_window" where
  "delete_daily_rule_with_cleanup mw rid =
     (case rid of None \<Rightarrow> mw
      | Some i \<Rightarrow> mw\<lparr>repeat_rules := delete_daily_rule (repeat_rules mw) i\<rparr>)"

primrec fold_result :: "('a \<Rightarrow> 's \<Rightarrow> 'e + 's) \<Rightarrow> 'a list \<Rightarrow> 's \<Rightarrow> 'e + 's" where
  "fold_result f [] s = Inr s"
| "fold_result f (x # xs) s = (case f x s of Inl err \<Rightarrow> Inl err | Inr s' \<Rightarrow> fold_result f xs s')"

fun str_nat :: "nat \<Rightarrow> string" where
  "str_nat n =
     (if n < 10 then [char_of (48 + n)] else str_nat (n div 10) @ [char_of (48 + n mod 10)])"

text \<open>
  \<open>DayView.delete_selected_blocks\<close>:
  \<^verbatim>\<open>
  selected = set(self._box_selected_widgets)
  if not selected: return
  self.note_history_action("Delete selection")
  if any(w.locked for w in selected):
      if self.owner: self.owner.flash_status("Locked events cannot be deleted", warn=True)
      return
  self._cancel_group_move()
  from_rules = [w for w in selected if w.from_rule]
  regulars = [w for w in selected if not w.from_rule]
  for w in list(regulars): self.delete_block(w)
  if from_rules and self.owner:
      for w in from_rules: self.owner.delete_daily_rule_with_cleanup(w.rule_id)
      self.owner.load_day(self.owner.current_date)
  total_deleted = len(regulars) + len(from_rules)
  self._update_box_selection(set())
  if self.owner and total_deleted:
      self.owner.flash_status(f"Deleted {total_deleted} event{'s' if total_deleted != 1 else ''}")
  \<close>
\<close>

definition delete_selected_blocks ::
  "(string \<Rightarrow> qcolor) \<Rightarrow> main_window \<Rightarrow> py_error + main_window" where
  "delete_selected_blocks QColor_str mw =
     (let dv = day_view mw;
          selected = remdups (box_selected_widgets dv)
      in if selected = [] then Inr mw
         else
           (let mw1 = note_history_action mw ''Delete selection''
            in if list_ex (\<lambda>w. locked (heap dv w)) selected then
                 Inr (flash_status mw1 ''Locked events cannot be deleted'')
               else
                 (let mw2 = mw1\<lparr>day_view := cancel_group_move (day_view mw1)\<rparr>;
                      from_rules = filter (\<lambda>w. from_rule (heap dv w)) selected;
                      regulars = filter (\<lambda>w. \<not> from_rule (heap dv w)) selected
                  in case fold_result (\<lambda>w m. delete_block m w) regulars mw2 of
                       Inl err \<Rightarrow> Inl err
                     | Inr mw3 \<Rightarrow>
                         (let mw4 =
                                (if from_rules \<noteq> [] then
                                   load_day QColor_str
                                     (fold (\<lambda>w m. delete_daily_rule_with_cleanup m
                                                     (rule_id (heap (day_view m) w)))
                                        from_rules mw3)
                                     (current_date mw3) True
                                 else mw3);
                              total_deleted = length regulars + length from_rules;
                              mw5 = mw4\<lparr>day_view := update_box_selection (day_view mw4) []\<rparr>
                          in Inr (if total_deleted \<noteq> 0 then
                                    flash_status mw5
                                      (''Deleted '' @ str_nat total_deleted @ '' event'' @
                                       (if total_deleted \<noteq> 1 then ''s'' else []))
                                  else mw5)))))"

text \<open>
  \<open>DayView.finalize_single_move\<close>:
  \<^verbatim>\<open>
  duration = max(1, widget.end_min - widget.start_min)
  if widget.start_min == orig_start and widget.end_min == orig_end:
      self.on_block_changed(widget); return
  direction = 1 if widget.start_min > orig_start else -1 if widget.start_min < orig_start else 0
  clamped = self.clamp_start_to_available(widget.start_min, duration, exclude=widget,
                                          direction=direction)
  if clamped is None:
      widget.start_min = orig_start
      widget.end_min = orig_end
      if self.owner: self.owner.flash_status("Time occupied - cannot place here", warn=True)
      self.on_block_changed(widget); return
  widget.start_min = clamped
  widget.end_min = widget.start_min + duration
  self.on_block_changed(widget)
  \<close>
\<close>

definition finalize_single_move ::
  "main_window \<Rightarrow> nat \<Rightarrow> int \<Rightarrow> int \<Rightarrow> py_error + main_window" where
  "finalize_single_move mw widget orig_start_arg orig_end_arg =
     (let dv = day_view mw;
          ev = heap dv widget;
          duration = max 1 (end_min ev - start_min ev)
      in if start_min ev = orig_start_arg \<and> end_min ev = orig_end_arg then on_block_changed mw
         else
           (let direction = (if start_min ev > orig_start_arg then 1
                             else if start_min ev < orig_start_arg then - 1 else 0)
            in case clamp_start_to_available dv (start_min ev) duration (Some widget) []
                      direction of
                 None \<Rightarrow>
                   on_block_changed
                     (flash_status
                        (mw\<lparr>day_view := set_interval dv widget orig_start_arg orig_end_arg\<rparr>)
                        ''Time occupied - cannot place here'')
               | Some clamped \<Rightarrow>
                   on_block_changed
                     (mw\<lparr>day_view := set_interval dv widget clamped (clamped + duration)\<rparr>)))"

text \<open>
  \<open>EventWidget._smart_scale_resize_bottom\<close>. \<open>smart_bottom_loop\<close> is the \<open>while\<close>
  loop, its first argument the number of attempts left out of 1000; it yields the duration
  the loop ends with.
  \<^verbatim>\<open>
  chunk = self._base_chunk()          # max(1, self.day_view.time_size_minutes)
  minute_at_cursor = max(self._orig_start + chunk, min(minute_at_cursor, 24 * 60))
  delta = minute_at_cursor - self._orig_end
  steps = int(delta // chunk)
  target_duration = max(chunk, self._orig_duration + steps * chunk)
  max_duration = max(chunk, ((24 * 60 - self._orig_start) // chunk) * chunk or chunk)
  target_duration = max(chunk, min(target_duration, max_duration))
  duration = target_duration
  direction = 1 if duration >= self._orig_duration else -1
  attempts = 0
  while attempts < 1000:
      duration = max(chunk, min(duration, max_duration))
      new_end = self._orig_start + duration
      if new_end > 24 * 60:
          duration -= chunk
          attempts += 1
          continue
      if not self.day_view.overlaps_range(self._orig_start, new_end, exclude=self):
          break
      duration -= chunk if direction >= 0 else -chunk
      if duration < chunk:
          duration = chunk
          break
      attempts += 1
  self.start_min = self._orig_start
  self.end_min = min(24 * 60, self._orig_start + duration)
  \<close>
\<close>

primrec smart_bottom_loop ::
  "nat \<Rightarrow> day_view \<Rightarrow> nat \<Rightarrow> int \<Rightarrow> int \<Rightarrow> int \<Rightarrow> int \<Rightarrow> int \<Rightarrow> int" where
  "smart_bottom_loop 0 dv w chunk max_duration direction anchor duration = duration"
| "smart_bottom_loop (Suc n) dv w chunk max_duration direction anchor duration =
     (let d = max chunk (min duration max_duration);
          new_end = anchor + d
      in if new_end > 24 * 60 then
           smart_bottom_loop n dv w chunk max_duration direction anchor (d - chunk)
         else if \<not> overlaps_range dv anchor new_end (Some w) [] then d
         else
           (let d' = d - (if direction \<ge> 0 then chunk else - chunk)
            in if d' < chunk then chunk
               else smart_bottom_loop n dv w chunk max_duration direction anchor d'))"

definition base_chunk :: "day_view \<Rightarrow> int" where
  "base_chunk dv = max 1 (time_size_minutes dv)"

definition smart_scale_resize_bottom :: "day_view \<Rightarrow> nat \<Rightarrow> int \<Rightarrow> day_view" where
  "smart_scale_resize_bottom dv w minute_arg =
     (let ev = heap dv w;
          chunk = base_chunk dv;
          minute_at_cursor = max (orig_start ev + chunk) (min minute_arg (24 * 60));
          delta = minute_at_cursor - orig_end ev;
          steps = delta div chunk;
          target0 = max chunk (orig_duration ev + steps * chunk);
          whole = ((24 * 60 - orig_start ev) div chunk) * chunk;
          max_duration = max chunk (if whole \<noteq> 0 then whole else chunk);
          target_duration = max chunk (min target0 max_duration);
          direction = (if target_duration \<ge> orig_duration ev then 1 else - 1 :: int);
          duration = smart_bottom_loop 1000 dv w chunk max_duration direction (orig_start ev)
                       target_duration
      in set_interval dv w (orig_start ev) (min (24 * 60) (orig_start ev + duration)))"

text \<open>
  \<open>EventWidget.mousePressEvent\<close> and \<open>mouseReleaseEvent\<close>. The pointer position enters
  only through the tests \<open>y <= HANDLE\<close> and \<open>y >= height - HANDLE\<close>, taken in this order;
  \<open>hit_region\<close> is their outcome. A press with another button goes to the base class.
  \<^verbatim>\<open>
  def mousePressEvent(self, e):
      if self.day_view.box_select_mode:
          if e.button() == Qt.MouseButton.LeftButton:
              if self in self.day_view.get_selected_widgets():
                  if self.day_view.start_group_move_by_widget(self, e.globalPosition().y()):
                      self._group_dragging = True
          ...
          return
      if self.locked and e.button() == Qt.MouseButton.LeftButton:
          owner.flash_status("Event is locked", warn=True)
          self._drag_mode = None
          self._orig_start = self.start_min; self._orig_end = self.end_min
          return
      if e.button() == Qt.MouseButton.LeftButton:
          if smart_scale:
              if y <= self.HANDLE: self._drag_mode = "resize_top"
              elif y >= self.height() - self.HANDLE: self._drag_mode = "resize_bottom"
              else:
                  self._drag_mode = None
                  return
          else:
              if y <= self.HANDLE: self._drag_mode = "resize_top"
              elif y >= self.height() - self.HANDLE: self._drag_mode = "resize_bottom"
              else: self._drag_mode = "move"
              if magnetic: self._drag_mode = "move"
          self._orig_start = self.start_min; self._orig_end = self.end_min
          self._orig_duration = max(1, self._orig_end - self._orig_start)
  def mouseReleaseEvent(self, e):
      if self.day_view.box_select_mode:
          if self._group_dragging and e.button() == Qt.MouseButton.LeftButton:
              self.day_view._finish_group_move()
              self._group_dragging = False
          return
      if self.locked and e.button() == Qt.MouseButton.LeftButton:
          self._drag_mode = None
          return
      if e.button() == Qt.MouseButton.LeftButton:
          if self._drag_mode == "move":
              moved = (self.start_min != self._orig_start) or (self.end_min != self._orig_end)
              if moved: self.day_view.note_history_action("Move block")
              self.day_view.finalize_single_move(self, self._orig_start, self._orig_end)
          else:
              resized = (self.start_min != self._orig_start) or (self.end_min != self._orig_end)
              if resized: self.day_view.note_history_action("Resize block")
              self.day_view.on_block_changed(self)
          self._drag_mode = None
  \<close>
\<close>

datatype mouse_button = LeftButton | RightButton | OtherButton

datatype hit_region = TopHandle | BottomHandle | Body

definition update_widget :: "main_window \<Rightarrow> nat \<Rightarrow> (event_widget \<Rightarrow> event_widget) \<Rightarrow> main_window" where
  "update_widget mw w f =
     mw\<lparr>day_view := (day_view mw)\<lparr>heap := (heap (day_view mw))(w := f (heap (day_view mw) w))\<rparr>\<rparr>"

definition arm_drag :: "drag_mode \<Rightarrow> event_widget \<Rightarrow> event_widget" where
  "arm_drag m ev =
     ev\<lparr> drag_mode := Some m, orig_start := start_min ev, orig_end := end_min ev,
         orig_duration := max 1 (end_min ev - start_min ev) \<rparr>"

definition mousePressEvent :: "main_window \<Rightarrow> nat \<Rightarrow> mouse_button \<Rightarrow> hit_region \<Rightarrow> main_window" where
  "mousePressEvent mw w button region =
     (let dv = day_view mw; ev = heap dv w
      in if box_select_mode dv then
           (if button = LeftButton \<and> w \<in> set (box_selected_widgets dv) then
              (case start_group_move_by_widget mw w of
                 (True, mw1) \<Rightarrow> update_widget mw1 w (\<lambda>x. x\<lparr>group_dragging := True\<rparr>)
               | (False, mw1) \<Rightarrow> mw1)
            else mw)
         else if locked ev \<and> button = LeftButton then
           flash_status
             (update_widget mw w
                (\<lambda>x. x\<lparr>drag_mode := None, orig_start := start_min x, orig_end := end_min x\<rparr>))
             ''Event is locked''
         else if button = LeftButton then
           (if smart_scale_enabled dv then
              (case region of
                 TopHandle \<Rightarrow> update_widget mw w (arm_drag ResizeTop)
               | BottomHandle \<Rightarrow> update_widget mw w (arm_drag ResizeBottom)
               | Body \<Rightarrow> update_widget mw w (\<lambda>x. x\<lparr>drag_mode := None\<rparr>))
            else
              update_widget mw w
                (arm_drag (if magnetic_mode dv then Move
                           else case region of TopHandle \<Rightarrow> ResizeTop
                                | BottomHandle \<Rightarrow> ResizeBottom | Body \<Rightarrow> Move)))
         else mw)"

definition mouseReleaseEvent :: "main_window \<Rightarrow> nat \<Rightarrow> mouse_button \<Rightarrow> py_error + main_window" where
  "mouseReleaseEvent mw w button =
     (let dv = day_view mw; ev = heap dv w
      in if box_select_mode dv then
           (if group_dragging ev \<and> button = LeftButton then
              (case finish_group_move mw of
                 Inl err \<Rightarrow> Inl err
               | Inr mw1 \<Rightarrow> Inr (update_widget mw1 w (\<lambda>x. x\<lparr>group_dragging := False\<rparr>)))
            else Inr mw)
         else if locked ev \<and> button = LeftButton then
           Inr (update_widget mw w (\<lambda>x. x\<lparr>drag_mode := None\<rparr>))
         else if button = LeftButton then
           (let changed = (start_min ev \<noteq> orig_start ev \<or> end_min ev \<noteq> orig_end ev)
            in case (if drag_mode ev = Some Move then
                       finalize_single_move
                         (if changed then note_history_action mw ''Move block'' else mw) w
                         (orig_start ev) (orig_end ev)
                     else
                       on_block_changed
                         (if changed then note_history_action mw ''Resize block'' else mw)) of
                 Inl err \<Rightarrow> Inl err
               | Inr mw1 \<Rightarrow> Inr (update_widget mw1 w (\<lambda>x. x\<lparr>drag_mode := None\<rparr>)))
         else Inr mw)"

section \<open>The specification's wording of the group-move check, the schedule invariant, rejection
  and the restored store\<close>

text \<open>
  A delta passes the group-move check when every referenced member, shifted by it, stays
  within \<open>[0, 1440]\<close> and overlaps no block outside the selection.
\<close>

definition group_step_valid :: "day_view \<Rightarrow> int \<Rightarrow> bool" where
  "group_step_valid dv d =
     (\<forall>(w, s, e)\<in>set (group_move_refs dv).
        0 \<le> s + d \<and> e + d \<le> 24 * 60 \<and>
        (\<forall>ev\<in>set (event_widgets dv).
           ev \<notin> set (group_move_selected dv) \<longrightarrow>
           \<not> max (s + d) (start_min (heap dv ev)) < min (e + d) (end_min (heap dv ev))))"

definition shifted_refs :: "day_view \<Rightarrow> int \<Rightarrow> (nat \<times> int \<times> int) list" where
  "shifted_refs dv d = map (\<lambda>(w, s, e). (w, s + d, e + d)) (group_move_refs dv)"

text \<open>
  The schedule invariant: every block of the store has \<open>start_min < end_min\<close>, and two
  blocks at different places of the store do not overlap as half-open intervals.
\<close>

definition overlap :: "event_widget \<Rightarrow> event_widget \<Rightarrow> bool" where
  "overlap a b = (max (start_min a) (start_min b) < min (end_min a) (end_min b))"

definition store_invariant :: "day_view \<Rightarrow> bool" where
  "store_invariant dv =
     ((\<forall>w\<in>set (event_widgets dv). start_min (heap dv w) < end_min (heap dv w)) \<and>
      (\<forall>i<length (event_widgets dv). \<forall>j<length (event_widgets dv).
         i \<noteq> j \<longrightarrow> \<not> overlap (heap dv (event_widgets dv ! i)) (heap dv (event_widgets dv ! j))))"

text \<open>
  Two window states agree on the saved days, the rules, the clock and the whole history
  record.
\<close>

definition log_frame :: "main_window \<Rightarrow> main_window \<Rightarrow> bool" where
  "log_frame a b \<longleftrightarrow>
     events_by_date a = events_by_date b \<and> history a = history b \<and>
     history_index a = history_index b \<and> current_date a = current_date b \<and>
     history_freeze a = history_freeze b \<and> repeat_rules a = repeat_rules b \<and>
     pending_history_action a = pending_history_action b \<and> clock a = clock b"

text \<open>
  What a rejected operation leaves behind: the same list of blocks with the same intervals
  and lock flags, the same saved days and the same history entries and cursor; a rejection
  that reports adds one status message.
\<close>

definition store_and_log_unchanged :: "main_window \<Rightarrow> main_window \<Rightarrow> bool" where
  "store_and_log_unchanged mw mw' \<longleftrightarrow>
     event_widgets (day_view mw') = event_widgets (day_view mw) \<and>
     (\<forall>v. start_min (heap (day_view mw') v) = start_min (heap (day_view mw) v) \<and>
          end_min (heap (day_view mw') v) = end_min (heap (day_view mw) v) \<and>
          locked (heap (day_view mw') v) = locked (heap (day_view mw) v)) \<and>
     events_by_date mw' = events_by_date mw \<and>
     history mw' = history mw \<and> history_index mw' = history_index mw"

definition rejected :: "main_window \<Rightarrow> main_window \<Rightarrow> string \<Rightarrow> bool" where
  "rejected mw mw' msg \<longleftrightarrow>
     store_and_log_unchanged mw mw' \<and> status_messages mw' = status_messages mw @ [msg]"

text \<open>
  The store a snapshot is compared with. \<open>stored_blocks\<close> are the blocks of the day view
  that \<open>save_day\<close> writes, those not made from a rule, in the order of \<open>event_widgets\<close>.
  A block shows a saved item when it has the item's interval and title, the item's tag
  stripped, the colour \<open>hex_to_qcolor\<close> makes of the item's colour, the lock flag, image
  and notify offset as \<open>load_day\<close> hands them to the constructor, and belongs to no rule.
\<close>

definition stored_blocks :: "day_view \<Rightarrow> event_widget list" where
  "stored_blocks dv = map (heap dv) (filter (\<lambda>w. \<not> from_rule (heap dv w)) (event_widgets dv))"

definition shows_item :: "(string \<Rightarrow> qcolor) \<Rightarrow> event_widget \<Rightarrow> event_item \<Rightarrow> bool" where
  "shows_item QColor_str b item \<longleftrightarrow>
     start_min b = it_start_min item \<and> end_min b = it_end_min item \<and>
     title b = it_title item \<and> tag b = py_strip (it_tag item) \<and>
     color b = hex_to_qcolor QColor_str (it_color item) ''#4879C5'' \<and>
     \<not> from_rule b \<and> rule_id b = None \<and> locked b = (it_locked item \<noteq> 0) \<and>
     image_rel b = (if it_image item = [] then None else Some (it_image item)) \<and>
     notify_offset b = max 0 (it_notify_offset item)"

text \<open>
  A list of saved items fits a day when every item has \<open>0 \<le> start < end \<le> 1440\<close> and no
  two items at different places of the list overlap; this is the schedule invariant, read
  on the items that \<open>save_day\<close> writes.
\<close>

definition items_overlap :: "event_item \<Rightarrow> event_item \<Rightarrow> bool" where
  "items_overlap a b = (max (it_start_min a) (it_start_min b) < min (it_end_min a) (it_end_min b))"

primrec disjoint_items :: "event_item list \<Rightarrow> bool" where
  "disjoint_items [] = True"
| "disjoint_items (i # items) =
     (list_all (\<lambda>j. \<not> items_overlap i j) items \<and> disjoint_items items)"

definition items_fit :: "event_item list \<Rightarrow> bool" where
  "items_fit items \<longleftrightarrow>
     list_all (\<lambda>i. 0 \<le> it_start_min i \<and> it_start_min i < it_end_min i \<and> it_end_min i \<le> 24 * 60)
       items \<and>
     disjoint_items items"

text \<open>
  While \<open>load_day\<close> fills the day view, every block of the view has an address below the
  next free one and is in no group drag; \<open>view_blocks\<close> are the blocks in the order of
  \<open>event_widgets\<close>.
\<close>

definition fresh_view :: "day_view \<Rightarrow> bool" where
  "fresh_view dv \<longleftrightarrow>
     (\<forall>w\<in>set (event_widgets dv). w < next_wid dv \<and> \<not> group_dragging (heap dv w))"

definition view_blocks :: "day_view \<Rightarrow> event_widget list" where
  "view_blocks dv = map (heap dv) (event_widgets dv)"

section \<open>Concrete schedules\<close>

text \<open>
  For concrete days the string constructor of \<open>QColor\<close> is taken on the form
  \<open>#rrggbb\<close> alone, six hexadecimal digits of either case; any other string is no colour
  here.
\<close>

definition hex_value :: "char \<Rightarrow> nat" where
  "hex_value c =
     (let n = (of_char c :: nat)
      in if 48 \<le> n \<and> n \<le> 57 then n - 48
         else if 97 \<le> n \<and> n \<le> 102 then n - 87
         else if 65 \<le> n \<and> n \<le> 70 then n - 55
         else 16)"

definition QColor_rrggbb :: "string \<Rightarrow> qcolor" where
  "QColor_rrggbb s =
     (if length s = 7 \<and> hd s = CHR ''#'' \<and> list_all (\<lambda>c. hex_value c < 16) (tl s) then
        QColor True (16 * hex_value (s ! 1) + hex_value (s ! 2))
          (16 * hex_value (s ! 3) + hex_value (s ! 4))
          (16 * hex_value (s ! 5) + hex_value (s ! 6))
      else QColor False 0 0 0)"

text \<open>
  The day of the specification's fourth scenario: A (08:00 to 08:30) and B (09:00 to 09:30)
  are box-selected, a third block (09:15 to 09:45) is not.
\<close>

definition scenario4 :: main_window where
  "scenario4 =
     MainWindow_fields Map.empty [] ''2025-01-01'' []
       ((with_blocks (DayView_init 15 True False False default_fill)
           [(480, 510), (540, 570), (555, 585)])
          \<lparr>box_select_mode := True, box_selected_widgets := [0, 1]\<rparr>)"

text \<open>
  A log of eleven snapshots of the day \<open>2025-01-01\<close>, the \<open>n\<close>-th holding the single item
  \<open>(n, n + 1)\<close>, and a window on that day with this log, a given cursor and a given saved
  list.
\<close>

definition sample_history :: "snapshot list" where
  "sample_history =
     map (\<lambda>n. \<lparr> snap_date = ''2025-01-01'', snap_events = [plain_item (int n, int n + 1)],
                 snap_action = ''Change'', snap_timestamp = [] \<rparr>) [0..<11]"

definition sample_window :: "int \<Rightarrow> (int \<times> int) list \<Rightarrow> main_window" where
  "sample_window cursor saved =
     (MainWindow_fields (Map.empty(''2025-01-01'' \<mapsto> map plain_item saved)) [] ''2025-01-01'' []
        (DayView_init 30 True False False default_fill))
     \<lparr>history := sample_history, history_index := cursor\<rparr>"

text \<open>
  The specification's fifth scenario: a window opened on an empty day, and the same window
  after a block of the chunk size has been added at 08:00 and not yet saved.
\<close>

definition scenario5_opened :: main_window where
  "scenario5_opened =
     MainWindow_init QColor_rrggbb Map.empty [] ''2025-01-01'' []
       (DayView_init 30 True False False default_fill)"

definition scenario5_added :: main_window where
  "scenario5_added =
     snd (add_block scenario5_opened 480 30 [] None False None False None [] 0 True)"

text \<open>
  A day whose first block (08:00 to 08:30) is locked and whose second (09:00 to 09:30) is
  not, opened from saved data; and the same day in box-select mode with both blocks
  selected.
\<close>

definition locked_day :: main_window where
  "locked_day =
     MainWindow_init QColor_rrggbb
       (Map.empty(''2025-01-01'' \<mapsto> [(plain_item (480, 510))\<lparr>it_locked := 1\<rparr>, plain_item (540, 570)]))
       [] ''2025-01-01'' [] (DayView_init 30 True False False default_fill)"

definition locked_day_selected :: main_window where
  "locked_day_selected =
     locked_day\<lparr>day_view :=
       (day_view locked_day)\<lparr>box_select_mode := True, box_selected_widgets := [0, 1]\<rparr>\<rparr>"

text \<open>
  A day with a ten-minute block at 00:00 directly followed by a thirty-minute block, opened
  from saved data while the time size is 30 minutes and smart scale is on.
\<close>

definition smart_scale_day :: main_window where
  "smart_scale_day =
     MainWindow_init QColor_rrggbb
       (Map.empty(''2025-01-01'' \<mapsto> [plain_item (0, 10), plain_item (10, 40)]))
       [] ''2025-01-01'' [] (DayView_init 30 True True False default_fill)"

section \<open>Block construction\<close>

text \<open>
  C9. For arbitrary integer arguments the constructor stores the start argument clamped
  into \<open>[0, 1439]\<close> and the end argument clamped into \<open>[start + 1, 1440]\<close>, \<open>start\<close> being
  the stored start: the stored start is \<open>max 0 (min s 1439)\<close> and the stored end is
  \<open>max (start + 1) (min e 1440)\<close>. An argument inside its range is stored as it is, one
  outside goes to the nearest bound, and arguments with \<open>0 \<le> s < e \<le> 1440\<close> are both kept.
  Hence \<open>0 \<le> start < end \<le> 1440\<close> also for arguments that are out of range or inverted.
\<close>

theorem init_block_well_formed:
  "(let b = EventWidget_init s e t c fr rid lk img tg n
    in start_min b = max 0 (min s 1439) \<and>
       end_min b = max (start_min b + 1) (min e 1440) \<and>
       0 \<le> start_min b \<and> start_min b \<le> 1439 \<and>
       start_min b + 1 \<le> end_min b \<and> end_min b \<le> 1440 \<and>
       start_min b < end_min b \<and>
       (0 \<le> s \<and> s \<le> 1439 \<longrightarrow> start_min b = s) \<and>
       (s < 0 \<longrightarrow> start_min b = 0) \<and>
       (1439 < s \<longrightarrow> start_min b = 1439) \<and>
       (start_min b < e \<and> e \<le> 1440 \<longrightarrow> end_min b = e) \<and>
       (e \<le> start_min b \<longrightarrow> end_min b = start_min b + 1) \<and>
       (1440 < e \<longrightarrow> end_min b = 1440) \<and>
       (0 \<le> s \<and> s < e \<and> e \<le> 1440 \<longrightarrow> start_min b = s \<and> end_min b = e))"
  by (simp add: EventWidget_init_def Let_def max_def min_def)

theorem init_block_well_formed_witness:
  "start_min (EventWidget_init 480 510 [] default_fill False None False None [] 0) = 480 \<and>
   end_min (EventWidget_init 480 510 [] default_fill False None False None [] 0) = 510 \<and>
   start_min (EventWidget_init (- 5) 2000 [] default_fill False None False None [] 0) = 0 \<and>
   end_min (EventWidget_init (- 5) 2000 [] default_fill False None False None [] 0) = 1440 \<and>
   start_min (EventWidget_init 2000 3 [] default_fill False None False None [] 0) = 1439 \<and>
   end_min (EventWidget_init 2000 3 [] default_fill False None False None [] 0) = 1440 \<and>
   start_min (EventWidget_init 100 50 [] default_fill False None False None [] 0) = 100 \<and>
   end_min (EventWidget_init 100 50 [] default_fill False None False None [] 0) = 101"
proof -
  have kept: "start_min (EventWidget_init 480 510 [] default_fill False None False None [] 0) = 480 \<and>
      end_min (EventWidget_init 480 510 [] default_fill False None False None [] 0) = 510"
    using init_block_well_formed[of 480 510 "[]" default_fill False None False None "[]" 0]
    by (simp add: Let_def)
  have wide: "start_min (EventWidget_init (- 5) 2000 [] default_fill False None False None [] 0) = 0 \<and>
      end_min (EventWidget_init (- 5) 2000 [] default_fill False None False None [] 0) = 1440"
    using init_block_well_formed[of "- 5" 2000 "[]" default_fill False None False None "[]" 0]
    by (simp add: Let_def)
  have late: "start_min (EventWidget_init 2000 3 [] default_fill False None False None [] 0) = 1439 \<and>
      end_min (EventWidget_init 2000 3 [] default_fill False None False None [] 0) = 1440"
    using init_block_well_formed[of 2000 3 "[]" default_fill False None False None "[]" 0]
    by (simp add: Let_def)
  have inverted: "start_min (EventWidget_init 100 50 [] default_fill False None False None [] 0) = 100 \<and>
      end_min (EventWidget_init 100 50 [] default_fill False None False None [] 0) = 101"
    using init_block_well_formed[of 100 50 "[]" default_fill False None False None "[]" 0]
    by (simp add: Let_def)
  show ?thesis
    using kept wide late inverted by simp
qed

section \<open>Grid snapping\<close>

lemma py_round_div_multiple: "1 < b \<Longrightarrow> py_round_div (k * b) b = k"
  by (simp add: py_round_div_def Let_def)

lemma py_round_div_bounds: "a div b \<le> py_round_div a b \<and> py_round_div a b \<le> a div b + 1"
  by (simp add: py_round_div_def Let_def)

lemma py_round_div_near:
  assumes b: "0 < b"
  shows "2 * \<bar>py_round_div a b * b - a\<bar> \<le> b"
    and "2 * \<bar>py_round_div a b * b - a\<bar> = b \<Longrightarrow> even (py_round_div a b)"
proof -
  define q where "q = a div b"
  define r where "r = a mod b"
  have "a = q * b + r" "0 \<le> r" "r < b"
    using b by (simp_all add: q_def r_def)
  then show "2 * \<bar>py_round_div a b * b - a\<bar> \<le> b"
    and "2 * \<bar>py_round_div a b * b - a\<bar> = b \<Longrightarrow> even (py_round_div a b)"
    unfolding py_round_div_def Let_def q_def[symmetric] r_def[symmetric]
    by (auto simp: algebra_simps split: if_splits)
qed

lemma py_round_div_mono:
  assumes b: "0 < b" and le: "a \<le> a'"
  shows "py_round_div a b \<le> py_round_div a' b"
proof -
  have q: "a div b \<le> a' div b"
    using b le by (rule_tac zdiv_mono1)
  show ?thesis
  proof (cases "a div b < a' div b")
    case True
    have "py_round_div a b \<le> a div b + 1"
      using py_round_div_bounds by blast
    also have "\<dots> \<le> a' div b"
      using True by simp
    also have "\<dots> \<le> py_round_div a' b"
      using py_round_div_bounds by blast
    finally show ?thesis .
  next
    case False
    then have eq: "a div b = a' div b"
      using q by simp
    have "a = (a div b) * b + a mod b" "a' = (a' div b) * b + a' mod b"
      by simp_all
    then have "a mod b \<le> a' mod b"
      using le eq by (metis add_le_cancel_left)
    then show ?thesis
      using eq by (auto simp: py_round_div_def Let_def)
  qed
qed

lemma snap_minute_idem:
  assumes "minute \<le> 24 * 60"
  shows "snap_minute dv (snap_minute dv minute) = snap_minute dv minute"
proof (cases "snap_step dv \<le> 1")
  case True
  then show ?thesis
    by (simp add: snap_minute_def Let_def)
next
  case False
  then have b: "1 < snap_step dv"
    by simp
  define k where "k = py_round_div minute (snap_step dv)"
  have mono: "k \<le> py_round_div 1440 (snap_step dv)"
    unfolding k_def using py_round_div_mono[of "snap_step dv" minute 1440] b assms by simp
  have z: "py_round_div 0 (snap_step dv) = 0"
    using py_round_div_multiple[OF b, of 0] by simp
  consider "k * snap_step dv < 0" | "0 \<le> k * snap_step dv" "k * snap_step dv \<le> 1440"
    | "1440 < k * snap_step dv"
    by linarith
  then show ?thesis
  proof cases
    case 1
    then show ?thesis
      using b z by (simp add: snap_minute_def Let_def k_def[symmetric] max_def min_def)
  next
    case 2
    then show ?thesis
      using b py_round_div_multiple[OF b, of k]
      by (simp add: snap_minute_def Let_def k_def[symmetric] max_def min_def)
  next
    case 3
    have "k * snap_step dv \<le> py_round_div 1440 (snap_step dv) * snap_step dv"
      using mono b by (simp add: mult_right_mono)
    then have "1440 < py_round_div 1440 (snap_step dv) * snap_step dv"
      using 3 by linarith
    then show ?thesis
      using b 3 by (simp add: snap_minute_def Let_def k_def[symmetric] max_def min_def)
  qed
qed

text \<open>
  C7, as the code has it. For a positive step, \<open>snap_minute\<close> returns a nearest multiple of
  the effective step, clamped to \<open>[0, 1440]\<close>; a minute half way between two multiples goes to
  the even multiple (Python's \<open>round\<close>), not to the one away from zero. With snapping
  turned off the effective step is 1 and the result is the minute clamped to \<open>[0, 1440]\<close>.
  Snapping twice equals snapping once for every minute up to 1440, which covers every
  minute of the day and every negative value.
\<close>

theorem snap_minute_nearest_even:
  "0 < time_size_minutes dv \<longrightarrow>
     (\<exists>k. snap_minute dv m = max 0 (min (24 * 60) (k * snap_step dv)) \<and>
          2 * \<bar>k * snap_step dv - m\<bar> \<le> snap_step dv \<and>
          (2 * \<bar>k * snap_step dv - m\<bar> = snap_step dv \<longrightarrow> even k)) \<and>
     (\<not> snap_enabled dv \<longrightarrow> snap_step dv = 1 \<and> snap_minute dv m = max 0 (min (24 * 60) m)) \<and>
     (m \<le> 24 * 60 \<longrightarrow> snap_minute dv (snap_minute dv m) = snap_minute dv m)"
proof (intro impI conjI)
  assume pos: "0 < time_size_minutes dv"
  then have step: "0 < snap_step dv"
    by (simp add: snap_step_def)
  show "\<exists>k. snap_minute dv m = max 0 (min (24 * 60) (k * snap_step dv)) \<and>
          2 * \<bar>k * snap_step dv - m\<bar> \<le> snap_step dv \<and>
          (2 * \<bar>k * snap_step dv - m\<bar> = snap_step dv \<longrightarrow> even k)"
  proof (cases "snap_step dv \<le> 1")
    case True
    then have "snap_step dv = 1"
      using step by simp
    then show ?thesis
      by (intro exI[of _ m]) (simp add: snap_minute_def Let_def)
  next
    case False
    then show ?thesis
      using py_round_div_near[OF step, of m]
      by (intro exI[of _ "py_round_div m (snap_step dv)"]) (simp add: snap_minute_def Let_def)
  qed
next
  assume "\<not> snap_enabled dv"
  then show "snap_step dv = 1"
    by (simp add: snap_step_def)
next
  assume "\<not> snap_enabled dv"
  then show "snap_minute dv m = max 0 (min (24 * 60) m)"
    by (simp add: snap_minute_def snap_step_def)
next
  assume "m \<le> 24 * 60"
  then show "snap_minute dv (snap_minute dv m) = snap_minute dv m"
    by (rule snap_minute_idem)
qed

theorem snap_minute_nearest_even_witness:
  "0 < time_size_minutes (DayView_init 30 True False False default_fill) \<and>
   snap_minute (DayView_init 30 True False False default_fill) 15 = 0 \<and>
   2 * \<bar>0 * snap_step (DayView_init 30 True False False default_fill) - 15\<bar>
     = snap_step (DayView_init 30 True False False default_fill) \<and>
   (\<exists>k. snap_minute (DayView_init 30 True False False default_fill) 15
          = max 0 (min (24 * 60) (k * snap_step (DayView_init 30 True False False default_fill))) \<and>
        2 * \<bar>k * snap_step (DayView_init 30 True False False default_fill) - 15\<bar>
          \<le> snap_step (DayView_init 30 True False False default_fill) \<and>
        (2 * \<bar>k * snap_step (DayView_init 30 True False False default_fill) - 15\<bar>
           = snap_step (DayView_init 30 True False False default_fill) \<longrightarrow> even k)) \<and>
   snap_minute (DayView_init 30 True False False default_fill)
     (snap_minute (DayView_init 30 True False False default_fill) 15)
     = snap_minute (DayView_init 30 True False False default_fill) 15 \<and>
   \<not> snap_enabled (DayView_init 30 False False False default_fill) \<and>
   snap_step (DayView_init 30 False False False default_fill) = 1 \<and>
   snap_minute (DayView_init 30 False False False default_fill) 1500 = 1440"
proof -
  have pos: "0 < time_size_minutes (DayView_init 30 True False False default_fill)"
    by (simp add: DayView_init_def)
  have pos': "0 < time_size_minutes (DayView_init 30 False False False default_fill)"
    by (simp add: DayView_init_def)
  have off: "\<not> snap_enabled (DayView_init 30 False False False default_fill)"
    by (simp add: DayView_init_def)
  have v: "snap_minute (DayView_init 30 True False False default_fill) 15 = 0"
    by (simp add: snap_minute_def snap_step_def DayView_init_def py_round_div_def)
  have tie: "2 * \<bar>0 * snap_step (DayView_init 30 True False False default_fill) - 15\<bar>
     = snap_step (DayView_init 30 True False False default_fill)"
    by (simp add: snap_step_def DayView_init_def)
  have on: "(\<exists>k. snap_minute (DayView_init 30 True False False default_fill) 15
          = max 0 (min (24 * 60) (k * snap_step (DayView_init 30 True False False default_fill))) \<and>
        2 * \<bar>k * snap_step (DayView_init 30 True False False default_fill) - 15\<bar>
          \<le> snap_step (DayView_init 30 True False False default_fill) \<and>
        (2 * \<bar>k * snap_step (DayView_init 30 True False False default_fill) - 15\<bar>
           = snap_step (DayView_init 30 True False False default_fill) \<longrightarrow> even k)) \<and>
     snap_minute (DayView_init 30 True False False default_fill)
       (snap_minute (DayView_init 30 True False False default_fill) 15)
       = snap_minute (DayView_init 30 True False False default_fill) 15"
    using snap_minute_nearest_even[of "DayView_init 30 True False False default_fill" 15] pos by simp
  have off_inst: "snap_step (DayView_init 30 False False False default_fill) = 1 \<and>
     snap_minute (DayView_init 30 False False False default_fill) 1500 = 1440"
    using snap_minute_nearest_even[of "DayView_init 30 False False False default_fill" 1500] pos' off
    by simp
  show ?thesis
    using pos off v tie on off_inst by blast
qed

theorem snap_minute_spec_counterexample:
  "snap_minute (DayView_init 30 True False False default_fill) 15 \<noteq> gridSnap_spec 15 30 \<and>
   snap_minute (DayView_init 22 True False False default_fill)
     (snap_minute (DayView_init 22 True False False default_fill) 1445)
     \<noteq> snap_minute (DayView_init 22 True False False default_fill) 1445"
  by (simp add: snap_minute_def snap_step_def DayView_init_def py_round_div_def gridSnap_spec_def
      round_half_away_def)

section \<open>Placement search\<close>

lemma first_conflict_find:
  "first_conflict h excluded s duration evs = List.find (conflicts h excluded s duration) evs"
  by (induction evs) (simp_all add: conflicts_def)

lemma find_conflict_ordered:
  assumes "List.find (conflicts h excluded s duration) evs = Some c" and "1 \<le> duration"
  shows "start_min (h c) - duration < end_min (h c)"
proof -
  have "conflicts h excluded s duration c"
    using assms(1) by (auto simp: find_Some_iff)
  then show ?thesis
    using assms(2) by (auto simp: conflicts_def max_def min_def split: if_splits)
qed

lemma sort_two_pairs: "sort [a, b] = (if a \<le> b then [a, b] else [b, (a :: int \<times> int)])"
  by auto

lemma nearest_candidates_choice:
  assumes "bwd < fwd"
  shows "nearest_candidates cand duration fwd bwd \<noteq> [] \<longleftrightarrow>
         nearest_choice duration cand fwd bwd \<noteq> None"
    and "nearest_candidates cand duration fwd bwd \<noteq> [] \<Longrightarrow>
         Some (snd (hd (sort (nearest_candidates cand duration fwd bwd))))
           = nearest_choice duration cand fwd bwd"
  using assms
  by (auto simp: nearest_candidates_def nearest_choice_def in_day_range_def sort_two_pairs
      less_eq_prod_def split: if_splits)

lemma clamp_iter_amended:
  "1 \<le> duration \<Longrightarrow>
   clamp_iter n h evs excluded direction duration cand =
   place_amended_iter n h evs excluded direction duration cand"
proof (induction n arbitrary: cand)
  case 0
  show ?case by simp
next
  case (Suc n)
  show ?case
  proof (cases "List.find (conflicts h excluded cand duration) evs")
    case None
    then show ?thesis
      by (simp add: first_conflict_find)
  next
    case (Some c)
    have ord: "start_min (h c) - duration < end_min (h c)"
      using find_conflict_ordered[OF Some Suc.prems] .
    show ?thesis
    proof (cases "direction = 0")
      case False
      then show ?thesis
        using Some Suc by (simp add: first_conflict_find)
    next
      case True
      show ?thesis
      proof (cases "nearest_candidates cand duration (end_min (h c))
                      (start_min (h c) - duration) = []")
        case True
        then have "nearest_choice duration cand (end_min (h c)) (start_min (h c) - duration)
                   = None"
          using nearest_candidates_choice(1)[OF ord, of cand duration] by simp
        then show ?thesis
          using Some True \<open>direction = 0\<close> by (simp add: first_conflict_find Let_def)
      next
        case False
        then have "nearest_choice duration cand (end_min (h c)) (start_min (h c) - duration)
                 = Some (snd (hd (sort (nearest_candidates cand duration (end_min (h c))
                      (start_min (h c) - duration)))))"
          using nearest_candidates_choice(2)[OF ord, of cand duration] by simp
        then show ?thesis
          using Some False \<open>direction = 0\<close> Suc by (simp add: first_conflict_find Let_def)
      qed
    qed
  qed
qed

lemma clamp_iter_sound:
  "clamp_iter n h evs excluded direction duration cand = Some s \<Longrightarrow> 0 \<le> cand \<Longrightarrow>
   (duration \<le> 24 * 60 \<longrightarrow> cand + duration \<le> 24 * 60) \<Longrightarrow>
   0 \<le> s \<and> (duration \<le> 24 * 60 \<longrightarrow> s + duration \<le> 24 * 60) \<and>
   first_conflict h excluded s duration evs = None"
proof (induction n arbitrary: cand)
  case 0
  then show ?case by simp
next
  case (Suc n)
  show ?case
  proof (cases "first_conflict h excluded cand duration evs")
    case None
    then show ?thesis
      using Suc.prems by simp
  next
    case (Some c)
    from Suc.prems(1) Some obtain nxt where
      "clamp_iter n h evs excluded direction duration (max 0 (min nxt (24 * 60 - duration)))
       = Some s"
      by (auto simp: Let_def split: if_splits)
    then show ?thesis
      by (rule Suc.IH) (auto simp: max_def min_def)
  qed
qed

lemma find_conflicts_None:
  "List.find (conflicts h excluded s duration) evs = None \<longleftrightarrow>
   (\<forall>ev\<in>set evs. \<not> conflicts h excluded s duration ev)"
  by (auto simp: find_None_iff)

lemma clamp_start_to_available_sound:
  assumes "clamp_start_to_available dv requested duration exclude exclude_set direction = Some s"
  shows "0 \<le> s"
    and "max 1 duration \<le> 24 * 60 \<Longrightarrow> s + max 1 duration \<le> 24 * 60"
    and "ev \<in> set (event_widgets dv) \<Longrightarrow>
         \<not> conflicts (heap dv) (case exclude of None \<Rightarrow> exclude_set | Some w \<Rightarrow> w # exclude_set)
              s (max 1 duration) ev"
proof -
  let ?d = "max 1 duration"
  let ?x = "case exclude of None \<Rightarrow> exclude_set | Some w \<Rightarrow> w # exclude_set"
  have run: "clamp_iter (length (event_widgets dv) + 1) (heap dv) (event_widgets dv) ?x direction
      ?d (max 0 (min requested (24 * 60 - ?d))) = Some s"
    using assms by (simp add: clamp_start_to_available_def Let_def)
  have snd: "0 \<le> s \<and> (?d \<le> 24 * 60 \<longrightarrow> s + ?d \<le> 24 * 60) \<and>
      first_conflict (heap dv) ?x s ?d (event_widgets dv) = None"
    by (rule clamp_iter_sound[OF run]) (auto simp: max_def min_def)
  show "0 \<le> s"
    using snd by simp
  show "max 1 duration \<le> 24 * 60 \<Longrightarrow> s + max 1 duration \<le> 24 * 60"
    using snd by simp
  show "ev \<in> set (event_widgets dv) \<Longrightarrow> \<not> conflicts (heap dv) ?x s ?d ev"
    using snd by (simp add: first_conflict_find find_conflicts_None)
qed

text \<open>
  C2, as the code has it. The search works with a duration of at least one minute and first
  clamps the requested start into \<open>[0, 1440 - duration]\<close>; it runs at most \<open>N + 1\<close> rounds.
  A round returns the candidate when no block outside the exclusion set conflicts with it.
  Otherwise the first conflicting block moves the candidate: forward to the block's end,
  backward to the block's start minus the duration, and in the mode \<open>nearest\<close> to whichever
  of the two lies inside \<open>[0, 1440 - duration]\<close> and is closer to the current candidate, the
  backward one at equal distance, with no result when both lie outside; a candidate that
  still overlaps is not discarded but examined by the next round. Every new candidate is
  clamped into the range again, and when the rounds are used up there is no result. A start
  that is returned is not negative, ends within the day when the duration fits a day, and
  conflicts with no block outside the exclusion set.
\<close>

theorem clamp_start_to_available_amended:
  "clamp_start_to_available dv requested duration exclude exclude_set direction
     = place_amended dv requested duration exclude exclude_set direction \<and>
   (\<forall>s. clamp_start_to_available dv requested duration exclude exclude_set direction = Some s \<longrightarrow>
      0 \<le> s \<and> (max 1 duration \<le> 24 * 60 \<longrightarrow> s + max 1 duration \<le> 24 * 60) \<and>
      (\<forall>ev\<in>set (event_widgets dv).
         \<not> conflicts (heap dv) (case exclude of None \<Rightarrow> exclude_set | Some w \<Rightarrow> w # exclude_set)
              s (max 1 duration) ev))"
proof (intro conjI allI impI ballI)
  show "clamp_start_to_available dv requested duration exclude exclude_set direction
     = place_amended dv requested duration exclude exclude_set direction"
    unfolding clamp_start_to_available_def place_amended_def Let_def
    by (rule clamp_iter_amended) simp
qed (auto dest: clamp_start_to_available_sound)

theorem clamp_start_to_available_amended_witness:
  "clamp_start_to_available (with_blocks (DayView_init 30 True False False default_fill) [(480, 510)])
     490 30 None [] 1 = Some 510 \<and>
   place_amended (with_blocks (DayView_init 30 True False False default_fill) [(480, 510)])
     490 30 None [] 1 = Some 510 \<and>
   max 1 30 \<le> (24 * 60 :: int) \<and> (510 :: int) + max 1 30 \<le> 24 * 60 \<and>
   0 \<in> set (event_widgets (with_blocks (DayView_init 30 True False False default_fill) [(480, 510)])) \<and>
   \<not> conflicts (heap (with_blocks (DayView_init 30 True False False default_fill) [(480, 510)])) []
       510 (max 1 30) 0"
proof -
  let ?dv = "with_blocks (DayView_init 30 True False False default_fill) [(480, 510)]"
  have run: "clamp_start_to_available ?dv 490 30 None [] 1 = Some 510"
    by (simp add: clamp_start_to_available_def with_blocks_def DayView_init_def plain_block_def
        EventWidget_init_def)
  have mem: "0 \<in> set (event_widgets ?dv)"
    by (simp add: with_blocks_def)
  note inst = clamp_start_to_available_amended[of ?dv 490 30 None "[]" 1]
  have eq: "place_amended ?dv 490 30 None [] 1 = Some 510"
    using inst run by simp
  have "(510 :: int) + max 1 30 \<le> 24 * 60 \<and> \<not> conflicts (heap ?dv) [] 510 (max 1 30) 0"
    using inst run mem by auto
  then show ?thesis
    using run eq mem by simp
qed

theorem clamp_start_to_available_spec_counterexample:
  "clamp_start_to_available (with_blocks (DayView_init 30 True False False default_fill) [(480, 540)])
     495 30 None [] 0 = Some 450 \<and>
   place_spec (with_blocks (DayView_init 30 True False False default_fill) [(480, 540)])
     495 30 None [] 0 = Some 540 \<and>
   clamp_start_to_available
     (with_blocks (DayView_init 30 True False False default_fill) [(575, 580), (620, 640)])
     555 60 None [] 0 = None \<and>
   place_spec (with_blocks (DayView_init 30 True False False default_fill) [(575, 580), (620, 640)])
     555 60 None [] 0 = Some 515 \<and>
   clamp_start_to_available
     (with_blocks (DayView_init 30 True False False default_fill) [(665, 670), (670, 680)])
     665 15 None [] 0 = Some 680 \<and>
   place_spec (with_blocks (DayView_init 30 True False False default_fill) [(665, 670), (670, 680)])
     665 15 None [] 0 = Some 650"
  by (simp add: clamp_start_to_available_def place_spec_def with_blocks_def DayView_init_def
      plain_block_def EventWidget_init_def nearest_candidates_def less_eq_prod_def
      conflicts_def spec_valid_def in_day_range_def)

section \<open>Group move\<close>

lemma overlaps_loop_iff:
  "overlaps_loop h s e exclude xs evs \<longleftrightarrow>
   (\<exists>ev\<in>set evs. Some ev \<noteq> exclude \<and> ev \<notin> set xs \<and>
      max s (start_min (h ev)) < min e (end_min (h ev)))"
  by (induction evs) auto

lemma group_new_positions_eq:
  "group_new_positions d refs =
   (if \<forall>(w, s, e)\<in>set refs. 0 \<le> s + d \<and> e + d \<le> 24 * 60
    then Some (map (\<lambda>(w, s, e). (w, s + d, e + d)) refs) else None)"
  by (induction refs) (auto split: prod.splits)

lemma apply_positions_fields:
  "event_widgets (apply_positions ps dv) = event_widgets dv"
  "group_move_refs (apply_positions ps dv) = group_move_refs dv"
  "group_move_selected (apply_positions ps dv) = group_move_selected dv"
  "group_move_active (apply_positions ps dv) = group_move_active dv"
  unfolding apply_positions_def
  by (induction ps arbitrary: dv; simp add: set_interval_def split: prod.splits)+

lemma apply_positions_other:
  "w \<notin> fst ` set ps \<Longrightarrow> heap (apply_positions ps dv) w = heap dv w"
  unfolding apply_positions_def
  by (induction ps arbitrary: dv) (auto simp: set_interval_def split: prod.splits)

lemma apply_positions_member:
  "distinct (map fst ps) \<Longrightarrow> (w, s, e) \<in> set ps \<Longrightarrow>
   heap (apply_positions ps dv) w = (heap dv w)\<lparr>start_min := s, end_min := e\<rparr>"
  unfolding apply_positions_def
proof (induction ps arbitrary: dv)
  case Nil
  then show ?case by simp
next
  case (Cons p ps)
  obtain w' s' e' where p: "p = (w', s', e')" by (cases p)
  show ?case
  proof (cases "(w, s, e) = p")
    case True
    have "fst p \<notin> set (map fst ps)" using Cons.prems(1) by simp
    then have "w \<notin> fst ` set ps" using True by force
    then have "heap (apply_positions ps (set_interval dv w s e)) w = heap (set_interval dv w s e) w"
      by (rule apply_positions_other)
    moreover have "p = (w, s, e)" using True by simp
    ultimately show ?thesis by (simp add: apply_positions_def) (simp add: set_interval_def)
  next
    case False
    then have mem: "(w, s, e) \<in> set ps" using Cons.prems(2) by simp
    then have "w \<noteq> w'" using Cons.prems(1) p by force
    then show ?thesis using Cons.IH[of "set_interval dv w' s' e'"] Cons.prems(1) mem p
      by (simp add: set_interval_def)
  qed
qed

lemma update_group_move_cases:
  "update_group_move dv d =
   (if group_move_active dv \<and> d \<noteq> group_move_last_delta dv \<and> group_step_valid dv d
    then (apply_positions (shifted_refs dv d) dv)\<lparr>group_move_last_delta := d\<rparr> else dv)"
proof -
  let ?in_day = "\<forall>(w, s, e)\<in>set (group_move_refs dv). 0 \<le> s + d \<and> e + d \<le> 24 * 60"
  let ?hit = "list_ex (\<lambda>(w, s, e). overlaps_range dv s e None (group_move_selected dv))
              (shifted_refs dv d)"
  have hit: "?hit \<longleftrightarrow>
      (\<exists>r\<in>set (group_move_refs dv). \<exists>ev\<in>set (event_widgets dv).
         ev \<notin> set (group_move_selected dv) \<and>
         max (fst (snd r) + d) (start_min (heap dv ev))
           < min (snd (snd r) + d) (end_min (heap dv ev)))"
    unfolding list_ex_iff shifted_refs_def overlaps_range_def overlaps_loop_iff
    by (simp add: split_beta)
  have valid: "group_step_valid dv d \<longleftrightarrow> ?in_day \<and> \<not> ?hit"
    unfolding hit group_step_valid_def by (simp add: split_beta) blast
  show ?thesis
  proof (cases ?in_day)
    case True
    then have "group_new_positions d (group_move_refs dv) = Some (shifted_refs dv d)"
      by (simp add: group_new_positions_eq shifted_refs_def)
    moreover have "group_step_valid dv d \<longleftrightarrow> \<not> ?hit"
      using True valid by blast
    ultimately show ?thesis
      by (simp add: update_group_move_def)
  next
    case False
    then have "group_new_positions d (group_move_refs dv) = None"
      by (simp add: group_new_positions_eq)
    moreover have "\<not> group_step_valid dv d"
      using False valid by blast
    ultimately show ?thesis
      by (simp add: update_group_move_def)
  qed
qed

lemma shifted_refs_fst: "map fst (shifted_refs dv d) = map fst (group_move_refs dv)"
  by (simp add: shifted_refs_def split_beta)

lemma shifted_refs_mem:
  "(w, s, e) \<in> set (group_move_refs dv) \<Longrightarrow> (w, s + d, e + d) \<in> set (shifted_refs dv d)"
  by (force simp: shifted_refs_def)

lemma update_group_move_frame:
  "event_widgets (update_group_move dv d) = event_widgets dv"
  "group_move_refs (update_group_move dv d) = group_move_refs dv"
  "group_move_selected (update_group_move dv d) = group_move_selected dv"
  "group_move_active (update_group_move dv d) = group_move_active dv"
  by (simp_all add: update_group_move_cases apply_positions_fields)

lemma update_group_move_other:
  "w \<notin> fst ` set (group_move_refs dv) \<Longrightarrow> heap (update_group_move dv d) w = heap dv w"
proof -
  assume "w \<notin> fst ` set (group_move_refs dv)"
  then have "w \<notin> fst ` set (shifted_refs dv d)"
    using shifted_refs_fst[of dv d] by (metis set_map)
  then show ?thesis
    by (simp add: update_group_move_cases apply_positions_other)
qed

lemma update_group_move_member:
  assumes "group_move_active dv" "d \<noteq> group_move_last_delta dv" "group_step_valid dv d"
    and "distinct (map fst (group_move_refs dv))" and "(w, s, e) \<in> set (group_move_refs dv)"
  shows "heap (update_group_move dv d) w = (heap dv w)\<lparr>start_min := s + d, end_min := e + d\<rparr>"
proof -
  have "distinct (map fst (shifted_refs dv d))"
    using assms(4) by (simp add: shifted_refs_fst)
  then have "heap (apply_positions (shifted_refs dv d) dv) w
      = (heap dv w)\<lparr>start_min := s + d, end_min := e + d\<rparr>"
    using shifted_refs_mem[OF assms(5)] by (rule apply_positions_member)
  then show ?thesis
    using assms(1-3) by (simp add: update_group_move_cases)
qed

lemma fold_update_group_move:
  "event_widgets (fold (\<lambda>d v. update_group_move v d) ds dv) = event_widgets dv \<and>
   group_move_refs (fold (\<lambda>d v. update_group_move v d) ds dv) = group_move_refs dv \<and>
   group_move_selected (fold (\<lambda>d v. update_group_move v d) ds dv) = group_move_selected dv \<and>
   group_move_active (fold (\<lambda>d v. update_group_move v d) ds dv) = group_move_active dv \<and>
   (\<forall>w. w \<notin> fst ` set (group_move_refs dv) \<longrightarrow>
        heap (fold (\<lambda>d v. update_group_move v d) ds dv) w = heap dv w)"
proof (induction ds arbitrary: dv)
  case Nil
  show ?case by simp
next
  case (Cons d ds)
  show ?case
    using Cons.IH[of "update_group_move dv d"]
    by (simp add: update_group_move_frame update_group_move_other)
qed

lemma start_group_move_refs:
  assumes "start_group_move mw = (True, mw1)"
  shows "group_move_selected (day_view mw1) = remdups (box_selected_widgets (day_view mw))"
    and "group_move_refs (day_view mw1) =
         map (\<lambda>w. (w, start_min (heap (day_view mw) w), end_min (heap (day_view mw) w)))
           (remdups (box_selected_widgets (day_view mw)))"
    and "heap (day_view mw1) = heap (day_view mw)"
    and "event_widgets (day_view mw1) = event_widgets (day_view mw)"
    and "group_move_active (day_view mw1)"
    and "\<forall>w\<in>set (box_selected_widgets (day_view mw)). \<not> locked (heap (day_view mw) w)"
  using assms
  by (auto simp: start_group_move_def Let_def list_ex_iff split: if_splits)

lemmas concrete_defs = scenario4_def MainWindow_fields_def with_blocks_def DayView_init_def
  plain_block_def EventWidget_init_def start_group_move_def Let_def

text \<open>
  C3. A group-move update either leaves the day view exactly as it was or applies the one
  delta to every referenced member. When some member, shifted by the delta, would leave
  \<open>[0, 1440]\<close> or overlap a block outside the selection, the day view is unchanged, so every
  member stays at its last valid position. When the delta passes the check (and differs
  from the last applied one), every member stands at its reference position plus the
  delta. The instance below is the specification's fourth scenario: with A and B selected and a
  third block at 09:15, the delta +15 leaves A and B where they were, and the delta -15
  moves both.
\<close>

theorem update_group_move_all_or_nothing:
  "(update_group_move dv d = dv \<or>
      update_group_move dv d
        = (apply_positions (shifted_refs dv d) dv)\<lparr>group_move_last_delta := d\<rparr>) \<and>
   (\<not> group_step_valid dv d \<longrightarrow> update_group_move dv d = dv) \<and>
   (group_move_active dv \<and> d \<noteq> group_move_last_delta dv \<and> group_step_valid dv d \<and>
    distinct (map fst (group_move_refs dv)) \<longrightarrow>
      (\<forall>(w, s, e)\<in>set (group_move_refs dv).
         start_min (heap (update_group_move dv d) w) = s + d \<and>
         end_min (heap (update_group_move dv d) w) = e + d))"
proof (intro conjI impI)
  show "update_group_move dv d = dv \<or>
      update_group_move dv d
        = (apply_positions (shifted_refs dv d) dv)\<lparr>group_move_last_delta := d\<rparr>"
    by (simp add: update_group_move_cases)
next
  assume "\<not> group_step_valid dv d"
  then show "update_group_move dv d = dv"
    by (simp add: update_group_move_cases)
next
  assume a: "group_move_active dv \<and> d \<noteq> group_move_last_delta dv \<and> group_step_valid dv d \<and>
    distinct (map fst (group_move_refs dv))"
  show "\<forall>(w, s, e)\<in>set (group_move_refs dv).
         start_min (heap (update_group_move dv d) w) = s + d \<and>
         end_min (heap (update_group_move dv d) w) = e + d"
  proof (clarify, intro conjI)
    fix w s e
    assume m: "(w, s, e) \<in> set (group_move_refs dv)"
    have h: "heap (update_group_move dv d) w = (heap dv w)\<lparr>start_min := s + d, end_min := e + d\<rparr>"
      using a m by (intro update_group_move_member) simp_all
    show "start_min (heap (update_group_move dv d) w) = s + d"
      by (simp add: h)
    show "end_min (heap (update_group_move dv d) w) = e + d"
      by (simp add: h)
  qed
qed

theorem update_group_move_all_or_nothing_witness:
  "fst (start_group_move scenario4) \<and>
   \<not> group_step_valid (day_view (snd (start_group_move scenario4))) 15 \<and>
   update_group_move (day_view (snd (start_group_move scenario4))) 15
     = day_view (snd (start_group_move scenario4)) \<and>
   start_min (heap (update_group_move (day_view (snd (start_group_move scenario4))) 15) 0) = 480 \<and>
   end_min (heap (update_group_move (day_view (snd (start_group_move scenario4))) 15) 0) = 510 \<and>
   start_min (heap (update_group_move (day_view (snd (start_group_move scenario4))) 15) 1) = 540 \<and>
   end_min (heap (update_group_move (day_view (snd (start_group_move scenario4))) 15) 1) = 570 \<and>
   group_move_active (day_view (snd (start_group_move scenario4))) \<and>
   - 15 \<noteq> group_move_last_delta (day_view (snd (start_group_move scenario4))) \<and>
   group_step_valid (day_view (snd (start_group_move scenario4))) (- 15) \<and>
   distinct (map fst (group_move_refs (day_view (snd (start_group_move scenario4))))) \<and>
   (0, 480, 510) \<in> set (group_move_refs (day_view (snd (start_group_move scenario4)))) \<and>
   (1, 540, 570) \<in> set (group_move_refs (day_view (snd (start_group_move scenario4)))) \<and>
   start_min (heap (update_group_move (day_view (snd (start_group_move scenario4))) (- 15)) 0) = 465 \<and>
   end_min (heap (update_group_move (day_view (snd (start_group_move scenario4))) (- 15)) 0) = 495 \<and>
   start_min (heap (update_group_move (day_view (snd (start_group_move scenario4))) (- 15)) 1) = 525 \<and>
   end_min (heap (update_group_move (day_view (snd (start_group_move scenario4))) (- 15)) 1) = 555"
proof -
  let ?dv = "day_view (snd (start_group_move scenario4))"
  have started: "fst (start_group_move scenario4)"
    by (simp add: concrete_defs)
  have refs: "group_move_refs ?dv = [(0, 480, 510), (1, 540, 570)]"
    by (simp add: concrete_defs)
  have pos: "start_min (heap ?dv 0) = 480" "end_min (heap ?dv 0) = 510"
    "start_min (heap ?dv 1) = 540" "end_min (heap ?dv 1) = 570"
    by (simp_all add: concrete_defs)
  have bad: "\<not> group_step_valid ?dv 15"
    by (simp add: concrete_defs group_step_valid_def)
  have good: "group_move_active ?dv \<and> - 15 \<noteq> group_move_last_delta ?dv \<and>
      group_step_valid ?dv (- 15) \<and> distinct (map fst (group_move_refs ?dv))"
    by (simp add: concrete_defs group_step_valid_def)
  have stay: "update_group_move ?dv 15 = ?dv"
    using update_group_move_all_or_nothing[of ?dv 15] bad by blast
  have moved: "\<forall>(w, s, e)\<in>set (group_move_refs ?dv).
         start_min (heap (update_group_move ?dv (- 15)) w) = s + (- 15) \<and>
         end_min (heap (update_group_move ?dv (- 15)) w) = e + (- 15)"
    using update_group_move_all_or_nothing[of ?dv "- 15"] good by blast
  show ?thesis
    using started bad good moved pos unfolding stay refs by simp
qed

text \<open>
  C10. Take a group move that has started, and any number of updates since. A further
  update never changes a block outside the selection, nor the list of blocks. When its
  delta is applied, every selected member stands at its position of the gesture's start
  plus that delta, so its duration and the gap between any two members are the ones of the
  gesture's start.
\<close>

theorem group_move_uniform_shift:
  "start_group_move mw = (True, mw1) \<and>
   dv = fold (\<lambda>x v. update_group_move v x) ds (day_view mw1) \<longrightarrow>
     (\<forall>w. w \<notin> set (box_selected_widgets (day_view mw)) \<longrightarrow>
          heap (update_group_move dv d) w = heap (day_view mw) w) \<and>
     event_widgets (update_group_move dv d) = event_widgets (day_view mw) \<and>
     (d \<noteq> group_move_last_delta dv \<and> group_step_valid dv d \<longrightarrow>
        (\<forall>w\<in>set (box_selected_widgets (day_view mw)).
           start_min (heap (update_group_move dv d) w) = start_min (heap (day_view mw) w) + d \<and>
           end_min (heap (update_group_move dv d) w) = end_min (heap (day_view mw) w) + d \<and>
           end_min (heap (update_group_move dv d) w) - start_min (heap (update_group_move dv d) w)
             = end_min (heap (day_view mw) w) - start_min (heap (day_view mw) w) \<and>
           (\<forall>w'\<in>set (box_selected_widgets (day_view mw)).
              start_min (heap (update_group_move dv d) w') - end_min (heap (update_group_move dv d) w)
                = start_min (heap (day_view mw) w') - end_min (heap (day_view mw) w))))"
proof (intro impI)
  assume a: "start_group_move mw = (True, mw1) \<and>
   dv = fold (\<lambda>x v. update_group_move v x) ds (day_view mw1)"
  let ?sel = "remdups (box_selected_widgets (day_view mw))"
  let ?h0 = "heap (day_view mw)"
  note st = start_group_move_refs[of mw mw1]
  have started: "start_group_move mw = (True, mw1)"
    using a by simp
  have dv: "dv = fold (\<lambda>x v. update_group_move v x) ds (day_view mw1)"
    using a by simp
  note inv = fold_update_group_move[of ds "day_view mw1", folded dv]
  have refs: "group_move_refs dv = map (\<lambda>w. (w, start_min (?h0 w), end_min (?h0 w))) ?sel"
    using inv st(2)[OF started] by simp
  have fst_refs: "map fst (group_move_refs dv) = ?sel"
    unfolding refs by (simp add: comp_def)
  have dom: "fst ` set (group_move_refs dv) = set (box_selected_widgets (day_view mw))"
    using fst_refs by (metis set_map set_remdups)
  have dom1: "fst ` set (group_move_refs (day_view mw1)) = set (box_selected_widgets (day_view mw))"
    using dom inv by simp
  have act: "group_move_active dv"
    using inv st(5)[OF started] by simp
  have others: "w \<notin> set (box_selected_widgets (day_view mw)) \<Longrightarrow>
      heap (update_group_move dv d) w = ?h0 w" for w
  proof -
    assume w: "w \<notin> set (box_selected_widgets (day_view mw))"
    have "heap (update_group_move dv d) w = heap dv w"
      using w dom by (intro update_group_move_other) simp
    also have "\<dots> = heap (day_view mw1) w"
      using inv w dom1 by simp
    finally show ?thesis
      using st(3)[OF started] by simp
  qed
  have members: "d \<noteq> group_move_last_delta dv \<Longrightarrow> group_step_valid dv d \<Longrightarrow>
      w \<in> set (box_selected_widgets (day_view mw)) \<Longrightarrow>
      start_min (heap (update_group_move dv d) w) = start_min (?h0 w) + d \<and>
      end_min (heap (update_group_move dv d) w) = end_min (?h0 w) + d" for w
  proof -
    assume d: "d \<noteq> group_move_last_delta dv" and v: "group_step_valid dv d"
      and w: "w \<in> set (box_selected_widgets (day_view mw))"
    have m: "(w, start_min (?h0 w), end_min (?h0 w)) \<in> set (group_move_refs dv)"
      unfolding refs using w by auto
    have di: "distinct (map fst (group_move_refs dv))"
      unfolding fst_refs by simp
    have "heap (update_group_move dv d) w
        = (heap dv w)\<lparr>start_min := start_min (?h0 w) + d, end_min := end_min (?h0 w) + d\<rparr>"
      using act d v di m by (rule update_group_move_member)
    then show ?thesis
      by simp
  qed
  show "(\<forall>w. w \<notin> set (box_selected_widgets (day_view mw)) \<longrightarrow>
          heap (update_group_move dv d) w = heap (day_view mw) w) \<and>
     event_widgets (update_group_move dv d) = event_widgets (day_view mw) \<and>
     (d \<noteq> group_move_last_delta dv \<and> group_step_valid dv d \<longrightarrow>
        (\<forall>w\<in>set (box_selected_widgets (day_view mw)).
           start_min (heap (update_group_move dv d) w) = start_min (heap (day_view mw) w) + d \<and>
           end_min (heap (update_group_move dv d) w) = end_min (heap (day_view mw) w) + d \<and>
           end_min (heap (update_group_move dv d) w) - start_min (heap (update_group_move dv d) w)
             = end_min (heap (day_view mw) w) - start_min (heap (day_view mw) w) \<and>
           (\<forall>w'\<in>set (box_selected_widgets (day_view mw)).
              start_min (heap (update_group_move dv d) w') - end_min (heap (update_group_move dv d) w)
                = start_min (heap (day_view mw) w') - end_min (heap (day_view mw) w))))"
  proof (intro conjI allI impI ballI)
    show "event_widgets (update_group_move dv d) = event_widgets (day_view mw)"
      using inv st(4)[OF started] by (simp add: update_group_move_frame)
  qed (use others members in \<open>simp_all\<close>)
qed

theorem group_move_uniform_shift_witness:
  "start_group_move scenario4 = (True, snd (start_group_move scenario4)) \<and>
   - 15 \<noteq> group_move_last_delta
       (fold (\<lambda>x v. update_group_move v x) [15] (day_view (snd (start_group_move scenario4)))) \<and>
   group_step_valid
       (fold (\<lambda>x v. update_group_move v x) [15] (day_view (snd (start_group_move scenario4))))
       (- 15) \<and>
   0 \<in> set (box_selected_widgets (day_view scenario4)) \<and>
   1 \<in> set (box_selected_widgets (day_view scenario4)) \<and>
   2 \<notin> set (box_selected_widgets (day_view scenario4)) \<and>
   start_min (heap (day_view scenario4) 0) = 480 \<and> end_min (heap (day_view scenario4) 0) = 510 \<and>
   start_min (heap (day_view scenario4) 1) = 540 \<and> end_min (heap (day_view scenario4) 1) = 570 \<and>
   start_min (heap (update_group_move
       (fold (\<lambda>x v. update_group_move v x) [15] (day_view (snd (start_group_move scenario4))))
       (- 15)) 0) = 465 \<and>
   end_min (heap (update_group_move
       (fold (\<lambda>x v. update_group_move v x) [15] (day_view (snd (start_group_move scenario4))))
       (- 15)) 0) = 495 \<and>
   start_min (heap (update_group_move
       (fold (\<lambda>x v. update_group_move v x) [15] (day_view (snd (start_group_move scenario4))))
       (- 15)) 1) = 525 \<and>
   end_min (heap (update_group_move
       (fold (\<lambda>x v. update_group_move v x) [15] (day_view (snd (start_group_move scenario4))))
       (- 15)) 1) = 555 \<and>
   heap (update_group_move
       (fold (\<lambda>x v. update_group_move v x) [15] (day_view (snd (start_group_move scenario4))))
       (- 15)) 2 = heap (day_view scenario4) 2"
proof -
  let ?mw1 = "snd (start_group_move scenario4)"
  let ?dv = "fold (\<lambda>x v. update_group_move v x) [15] (day_view ?mw1)"
  have started: "start_group_move scenario4 = (True, ?mw1)"
    by (simp add: concrete_defs)
  have sel: "box_selected_widgets (day_view scenario4) = [0, 1]"
    by (simp add: concrete_defs)
  have pos: "start_min (heap (day_view scenario4) 0) = 480"
    "end_min (heap (day_view scenario4) 0) = 510"
    "start_min (heap (day_view scenario4) 1) = 540"
    "end_min (heap (day_view scenario4) 1) = 570"
    by (simp_all add: concrete_defs)
  have first: "?dv = day_view ?mw1"
    by (simp add: concrete_defs update_group_move_def overlaps_range_def)
  have ok: "- 15 \<noteq> group_move_last_delta ?dv \<and> group_step_valid ?dv (- 15)"
    unfolding first by (simp add: concrete_defs group_step_valid_def)
  note inst = group_move_uniform_shift[of scenario4 ?mw1 ?dv "[15]" "- 15"]
  have all: "(\<forall>w. w \<notin> set (box_selected_widgets (day_view scenario4)) \<longrightarrow>
          heap (update_group_move ?dv (- 15)) w = heap (day_view scenario4) w) \<and>
     (\<forall>w\<in>set (box_selected_widgets (day_view scenario4)).
           start_min (heap (update_group_move ?dv (- 15)) w)
             = start_min (heap (day_view scenario4) w) + (- 15) \<and>
           end_min (heap (update_group_move ?dv (- 15)) w)
             = end_min (heap (day_view scenario4) w) + (- 15))"
    using inst started ok by blast
  show ?thesis
    using started ok all pos sel by simp
qed

section \<open>The history log\<close>

lemma py_index_valid: "0 \<le> i \<Longrightarrow> i < int (length xs) \<Longrightarrow> py_index xs i = Inr (xs ! nat i)"
  by (simp add: py_index_def)

lemma record_history_skip:
  assumes "\<not> history_freeze mw" "0 \<le> history_index mw"
    "history_index mw < int (length (history mw))"
    "snap_events (history mw ! nat (history_index mw)) = day_events mw (current_date mw)"
  shows "record_history mw = Inr (mw\<lparr>pending_history_action := None\<rparr>)"
proof -
  have "history mw \<noteq> []" using assms(2,3) by auto
  then show ?thesis
    using assms
    by (simp add: record_history_def Let_def same_as_cursor_def py_index_valid
        history_snapshot_def day_events_def)
qed

lemma record_history_append:
  assumes "\<not> history_freeze mw" "- 1 \<le> history_index mw"
    "history_index mw < int (length (history mw))"
    "\<not> (0 \<le> history_index mw \<and>
        snap_events (history mw ! nat (history_index mw)) = day_events mw (current_date mw))"
  shows "record_history mw =
     Inr (append_history (mw\<lparr>pending_history_action := None\<rparr>)
            (history_snapshot mw (current_date mw)
               (case pending_history_action mw of None \<Rightarrow> ''Change''
                | Some a \<Rightarrow> if a = [] then ''Change'' else a)))"
proof (cases "0 \<le> history_index mw")
  case True
  then have ne: "history mw \<noteq> []" using assms(3) by auto
  have "snap_events (history mw ! nat (history_index mw)) \<noteq> day_events mw (current_date mw)"
    using True assms(4) by simp
  then show ?thesis
    using assms(1,3) True ne
    by (simp add: record_history_def Let_def same_as_cursor_def py_index_valid
        history_snapshot_def day_events_def)
next
  case False
  then show ?thesis
    using assms(1)
    by (simp add: record_history_def Let_def same_as_cursor_def history_snapshot_def day_events_def)
qed

lemma append_history_log:
  assumes "- 1 \<le> history_index mw" "history_index mw < int (length (history mw))"
  shows "history (append_history mw snap) =
           drop (nat (history_index mw + 2) - history_max)
             (take (nat (history_index mw + 1)) (history mw) @ [snap])"
    and "history_index (append_history mw snap) =
           history_index mw + 1 - int (nat (history_index mw + 2) - history_max)"
proof -
  have sl: "(if history_index mw < int (length (history mw)) - 1
             then py_slice_to (history mw) (history_index mw + 1) else history mw)
            = take (nat (history_index mw + 1)) (history mw)"
    using assms by (auto simp: py_slice_to_def)
  have len: "length (take (nat (history_index mw + 1)) (history mw) @ [snap])
      = nat (history_index mw + 2)"
    using assms by (simp add: min_def) linarith
  show "history (append_history mw snap) =
           drop (nat (history_index mw + 2) - history_max)
             (take (nat (history_index mw + 1)) (history mw) @ [snap])"
    unfolding append_history_def Let_def sl len by simp
  show "history_index (append_history mw snap) =
           history_index mw + 1 - int (nat (history_index mw + 2) - history_max)"
    unfolding append_history_def Let_def sl len using assms
    by (auto simp: history_max_def)
qed

text \<open>
  C4. Take a log whose cursor is \<open>-1\<close> (nothing recorded) or points at an entry, outside a
  snapshot restore. If the cursor entry holds the same intervals as the day's saved list,
  recording leaves the entries and the cursor as they are (only the pending action label is
  cleared). Otherwise the entries after the cursor are dropped, the new snapshot is
  appended and the cursor moves onto it; then, if more than 11 entries are held, the oldest
  are dropped from the front and the cursor is lowered by their number. Snapshots are
  compared by their intervals; label and time stamp differ by construction.
\<close>

theorem record_history_behaviour:
  "\<not> history_freeze mw \<and> - 1 \<le> history_index mw \<and>
   history_index mw < int (length (history mw)) \<longrightarrow>
     (0 \<le> history_index mw \<and>
      snap_events (history mw ! nat (history_index mw)) = day_events mw (current_date mw) \<longrightarrow>
        record_history mw = Inr (mw\<lparr>pending_history_action := None\<rparr>)) \<and>
     (\<not> (0 \<le> history_index mw \<and>
         snap_events (history mw ! nat (history_index mw)) = day_events mw (current_date mw)) \<longrightarrow>
        (\<exists>mw'. record_history mw = Inr mw' \<and>
           history mw' =
             drop (nat (history_index mw + 2) - history_max)
               (take (nat (history_index mw + 1)) (history mw) @
                [history_snapshot mw (current_date mw)
                   (case pending_history_action mw of None \<Rightarrow> ''Change''
                    | Some a \<Rightarrow> if a = [] then ''Change'' else a)]) \<and>
           history_index mw' =
             history_index mw + 1 - int (nat (history_index mw + 2) - history_max) \<and>
           history_index mw' = int (length (history mw')) - 1 \<and>
           snap_events (last (history mw')) = day_events mw (current_date mw) \<and>
           length (history mw') \<le> history_max \<and> history_max = 11 \<and>
           events_by_date mw' = events_by_date mw \<and> day_view mw' = day_view mw))"
proof (intro impI conjI)
  assume a: "\<not> history_freeze mw \<and> - 1 \<le> history_index mw \<and>
   history_index mw < int (length (history mw))"
  assume "0 \<le> history_index mw \<and>
      snap_events (history mw ! nat (history_index mw)) = day_events mw (current_date mw)"
  then show "record_history mw = Inr (mw\<lparr>pending_history_action := None\<rparr>)"
    using a by (intro record_history_skip) simp_all
next
  assume a: "\<not> history_freeze mw \<and> - 1 \<le> history_index mw \<and>
   history_index mw < int (length (history mw))"
  assume d: "\<not> (0 \<le> history_index mw \<and>
         snap_events (history mw ! nat (history_index mw)) = day_events mw (current_date mw))"
  let ?snap = "history_snapshot mw (current_date mw)
                   (case pending_history_action mw of None \<Rightarrow> ''Change''
                    | Some a \<Rightarrow> if a = [] then ''Change'' else a)"
  let ?m = "mw\<lparr>pending_history_action := None\<rparr>"
  let ?mw' = "append_history ?m ?snap"
  let ?full = "take (nat (history_index mw + 1)) (history mw) @ [?snap]"
  have rec: "record_history mw = Inr ?mw'"
    using a d by (intro record_history_append) simp_all
  have h: "history ?mw' = drop (nat (history_index mw + 2) - history_max) ?full"
    using append_history_log(1)[of ?m ?snap] a by simp
  have i: "history_index ?mw' =
      history_index mw + 1 - int (nat (history_index mw + 2) - history_max)"
    using append_history_log(2)[of ?m ?snap] a by simp
  have len_full: "length ?full = nat (history_index mw + 2)"
    using a by (simp add: min_def) linarith
  have len: "length (history ?mw') = nat (history_index mw + 2) - (nat (history_index mw + 2) - history_max)"
    unfolding h by (simp only: length_drop len_full)
  have ne: "history ?mw' \<noteq> []"
    using len a by (auto simp: history_max_def)
  have lst: "last (history ?mw') = ?snap"
    unfolding h using len_full a by (simp add: history_max_def)
  have frame: "events_by_date ?mw' = events_by_date mw \<and> day_view ?mw' = day_view mw"
    by (simp add: append_history_def Let_def)
  show "\<exists>mw'. record_history mw = Inr mw' \<and>
           history mw' = drop (nat (history_index mw + 2) - history_max) ?full \<and>
           history_index mw' =
             history_index mw + 1 - int (nat (history_index mw + 2) - history_max) \<and>
           history_index mw' = int (length (history mw')) - 1 \<and>
           snap_events (last (history mw')) = day_events mw (current_date mw) \<and>
           length (history mw') \<le> history_max \<and> history_max = 11 \<and>
           events_by_date mw' = events_by_date mw \<and> day_view mw' = day_view mw"
  proof (intro exI[of _ ?mw'] conjI)
    show "history_index ?mw' = int (length (history ?mw')) - 1"
      unfolding i len using a by (auto simp: history_max_def)
    show "snap_events (last (history ?mw')) = day_events mw (current_date mw)"
      unfolding lst by (simp add: history_snapshot_def)
    show "length (history ?mw') \<le> history_max"
      unfolding len by (auto simp: history_max_def)
    show "history_max = 11"
      by (simp add: history_max_def)
  qed (use rec h i frame in \<open>simp_all\<close>)
qed

lemmas sample_defs = sample_window_def sample_history_def MainWindow_fields_def DayView_init_def
  plain_item_def day_events_def history_snapshot_def history_max_def

theorem record_history_behaviour_witness:
  "\<not> history_freeze (sample_window 3 [(3, 4)]) \<and>
   0 \<le> history_index (sample_window 3 [(3, 4)]) \<and>
   history_index (sample_window 3 [(3, 4)]) < int (length (history (sample_window 3 [(3, 4)]))) \<and>
   snap_events (history (sample_window 3 [(3, 4)]) ! nat (history_index (sample_window 3 [(3, 4)])))
     = day_events (sample_window 3 [(3, 4)]) (current_date (sample_window 3 [(3, 4)])) \<and>
   record_history (sample_window 3 [(3, 4)])
     = Inr ((sample_window 3 [(3, 4)])\<lparr>pending_history_action := None\<rparr>) \<and>
   snap_events (history (sample_window 3 [(100, 130)]) ! nat (history_index (sample_window 3 [(100, 130)])))
     \<noteq> day_events (sample_window 3 [(100, 130)]) (current_date (sample_window 3 [(100, 130)])) \<and>
   history_index (projr (record_history (sample_window 3 [(100, 130)]))) = 4 \<and>
   map (map it_start_min \<circ> snap_events) (history (projr (record_history (sample_window 3 [(100, 130)]))))
     = [[0], [1], [2], [3], [100]] \<and>
   history_index (projr (record_history (sample_window 10 [(100, 130)]))) = 10 \<and>
   map (map it_start_min \<circ> snap_events) (history (projr (record_history (sample_window 10 [(100, 130)]))))
     = [[1], [2], [3], [4], [5], [6], [7], [8], [9], [10], [100]]"
proof -
  let ?a = "sample_window 3 [(3, 4)]"
  let ?b = "sample_window 3 [(100, 130)]"
  let ?c = "sample_window 10 [(100, 130)]"
  have ha: "\<not> history_freeze ?a \<and> - 1 \<le> history_index ?a \<and>
      history_index ?a < int (length (history ?a))"
    by (simp add: sample_defs)
  have ha': "0 \<le> history_index ?a \<and>
      snap_events (history ?a ! nat (history_index ?a)) = day_events ?a (current_date ?a)"
    by (simp add: sample_defs)
  have skip: "record_history ?a = Inr (?a\<lparr>pending_history_action := None\<rparr>)"
    using record_history_behaviour[of ?a] ha ha' by blast
  have hb: "\<not> history_freeze ?b \<and> - 1 \<le> history_index ?b \<and>
      history_index ?b < int (length (history ?b))"
    by (simp add: sample_defs)
  have hb': "snap_events (history ?b ! nat (history_index ?b)) \<noteq> day_events ?b (current_date ?b)"
    by (simp add: sample_defs)
  obtain b' where b': "record_history ?b = Inr b'"
    "history b' = drop (nat (history_index ?b + 2) - history_max)
               (take (nat (history_index ?b + 1)) (history ?b) @
                [history_snapshot ?b (current_date ?b)
                   (case pending_history_action ?b of None \<Rightarrow> ''Change''
                    | Some a \<Rightarrow> if a = [] then ''Change'' else a)])"
    "history_index b' = history_index ?b + 1 - int (nat (history_index ?b + 2) - history_max)"
    using record_history_behaviour[of ?b] hb hb' by blast
  have hc: "\<not> history_freeze ?c \<and> - 1 \<le> history_index ?c \<and>
      history_index ?c < int (length (history ?c))"
    by (simp add: sample_defs)
  have hc': "snap_events (history ?c ! nat (history_index ?c)) \<noteq> day_events ?c (current_date ?c)"
    by (simp add: sample_defs)
  obtain c' where c': "record_history ?c = Inr c'"
    "history c' = drop (nat (history_index ?c + 2) - history_max)
               (take (nat (history_index ?c + 1)) (history ?c) @
                [history_snapshot ?c (current_date ?c)
                   (case pending_history_action ?c of None \<Rightarrow> ''Change''
                    | Some a \<Rightarrow> if a = [] then ''Change'' else a)])"
    "history_index c' = history_index ?c + 1 - int (nat (history_index ?c + 2) - history_max)"
    using record_history_behaviour[of ?c] hc hc' by blast
  have ib: "history_index b' = 4"
    unfolding b'(3) by (simp add: sample_defs)
  have lb: "map (map it_start_min \<circ> snap_events) (history b') = [[0], [1], [2], [3], [100]]"
    unfolding b'(2) by (simp add: sample_defs upt_rec)
  have ic: "history_index c' = 10"
    unfolding c'(3) by (simp add: sample_defs)
  have lc: "map (map it_start_min \<circ> snap_events) (history c')
      = [[1], [2], [3], [4], [5], [6], [7], [8], [9], [10], [100]]"
    unfolding c'(2) by (simp add: sample_defs upt_rec)
  show ?thesis
    using ha ha' skip hb' ib lb ic lc by (simp add: b'(1) c'(1))
qed

lemma flash_status_frame [simp]:
  "events_by_date (flash_status mw m) = events_by_date mw"
  "history (flash_status mw m) = history mw"
  "history_index (flash_status mw m) = history_index mw"
  "current_date (flash_status mw m) = current_date mw"
  "history_freeze (flash_status mw m) = history_freeze mw"
  "repeat_rules (flash_status mw m) = repeat_rules mw"
  "pending_history_action (flash_status mw m) = pending_history_action mw"
  "day_view (flash_status mw m) = day_view mw"
  "clock (flash_status mw m) = clock mw"
  by (simp_all add: flash_status_def)

lemma add_block_frame:
  "events_by_date (snd (add_block mw s d t c fr rid lk img tg n False)) = events_by_date mw"
  "history (snd (add_block mw s d t c fr rid lk img tg n False)) = history mw"
  "history_index (snd (add_block mw s d t c fr rid lk img tg n False)) = history_index mw"
  "current_date (snd (add_block mw s d t c fr rid lk img tg n False)) = current_date mw"
  "history_freeze (snd (add_block mw s d t c fr rid lk img tg n False)) = history_freeze mw"
  "repeat_rules (snd (add_block mw s d t c fr rid lk img tg n False)) = repeat_rules mw"
  "pending_history_action (snd (add_block mw s d t c fr rid lk img tg n False))
     = pending_history_action mw"
  "clock (snd (add_block mw s d t c fr rid lk img tg n False)) = clock mw"
  by (simp_all add: add_block_def Let_def split: option.splits)

lemma fold_add_item_frame: "log_frame (fold (add_item qc) items mw) mw"
  by (induction items arbitrary: mw) (simp_all add: log_frame_def add_item_def add_block_frame)

lemma fold_add_rule_frame: "log_frame (fold (add_rule_block qc) rs mw) mw"
  by (induction rs arbitrary: mw) (simp_all add: log_frame_def add_rule_block_def add_block_frame)

lemma load_day_frame: "log_frame (load_day qc mw q False) mw"
proof -
  let ?m1 = "mw\<lparr>day_view := clear_blocks (day_view mw)\<rparr>"
  let ?m2 = "fold (add_item qc) (sort_key it_start_min (day_events ?m1 q)) ?m1"
  have "log_frame (fold (add_rule_block qc) (repeat_rules ?m2) ?m2) ?m2"
    by (rule fold_add_rule_frame)
  moreover have "log_frame ?m2 ?m1"
    by (rule fold_add_item_frame)
  moreover have "log_frame ?m1 mw"
    by (simp add: log_frame_def)
  ultimately show ?thesis
    by (simp add: load_day_def Let_def log_frame_def)
qed

lemma apply_history_snapshot_store:
  assumes "snap_date snap \<noteq> []"
  shows "events_by_date (apply_history_snapshot valid qc mw snap)
           = (events_by_date mw)(snap_date snap \<mapsto> snap_events snap)"
    and "history (apply_history_snapshot valid qc mw snap) = history mw"
    and "history_index (apply_history_snapshot valid qc mw snap) = history_index mw"
    and "current_date (apply_history_snapshot valid qc mw snap)
           = (if valid (snap_date snap) then snap_date snap else current_date mw)"
  using assms
    load_day_frame[of qc "mw\<lparr>events_by_date := (events_by_date mw)(snap_date snap \<mapsto> snap_events snap),
                         current_date := snap_date snap\<rparr>" "snap_date snap"]
    load_day_frame[of qc "mw\<lparr>events_by_date := (events_by_date mw)(snap_date snap \<mapsto> snap_events snap)\<rparr>"
                      "current_date mw"]
  by (simp_all add: apply_history_snapshot_def Let_def log_frame_def)

lemma apply_at_cursor_valid:
  assumes "0 \<le> history_index mw" "history_index mw < int (length (history mw))"
    and "snap_date (history mw ! nat (history_index mw)) \<noteq> []"
  shows "\<exists>mw'. apply_at_cursor valid qc mw = Inr mw' \<and>
           history mw' = history mw \<and> history_index mw' = history_index mw \<and>
           events_by_date mw' =
             (events_by_date mw)(snap_date (history mw ! nat (history_index mw))
                \<mapsto> snap_events (history mw ! nat (history_index mw))) \<and>
           current_date mw' =
             (if valid (snap_date (history mw ! nat (history_index mw)))
              then snap_date (history mw ! nat (history_index mw)) else current_date mw) \<and>
           \<not> history_freeze mw' \<and> pending_history_action mw' = None"
  using assms
    apply_history_snapshot_store[OF assms(3), of valid qc "mw\<lparr>history_freeze := True\<rparr>"]
  by (simp add: apply_at_cursor_def py_index_valid)

lemma save_day_frame [simp]:
  "history (save_day mw q) = history mw"
  "history_index (save_day mw q) = history_index mw"
  "history_freeze (save_day mw q) = history_freeze mw"
  "current_date (save_day mw q) = current_date mw"
  "pending_history_action (save_day mw q) = pending_history_action mw"
  "day_view (save_day mw q) = day_view mw"
  by (simp_all add: save_day_def Let_def)

lemma on_day_changed_recorded:
  assumes nf: "\<not> history_freeze mw" and lo: "0 \<le> history_index mw"
    and hi: "history_index mw < int (length (history mw))"
    and diff: "snap_events (history mw ! nat (history_index mw))
                 \<noteq> day_events (save_day mw (current_date mw)) (current_date mw)"
  shows "\<exists>m1. on_day_changed mw = Inr m1 \<and>
           0 < history_index m1 \<and> history_index m1 = int (length (history m1)) - 1 \<and>
           history m1 ! nat (history_index m1 - 1) = history mw ! nat (history_index mw) \<and>
           snap_date (history m1 ! nat (history_index m1)) = current_date mw \<and>
           snap_events (history m1 ! nat (history_index m1))
             = day_events (save_day mw (current_date mw)) (current_date mw) \<and>
           events_by_date m1 = events_by_date (save_day mw (current_date mw)) \<and>
           current_date m1 = current_date mw \<and> \<not> history_freeze m1"
proof -
  let ?s = "save_day mw (current_date mw)"
  let ?snap = "history_snapshot ?s (current_date ?s)
                 (case pending_history_action ?s of None \<Rightarrow> ''Change''
                  | Some a \<Rightarrow> if a = [] then ''Change'' else a)"
  let ?m = "?s\<lparr>pending_history_action := None\<rparr>"
  let ?m1 = "append_history ?m ?snap"
  let ?i = "history_index mw"
  let ?full = "take (nat (?i + 1)) (history mw) @ [?snap]"
  let ?ex = "nat (?i + 2) - history_max"
  have rec: "on_day_changed mw = Inr ?m1"
    unfolding on_day_changed_def
    using nf lo hi diff by (intro record_history_append) simp_all
  have h: "history ?m1 = drop ?ex ?full"
    using append_history_log(1)[of ?m ?snap] lo hi by simp
  have i: "history_index ?m1 = ?i + 1 - int ?ex"
    using append_history_log(2)[of ?m ?snap] lo hi by simp
  have len_full: "length ?full = nat (?i + 2)"
    using lo hi by (simp add: min_def) linarith
  have ex: "int ?ex \<le> ?i"
    using lo by (simp add: history_max_def)
  have pos: "0 < history_index ?m1"
    unfolding i using ex by simp
  have len: "int (length (history ?m1)) = ?i + 2 - int ?ex"
    unfolding h using len_full lo ex by simp
  have prev: "history ?m1 ! nat (history_index ?m1 - 1) = history mw ! nat ?i"
  proof -
    have "history ?m1 ! nat (history_index ?m1 - 1) = ?full ! (?ex + nat (?i - int ?ex))"
      unfolding h i using len_full lo ex by (subst nth_drop) simp_all
    also have "?ex + nat (?i - int ?ex) = nat ?i"
      using ex lo by linarith
    also have "?full ! nat ?i = history mw ! nat ?i"
      using lo hi by (simp add: nth_append)
    finally show ?thesis .
  qed
  have cur: "history ?m1 ! nat (history_index ?m1) = ?snap"
  proof -
    have "history ?m1 ! nat (history_index ?m1) = ?full ! (?ex + nat (?i + 1 - int ?ex))"
      unfolding h i using len_full lo ex by (subst nth_drop) simp_all
    also have "?ex + nat (?i + 1 - int ?ex) = nat (?i + 1)"
      using ex lo by linarith
    also have "?full ! nat (?i + 1) = ?snap"
      using lo hi by (simp add: nth_append min_def)
    finally show ?thesis .
  qed
  have frame: "events_by_date ?m1 = events_by_date ?s \<and> current_date ?m1 = current_date mw \<and>
      \<not> history_freeze ?m1"
    using nf by (simp add: append_history_def Let_def)
  show ?thesis
  proof (intro exI[of _ ?m1] conjI)
    show "history_index ?m1 = int (length (history ?m1)) - 1"
      unfolding len i by simp
    show "snap_date (history ?m1 ! nat (history_index ?m1)) = current_date mw"
      unfolding cur by (simp add: history_snapshot_def)
    show "snap_events (history ?m1 ! nat (history_index ?m1)) = day_events ?s (current_date mw)"
      unfolding cur by (simp add: history_snapshot_def day_events_def)
  qed (use rec pos prev frame in \<open>simp_all\<close>)
qed

lemma perform_undo_step:
  assumes "0 < history_index mw" "history_index mw < int (length (history mw))"
    and "snap_date (history mw ! nat (history_index mw - 1)) \<noteq> []"
  shows "\<exists>mw'. perform_undo valid qc mw = Inr mw' \<and>
           history mw' = history mw \<and> history_index mw' = history_index mw - 1 \<and>
           events_by_date mw' =
             (events_by_date mw)(snap_date (history mw ! nat (history_index mw - 1))
                \<mapsto> snap_events (history mw ! nat (history_index mw - 1))) \<and>
           \<not> history_freeze mw' \<and> pending_history_action mw' = None"
proof -
  have ne: "history mw \<noteq> []"
    using assms(1,2) by auto
  obtain mw' where "apply_at_cursor valid qc (mw\<lparr>history_index := history_index mw - 1\<rparr>) = Inr mw'"
    "history mw' = history mw" "history_index mw' = history_index mw - 1"
    "events_by_date mw' =
       (events_by_date mw)(snap_date (history mw ! nat (history_index mw - 1))
          \<mapsto> snap_events (history mw ! nat (history_index mw - 1)))"
    "\<not> history_freeze mw'" "pending_history_action mw' = None"
    using assms apply_at_cursor_valid[of "mw\<lparr>history_index := history_index mw - 1\<rparr>" valid]
    by auto
  then show ?thesis
    using assms ne by (simp add: perform_undo_def)
qed

lemma perform_redo_step:
  assumes "- 1 \<le> history_index mw" "history_index mw < int (length (history mw)) - 1"
    and "snap_date (history mw ! nat (history_index mw + 1)) \<noteq> []"
  shows "\<exists>mw'. perform_redo valid qc mw = Inr mw' \<and>
           history mw' = history mw \<and> history_index mw' = history_index mw + 1 \<and>
           events_by_date mw' =
             (events_by_date mw)(snap_date (history mw ! nat (history_index mw + 1))
                \<mapsto> snap_events (history mw ! nat (history_index mw + 1))) \<and>
           \<not> history_freeze mw' \<and> pending_history_action mw' = None"
proof -
  have ne: "history mw \<noteq> []"
    using assms(1,2) by auto
  obtain mw' where "apply_at_cursor valid qc (mw\<lparr>history_index := history_index mw + 1\<rparr>) = Inr mw'"
    "history mw' = history mw" "history_index mw' = history_index mw + 1"
    "events_by_date mw' =
       (events_by_date mw)(snap_date (history mw ! nat (history_index mw + 1))
          \<mapsto> snap_events (history mw ! nat (history_index mw + 1)))"
    "\<not> history_freeze mw'" "pending_history_action mw' = None"
    using assms apply_at_cursor_valid[of "mw\<lparr>history_index := history_index mw + 1\<rparr>" valid]
    by auto
  then show ?thesis
    using assms ne by (simp add: perform_redo_def)
qed

subsection \<open>Loading a day into the day view\<close>

text \<open>
  \<open>load_day\<close> empties the day view and adds the day's items in start order. An item of a
  list that fits the day finds its place free, so \<open>add_block\<close> builds its block at the
  item's own interval; the blocks of the daily rules come after them and are marked
  \<open>from_rule\<close>.
\<close>

lemma refresh_fresh: "fresh_view dv \<Longrightarrow> refresh_widget_transparency dv = dv"
proof -
  assume f: "fresh_view dv"
  have "(\<lambda>w. if w \<in> set (event_widgets dv) \<and> w \<notin> set (box_selected_widgets dv)
                             then (heap dv w)\<lparr>group_dragging := False\<rparr> else heap dv w) = heap dv"
    using f by (auto simp: fresh_view_def fun_eq_iff)
  then show ?thesis
    by (simp add: refresh_widget_transparency_def)
qed

lemma first_conflict_None:
  "first_conflict h [] s d evs = None \<longleftrightarrow>
     (\<forall>ev\<in>set evs. \<not> max s (start_min (h ev)) < min (s + d) (end_min (h ev)))"
  by (induction evs) auto

lemma add_block_fresh:
  assumes f: "fresh_view (day_view mw)"
  shows "fresh_view (day_view (snd (add_block mw s d t (Some c) fr rid lk img tg n False))) \<and>
     (view_blocks (day_view (snd (add_block mw s d t (Some c) fr rid lk img tg n False)))
        = view_blocks (day_view mw) \<or>
      (\<exists>s'. view_blocks (day_view (snd (add_block mw s d t (Some c) fr rid lk img tg n False)))
        = view_blocks (day_view mw) @ [EventWidget_init s' (s' + max 1 d) t c fr rid lk img tg n]))"
proof -
  let ?dv = "day_view mw"
  have new: "fresh_view (?dv\<lparr>heap := (heap ?dv)(next_wid ?dv := EventWidget_init s' e' t c fr rid lk img tg n),
        next_wid := Suc (next_wid ?dv), event_widgets := event_widgets ?dv @ [next_wid ?dv]\<rparr>)"
    for s' e'
    using f by (auto simp: fresh_view_def EventWidget_init_def Let_def)
  have bl: "view_blocks (?dv\<lparr>heap := (heap ?dv)(next_wid ?dv := b),
        next_wid := Suc (next_wid ?dv), event_widgets := event_widgets ?dv @ [next_wid ?dv]\<rparr>)
      = view_blocks ?dv @ [b]" for b
    using f by (auto simp: fresh_view_def view_blocks_def)
  show ?thesis
    using f new bl
    by (auto simp: add_block_def Let_def refresh_fresh split: option.splits)
qed


lemma add_block_free:
  assumes f: "fresh_view (day_view mw)"
    and rng: "0 \<le> s" "1 \<le> d" "s + d \<le> 24 * 60"
    and free: "\<forall>b\<in>set (view_blocks (day_view mw)). \<not> max s (start_min b) < min (s + d) (end_min b)"
  shows "view_blocks (day_view (snd (add_block mw s d t (Some c) fr rid lk img tg n False)))
           = view_blocks (day_view mw) @ [EventWidget_init s (s + d) t c fr rid lk img tg n]"
proof -
  let ?dv = "day_view mw"
  have free': "\<forall>ev\<in>set (event_widgets ?dv).
      \<not> max s (start_min (heap ?dv ev)) < min (s + d) (end_min (heap ?dv ev))"
    using free by (simp add: view_blocks_def)
  have cl: "clamp_start_to_available ?dv s d None [] 0 = Some s"
    using rng free' first_conflict_None[of "heap ?dv" s d "event_widgets ?dv"]
    by (simp add: clamp_start_to_available_def Let_def max_def min_def)
  have ov: "\<not> overlaps_range ?dv s (s + d) None []"
    using free' by (simp add: overlaps_range_def overlaps_loop_iff)
  have bl: "view_blocks (?dv\<lparr>heap := (heap ?dv)(next_wid ?dv := b),
        next_wid := Suc (next_wid ?dv), event_widgets := event_widgets ?dv @ [next_wid ?dv]\<rparr>)
      = view_blocks ?dv @ [b]" for b
    using f by (auto simp: fresh_view_def view_blocks_def)
  have new: "fresh_view (?dv\<lparr>heap := (heap ?dv)(next_wid ?dv := EventWidget_init s' e' t c fr rid lk img tg n),
        next_wid := Suc (next_wid ?dv), event_widgets := event_widgets ?dv @ [next_wid ?dv]\<rparr>)"
    for s' e'
    using f by (auto simp: fresh_view_def EventWidget_init_def Let_def)
  have d1: "max 1 d = d"
    using rng by simp
  show ?thesis
    using cl ov bl new by (simp add: add_block_def Let_def d1 refresh_fresh)
qed

lemma shows_item_init:
  assumes "0 \<le> it_start_min item" "it_start_min item < it_end_min item" "it_end_min item \<le> 24 * 60"
  shows "shows_item qc
     (EventWidget_init (it_start_min item) (it_start_min item + (it_end_min item - it_start_min item))
        (it_title item) (hex_to_qcolor qc (it_color item) ''#4879C5'') False None
        (it_locked item \<noteq> 0) (if it_image item = [] then None else Some (it_image item))
        (it_tag item) (it_notify_offset item)) item"
  using assms by (simp add: shows_item_def EventWidget_init_def Let_def)

lemma fold_add_item_blocks:
  assumes "fresh_view (day_view mw)" "items_fit items"
    and "\<forall>b\<in>set (view_blocks (day_view mw)). \<forall>i\<in>set items.
           \<not> max (it_start_min i) (start_min b) < min (it_end_min i) (end_min b)"
  shows "fresh_view (day_view (fold (add_item qc) items mw)) \<and>
     (\<exists>bs. view_blocks (day_view (fold (add_item qc) items mw)) = view_blocks (day_view mw) @ bs \<and>
           list_all2 (shows_item qc) bs items)"
  using assms
proof (induction items arbitrary: mw)
  case Nil
  then show ?case by simp
next
  case (Cons i items)
  let ?m = "add_item qc i mw"
  let ?b = "EventWidget_init (it_start_min i) (it_start_min i + (it_end_min i - it_start_min i))
        (it_title i) (hex_to_qcolor qc (it_color i) ''#4879C5'') False None
        (it_locked i \<noteq> 0) (if it_image i = [] then None else Some (it_image i))
        (it_tag i) (it_notify_offset i)"
  have rng: "0 \<le> it_start_min i" "it_start_min i < it_end_min i" "it_end_min i \<le> 24 * 60"
    using Cons.prems(2) by (simp_all add: items_fit_def)
  have fit: "items_fit items"
    using Cons.prems(2) by (simp add: items_fit_def)
  have sh: "shows_item qc ?b i"
    using rng by (rule shows_item_init)
  have bl: "view_blocks (day_view ?m) = view_blocks (day_view mw) @ [?b]"
    unfolding add_item_def
    using Cons.prems(1,3) rng by (intro add_block_free) auto
  have fr: "fresh_view (day_view ?m)"
    unfolding add_item_def using add_block_fresh[OF Cons.prems(1)] by blast
  have free: "\<forall>b\<in>set (view_blocks (day_view ?m)). \<forall>j\<in>set items.
           \<not> max (it_start_min j) (start_min b) < min (it_end_min j) (end_min b)"
  proof (intro ballI)
    fix b j assume b: "b \<in> set (view_blocks (day_view ?m))" and j: "j \<in> set items"
    show "\<not> max (it_start_min j) (start_min b) < min (it_end_min j) (end_min b)"
    proof (cases "b = ?b")
      case True
      have "\<not> items_overlap i j"
        using Cons.prems(2) j by (auto simp: items_fit_def list_all_iff)
      then show ?thesis
        using sh True by (simp add: shows_item_def items_overlap_def max.commute min.commute)
    next
      case False
      then have "b \<in> set (view_blocks (day_view mw))"
        using b bl by simp
      then show ?thesis
        using Cons.prems(3) j by simp
    qed
  qed
  obtain bs where bs: "fresh_view (day_view (fold (add_item qc) items ?m))"
    "view_blocks (day_view (fold (add_item qc) items ?m)) = view_blocks (day_view ?m) @ bs"
    "list_all2 (shows_item qc) bs items"
    using Cons.IH[OF fr fit free] by blast
  show ?case
    using bs bl sh by (intro conjI exI[of _ "?b # bs"]) simp_all
qed

lemma fold_add_rule_blocks:
  assumes "fresh_view (day_view mw)"
  shows "fresh_view (day_view (fold (add_rule_block qc) rs mw)) \<and>
     (\<exists>bs. view_blocks (day_view (fold (add_rule_block qc) rs mw)) = view_blocks (day_view mw) @ bs \<and>
           list_all from_rule bs)"
  using assms
proof (induction rs arbitrary: mw)
  case Nil
  then show ?case by simp
next
  case (Cons r rs)
  let ?m = "add_rule_block qc r mw"
  have step: "fresh_view (day_view ?m) \<and>
     (\<exists>bs. view_blocks (day_view ?m) = view_blocks (day_view mw) @ bs \<and> list_all from_rule bs)"
  proof (cases "r_type r = ''DAILY''")
    case False
    then show ?thesis
      using Cons.prems by (simp add: add_rule_block_def)
  next
    case True
    note ab = add_block_fresh[OF Cons.prems, of "r_start_min r" "r_end_min r - r_start_min r"
        "r_title r" "hex_to_qcolor qc (r_color r) ''#4879C5''" True "Some (r_id r)"
        "r_locked r \<noteq> 0" "if r_image r = [] then None else Some (r_image r)" "r_tag r"
        "r_notify_offset r"]
    have fr: "from_rule (EventWidget_init s' e' t c True rid lk img tg n)" for s' e' t c rid lk img tg n
      by (simp add: EventWidget_init_def Let_def)
    from ab show ?thesis
      unfolding add_rule_block_def using True
      by (auto simp: fr intro: exI[of _ "[]"])
  qed
  then obtain b1 where b1: "fresh_view (day_view ?m)" "view_blocks (day_view ?m) = view_blocks (day_view mw) @ b1"
    "list_all from_rule b1"
    by blast
  obtain b2 where b2: "fresh_view (day_view (fold (add_rule_block qc) rs ?m))"
    "view_blocks (day_view (fold (add_rule_block qc) rs ?m)) = view_blocks (day_view ?m) @ b2"
    "list_all from_rule b2"
    using Cons.IH[OF b1(1)] by blast
  show ?case
    using b1 b2 by (intro conjI exI[of _ "b1 @ b2"]) simp_all
qed


lemma items_overlap_sym: "items_overlap a b = items_overlap b a"
  by (simp add: items_overlap_def max.commute min.commute)

lemma disjoint_items_insort:
  "disjoint_items (insort_key f x xs) = disjoint_items (x # xs)"
proof (induction xs)
  case Nil
  then show ?case by simp
next
  case (Cons y ys)
  show ?case
  proof (cases "f x \<le> f y")
    case True
    then show ?thesis by simp
  next
    case False
    have "disjoint_items (insort_key f x (y # ys))
        = (list_all (\<lambda>j. \<not> items_overlap y j) (insort_key f x ys) \<and>
           disjoint_items (insort_key f x ys))"
      using False by simp
    also have "\<dots> = (\<not> items_overlap y x \<and> list_all (\<lambda>j. \<not> items_overlap y j) ys \<and>
           disjoint_items (x # ys))"
      using Cons.IH by (auto simp: list_all_iff set_insort_key)
    also have "\<dots> = disjoint_items (x # y # ys)"
      using items_overlap_sym[of x y] by auto
    finally show ?thesis .
  qed
qed

lemma disjoint_items_sort: "disjoint_items (sort_key f xs) = disjoint_items xs"
proof (induction xs)
  case Nil
  then show ?case by simp
next
  case (Cons x xs)
  have "disjoint_items (sort_key f (x # xs)) = disjoint_items (x # sort_key f xs)"
    by (simp add: disjoint_items_insort)
  also have "\<dots> = disjoint_items (x # xs)"
    using Cons.IH by (simp add: list_all_iff)
  finally show ?case .
qed

lemma items_fit_sort: "items_fit (sort_key f xs) = items_fit xs"
  by (simp add: items_fit_def disjoint_items_sort list_all_iff)

lemma stored_blocks_filter: "stored_blocks dv = filter (\<lambda>b. \<not> from_rule b) (view_blocks dv)"
  by (simp add: stored_blocks_def view_blocks_def filter_map comp_def)

lemma shows_all_stored:
  "list_all2 (shows_item qc) bs items \<Longrightarrow> filter (\<lambda>b. \<not> from_rule b) bs = bs"
  by (induction rule: list_all2_induct) (simp_all add: shows_item_def)

lemma rules_none_stored: "list_all from_rule bs \<Longrightarrow> filter (\<lambda>b. \<not> from_rule b) bs = []"
  by (induction bs) simp_all

lemma clear_blocks_fresh: "fresh_view (clear_blocks dv)" "view_blocks (clear_blocks dv) = []"
  by (simp_all add: clear_blocks_def fresh_view_def view_blocks_def)

lemma load_day_blocks:
  assumes "items_fit (day_events mw q)"
  shows "list_all2 (shows_item qc) (stored_blocks (day_view (load_day qc mw q reset)))
           (sort_key it_start_min (day_events mw q))"
proof -
  let ?m1 = "mw\<lparr>day_view := clear_blocks (day_view mw)\<rparr>"
  let ?items = "sort_key it_start_min (day_events mw q)"
  let ?m2 = "fold (add_item qc) ?items ?m1"
  let ?m3 = "fold (add_rule_block qc) (repeat_rules ?m2) ?m2"
  have ev: "day_events ?m1 q = day_events mw q"
    by (simp add: day_events_def)
  have f1: "fresh_view (day_view ?m1)" and b1: "view_blocks (day_view ?m1) = []"
    by (simp_all add: clear_blocks_fresh)
  have fit: "items_fit ?items"
    using assms by (simp add: items_fit_sort)
  obtain bs where bs: "fresh_view (day_view ?m2)" "view_blocks (day_view ?m2) = bs"
    "list_all2 (shows_item qc) bs ?items"
    using fold_add_item_blocks[OF f1 fit, of qc] b1 by auto
  obtain rs where rs: "view_blocks (day_view ?m3) = bs @ rs" "list_all from_rule rs"
    using fold_add_rule_blocks[OF bs(1), of qc "repeat_rules ?m2"] bs(2) by auto
  have "stored_blocks (day_view ?m3) = bs"
    using rs bs(3) by (simp add: stored_blocks_filter shows_all_stored rules_none_stored)
  moreover have "day_view (load_day qc mw q reset) = day_view ?m3"
    by (simp add: load_day_def Let_def ev reset_history_def)
  ultimately show ?thesis
    using bs(3) by simp
qed

lemma apply_history_snapshot_blocks:
  assumes "snap_date snap \<noteq> []" "valid (snap_date snap) \<or> snap_date snap = current_date mw"
    and "items_fit (snap_events snap)"
  shows "list_all2 (shows_item qc)
           (stored_blocks (day_view (apply_history_snapshot valid qc mw snap)))
           (sort_key it_start_min (snap_events snap))"
proof -
  let ?m1 = "mw\<lparr>events_by_date := (events_by_date mw)(snap_date snap \<mapsto> snap_events snap)\<rparr>"
  have ev: "day_events ?m1 (snap_date snap) = snap_events snap"
    "day_events (?m1\<lparr>current_date := snap_date snap\<rparr>) (snap_date snap) = snap_events snap"
    by (simp_all add: day_events_def)
  show ?thesis
  proof (cases "valid (snap_date snap)")
    case True
    then show ?thesis
      using assms(1,3) load_day_blocks[of "?m1\<lparr>current_date := snap_date snap\<rparr>" "snap_date snap" qc False]
      by (simp add: apply_history_snapshot_def Let_def ev)
  next
    case False
    then have cur: "current_date mw = snap_date snap"
      using assms(2) by simp
    have "apply_history_snapshot valid qc mw snap = load_day qc ?m1 (snap_date snap) False"
      using False assms(1) by (simp add: apply_history_snapshot_def Let_def cur)
    moreover have "list_all2 (shows_item qc)
        (stored_blocks (day_view (load_day qc ?m1 (snap_date snap) False)))
        (sort_key it_start_min (day_events ?m1 (snap_date snap)))"
      using assms(3) by (intro load_day_blocks) (simp add: ev)
    ultimately show ?thesis
      by (simp add: ev)
  qed
qed

lemma apply_at_cursor_blocks:
  assumes "0 \<le> history_index mw" "history_index mw < int (length (history mw))"
    and "snap_date (history mw ! nat (history_index mw)) \<noteq> []"
    and "valid (snap_date (history mw ! nat (history_index mw))) \<or>
         snap_date (history mw ! nat (history_index mw)) = current_date mw"
    and "items_fit (snap_events (history mw ! nat (history_index mw)))"
    and "apply_at_cursor valid qc mw = Inr mw'"
  shows "list_all2 (shows_item qc) (stored_blocks (day_view mw'))
           (sort_key it_start_min (snap_events (history mw ! nat (history_index mw))))"
proof -
  let ?snap = "history mw ! nat (history_index mw)"
  have "mw' = (apply_history_snapshot valid qc (mw\<lparr>history_freeze := True\<rparr>) ?snap)
                 \<lparr>history_freeze := False, pending_history_action := None\<rparr>"
    using assms(1,2,6) by (simp add: apply_at_cursor_def py_index_valid)
  then have "day_view mw' = day_view (apply_history_snapshot valid qc (mw\<lparr>history_freeze := True\<rparr>) ?snap)"
    by simp
  then show ?thesis
    using apply_history_snapshot_blocks[of ?snap valid "mw\<lparr>history_freeze := True\<rparr>" qc] assms(3,4,5)
    by simp
qed

lemma shows_item_intervals:
  "list_all2 (shows_item qc) bs items \<Longrightarrow>
   map (\<lambda>b. (start_min b, end_min b)) bs = map (\<lambda>i. (it_start_min i, it_end_min i)) items"
  by (induction rule: list_all2_induct) (simp_all add: shows_item_def)

lemma perform_undo_blocks:
  assumes "0 < history_index mw" "history_index mw < int (length (history mw))"
    and "snap_date (history mw ! nat (history_index mw - 1)) \<noteq> []"
    and "valid (snap_date (history mw ! nat (history_index mw - 1))) \<or>
         snap_date (history mw ! nat (history_index mw - 1)) = current_date mw"
    and "items_fit (snap_events (history mw ! nat (history_index mw - 1)))"
    and "perform_undo valid qc mw = Inr mw'"
  shows "list_all2 (shows_item qc) (stored_blocks (day_view mw'))
           (sort_key it_start_min (snap_events (history mw ! nat (history_index mw - 1))))"
proof -
  have ne: "history mw \<noteq> []"
    using assms(1,2) by auto
  have run: "apply_at_cursor valid qc (mw\<lparr>history_index := history_index mw - 1\<rparr>) = Inr mw'"
    using assms(1,6) ne by (simp add: perform_undo_def)
  show ?thesis
    using apply_at_cursor_blocks[of "mw\<lparr>history_index := history_index mw - 1\<rparr>" valid qc mw']
      assms(1-5) run by simp
qed

lemma perform_redo_blocks:
  assumes "- 1 \<le> history_index mw" "history_index mw < int (length (history mw)) - 1"
    and "snap_date (history mw ! nat (history_index mw + 1)) \<noteq> []"
    and "valid (snap_date (history mw ! nat (history_index mw + 1))) \<or>
         snap_date (history mw ! nat (history_index mw + 1)) = current_date mw"
    and "items_fit (snap_events (history mw ! nat (history_index mw + 1)))"
    and "perform_redo valid qc mw = Inr mw'"
  shows "list_all2 (shows_item qc) (stored_blocks (day_view mw'))
           (sort_key it_start_min (snap_events (history mw ! nat (history_index mw + 1))))"
proof -
  have ne: "history mw \<noteq> []"
    using assms(1,2) by auto
  have run: "apply_at_cursor valid qc (mw\<lparr>history_index := history_index mw + 1\<rparr>) = Inr mw'"
    using assms(2,6) ne by (simp add: perform_redo_def)
  show ?thesis
    using apply_at_cursor_blocks[of "mw\<lparr>history_index := history_index mw + 1\<rparr>" valid qc mw']
      assms(1-5) run by simp
qed

lemma saved_day_events:
  "day_events (save_day mw (current_date mw)) (current_date mw)
     = map item_of_widget (stored_blocks (day_view mw))"
  by (simp add: save_day_def day_events_def stored_blocks_def Let_def)

lemma on_day_changed_day_view:
  "on_day_changed mw = Inr m1 \<Longrightarrow> day_view m1 = day_view mw"
  by (auto simp: on_day_changed_def record_history_def append_history_def Let_def
      split: if_splits sum.splits bool.splits)

lemma disjoint_items_sorted_wrt:
  "disjoint_items xs = sorted_wrt (\<lambda>a b. \<not> items_overlap a b) xs"
  by (induction xs) (simp_all add: list_all_iff)

lemma saved_items_fit:
  assumes inv: "store_invariant dv"
    and rng: "\<forall>w\<in>set (event_widgets dv). 0 \<le> start_min (heap dv w) \<and> end_min (heap dv w) \<le> 24 * 60"
  shows "items_fit (map item_of_widget (stored_blocks dv))"
proof -
  let ?P = "\<lambda>a b. \<not> overlap (heap dv a) (heap dv b)"
  have "sorted_wrt ?P (event_widgets dv)"
    using inv by (simp add: sorted_wrt_iff_nth_less store_invariant_def)
  then have "sorted_wrt ?P (filter (\<lambda>w. \<not> from_rule (heap dv w)) (event_widgets dv))"
    by (rule sorted_wrt_filter)
  then have "disjoint_items (map item_of_widget (stored_blocks dv))"
    by (simp add: disjoint_items_sorted_wrt stored_blocks_def sorted_wrt_map items_overlap_def
        overlap_def item_of_widget_def)
  moreover have "list_all (\<lambda>i. 0 \<le> it_start_min i \<and> it_start_min i < it_end_min i \<and>
      it_end_min i \<le> 24 * 60) (map item_of_widget (stored_blocks dv))"
    using inv rng
    by (auto simp: list_all_iff stored_blocks_def store_invariant_def item_of_widget_def)
  ultimately show ?thesis
    by (simp add: items_fit_def)
qed

subsection \<open>Undo, redo and restore\<close>

text \<open>
  C5. Undo does nothing when the cursor is at the first entry (or the log is empty);
  otherwise it moves the cursor one entry down and applies that entry, leaving the entries
  as they are: the entry's items become the saved day, and the day view is rebuilt from
  them, so that for an entry whose items fit a day the blocks of the day view that are not
  made from a rule show exactly the entry's items, in start order. Redo does nothing at
  the last entry and otherwise moves one entry up in the same way. Round trip: let the
  cursor entry be a snapshot of the current day and let a mutation change the day's
  blocks; saving and recording it appends an entry and leaves the day view alone, undo
  then makes the saved day and the stored blocks equal to the snapshot taken before the
  mutation, and redo makes them show the mutated blocks again. A snapshot holds the
  blocks that \<open>save_day\<close> writes; the blocks of daily rules are in no snapshot and
  \<open>load_day\<close> makes them anew from the rules after the snapshot's blocks. A snapshot of
  a store that satisfies the schedule invariant within the day fits a day
  (\<open>saved_items_fit\<close>).
\<close>

theorem undo_redo_round_trip:
  "(history_index mw \<le> 0 \<or> history mw = [] \<longrightarrow> perform_undo valid qc mw = Inr mw) \<and>
   (history mw = [] \<or> history_index mw \<ge> int (length (history mw)) - 1 \<longrightarrow>
      perform_redo valid qc mw = Inr mw) \<and>
   (0 < history_index mw \<and> history_index mw < int (length (history mw)) \<and>
    snap_date (history mw ! nat (history_index mw - 1)) \<noteq> [] \<longrightarrow>
      (\<exists>mw'. perform_undo valid qc mw = Inr mw' \<and> history mw' = history mw \<and>
             history_index mw' = history_index mw - 1 \<and>
             day_events mw' (snap_date (history mw ! nat (history_index mw - 1)))
               = snap_events (history mw ! nat (history_index mw - 1)) \<and>
             ((valid (snap_date (history mw ! nat (history_index mw - 1))) \<or>
               snap_date (history mw ! nat (history_index mw - 1)) = current_date mw) \<and>
              items_fit (snap_events (history mw ! nat (history_index mw - 1))) \<longrightarrow>
                list_all2 (shows_item qc) (stored_blocks (day_view mw'))
                  (sort_key it_start_min
                     (snap_events (history mw ! nat (history_index mw - 1))))))) \<and>
   (- 1 \<le> history_index mw \<and> history_index mw < int (length (history mw)) - 1 \<and>
    snap_date (history mw ! nat (history_index mw + 1)) \<noteq> [] \<longrightarrow>
      (\<exists>mw'. perform_redo valid qc mw = Inr mw' \<and> history mw' = history mw \<and>
             history_index mw' = history_index mw + 1 \<and>
             day_events mw' (snap_date (history mw ! nat (history_index mw + 1)))
               = snap_events (history mw ! nat (history_index mw + 1)) \<and>
             ((valid (snap_date (history mw ! nat (history_index mw + 1))) \<or>
               snap_date (history mw ! nat (history_index mw + 1)) = current_date mw) \<and>
              items_fit (snap_events (history mw ! nat (history_index mw + 1))) \<longrightarrow>
                list_all2 (shows_item qc) (stored_blocks (day_view mw'))
                  (sort_key it_start_min
                     (snap_events (history mw ! nat (history_index mw + 1))))))) \<and>
   (\<not> history_freeze mw \<and> 0 \<le> history_index mw \<and>
    history_index mw < int (length (history mw)) \<and> current_date mw \<noteq> [] \<and>
    snap_date (history mw ! nat (history_index mw)) = current_date mw \<and>
    snap_events (history mw ! nat (history_index mw))
      \<noteq> map item_of_widget (stored_blocks (day_view mw)) \<longrightarrow>
      (\<exists>m1 m2 m3.
         on_day_changed mw = Inr m1 \<and> perform_undo valid qc m1 = Inr m2 \<and>
         perform_redo valid qc m2 = Inr m3 \<and>
         day_view m1 = day_view mw \<and>
         day_events m1 (current_date mw) = map item_of_widget (stored_blocks (day_view mw)) \<and>
         day_events m2 (current_date mw) = snap_events (history mw ! nat (history_index mw)) \<and>
         day_events m3 (current_date mw) = day_events m1 (current_date mw) \<and>
         history m2 = history m1 \<and> history m3 = history m1 \<and>
         history_index m2 = history_index m1 - 1 \<and> history_index m3 = history_index m1 \<and>
         (items_fit (snap_events (history mw ! nat (history_index mw))) \<longrightarrow>
            list_all2 (shows_item qc) (stored_blocks (day_view m2))
              (sort_key it_start_min (snap_events (history mw ! nat (history_index mw))))) \<and>
         (items_fit (map item_of_widget (stored_blocks (day_view mw))) \<longrightarrow>
            list_all2 (shows_item qc) (stored_blocks (day_view m3))
              (sort_key it_start_min (map item_of_widget (stored_blocks (day_view mw)))))))"
proof (intro conjI impI)
  assume "history_index mw \<le> 0 \<or> history mw = []"
  then show "perform_undo valid qc mw = Inr mw"
    by (simp add: perform_undo_def)
next
  assume "history mw = [] \<or> history_index mw \<ge> int (length (history mw)) - 1"
  then show "perform_redo valid qc mw = Inr mw"
    by (simp add: perform_redo_def)
next
  assume a: "0 < history_index mw \<and> history_index mw < int (length (history mw)) \<and>
    snap_date (history mw ! nat (history_index mw - 1)) \<noteq> []"
  let ?e = "history mw ! nat (history_index mw - 1)"
  obtain mw' where u: "perform_undo valid qc mw = Inr mw'" "history mw' = history mw"
    "history_index mw' = history_index mw - 1"
    "events_by_date mw' = (events_by_date mw)(snap_date ?e \<mapsto> snap_events ?e)"
    using perform_undo_step[of mw valid qc] a by auto
  have b: "list_all2 (shows_item qc) (stored_blocks (day_view mw'))
      (sort_key it_start_min (snap_events ?e))"
    if "(valid (snap_date ?e) \<or> snap_date ?e = current_date mw) \<and> items_fit (snap_events ?e)"
    using perform_undo_blocks[of mw valid qc mw'] a that u(1) by simp
  show "\<exists>mw'. perform_undo valid qc mw = Inr mw' \<and> history mw' = history mw \<and>
             history_index mw' = history_index mw - 1 \<and>
             day_events mw' (snap_date ?e) = snap_events ?e \<and>
             ((valid (snap_date ?e) \<or> snap_date ?e = current_date mw) \<and>
              items_fit (snap_events ?e) \<longrightarrow>
                list_all2 (shows_item qc) (stored_blocks (day_view mw'))
                  (sort_key it_start_min (snap_events ?e)))"
  proof (rule exI[of _ mw'], intro conjI impI)
    show "day_events mw' (snap_date ?e) = snap_events ?e"
      using u(4) by (simp add: day_events_def)
  qed (use u b in \<open>simp_all\<close>)
next
  assume a: "- 1 \<le> history_index mw \<and> history_index mw < int (length (history mw)) - 1 \<and>
    snap_date (history mw ! nat (history_index mw + 1)) \<noteq> []"
  let ?e = "history mw ! nat (history_index mw + 1)"
  obtain mw' where u: "perform_redo valid qc mw = Inr mw'" "history mw' = history mw"
    "history_index mw' = history_index mw + 1"
    "events_by_date mw' = (events_by_date mw)(snap_date ?e \<mapsto> snap_events ?e)"
    using perform_redo_step[of mw valid qc] a by auto
  have b: "list_all2 (shows_item qc) (stored_blocks (day_view mw'))
      (sort_key it_start_min (snap_events ?e))"
    if "(valid (snap_date ?e) \<or> snap_date ?e = current_date mw) \<and> items_fit (snap_events ?e)"
    using perform_redo_blocks[of mw valid qc mw'] a that u(1) by simp
  show "\<exists>mw'. perform_redo valid qc mw = Inr mw' \<and> history mw' = history mw \<and>
             history_index mw' = history_index mw + 1 \<and>
             day_events mw' (snap_date ?e) = snap_events ?e \<and>
             ((valid (snap_date ?e) \<or> snap_date ?e = current_date mw) \<and>
              items_fit (snap_events ?e) \<longrightarrow>
                list_all2 (shows_item qc) (stored_blocks (day_view mw'))
                  (sort_key it_start_min (snap_events ?e)))"
  proof (rule exI[of _ mw'], intro conjI impI)
    show "day_events mw' (snap_date ?e) = snap_events ?e"
      using u(4) by (simp add: day_events_def)
  qed (use u b in \<open>simp_all\<close>)
next
  assume a: "\<not> history_freeze mw \<and> 0 \<le> history_index mw \<and>
    history_index mw < int (length (history mw)) \<and> current_date mw \<noteq> [] \<and>
    snap_date (history mw ! nat (history_index mw)) = current_date mw \<and>
    snap_events (history mw ! nat (history_index mw))
      \<noteq> map item_of_widget (stored_blocks (day_view mw))"
  let ?today = "current_date mw"
  let ?old = "history mw ! nat (history_index mw)"
  let ?new = "map item_of_widget (stored_blocks (day_view mw))"
  have new: "day_events (save_day mw ?today) ?today = ?new"
    by (rule saved_day_events)
  obtain m1 where m1: "on_day_changed mw = Inr m1" "0 < history_index m1"
    "history_index m1 = int (length (history m1)) - 1"
    "history m1 ! nat (history_index m1 - 1) = ?old"
    "snap_date (history m1 ! nat (history_index m1)) = ?today"
    "snap_events (history m1 ! nat (history_index m1)) = ?new"
    "events_by_date m1 = events_by_date (save_day mw ?today)"
    "current_date m1 = ?today"
    using on_day_changed_recorded[of mw] a new by auto
  have dv1: "day_view m1 = day_view mw"
    using m1(1) by (rule on_day_changed_day_view)
  have pre_u: "0 < history_index m1" "history_index m1 < int (length (history m1))"
    "snap_date (history m1 ! nat (history_index m1 - 1)) \<noteq> []"
    using m1 a by simp_all
  obtain m2 where m2: "perform_undo valid qc m1 = Inr m2" "history m2 = history m1"
    "history_index m2 = history_index m1 - 1"
    "events_by_date m2 =
       (events_by_date m1)(snap_date (history m1 ! nat (history_index m1 - 1))
          \<mapsto> snap_events (history m1 ! nat (history_index m1 - 1)))"
    using perform_undo_step[OF pre_u, of valid qc] by auto
  have cur2: "current_date m2 = ?today"
  proof -
    have "apply_at_cursor valid qc (m1\<lparr>history_index := history_index m1 - 1\<rparr>) = Inr m2"
      using m2(1) pre_u by (auto simp: perform_undo_def split: if_splits)
    then show ?thesis
      using apply_at_cursor_valid[of "m1\<lparr>history_index := history_index m1 - 1\<rparr>" valid qc]
        pre_u m1(4,8) a by auto
  qed
  have pre_r: "- 1 \<le> history_index m2" "history_index m2 < int (length (history m2)) - 1"
    "snap_date (history m2 ! nat (history_index m2 + 1)) \<noteq> []"
    using m1 m2 a by simp_all
  obtain m3 where m3: "perform_redo valid qc m2 = Inr m3" "history m3 = history m2"
    "history_index m3 = history_index m2 + 1"
    "events_by_date m3 =
       (events_by_date m2)(snap_date (history m2 ! nat (history_index m2 + 1))
          \<mapsto> snap_events (history m2 ! nat (history_index m2 + 1)))"
    using perform_redo_step[OF pre_r, of valid qc] by auto
  have e1: "day_events m1 ?today = ?new"
    using m1(7) new by (simp add: day_events_def)
  have e2: "day_events m2 ?today = snap_events ?old"
    using m2(4) m1(4) a by (simp add: day_events_def)
  have e3: "day_events m3 ?today = ?new"
    using m3(4) m2(2,3) m1(5,6) by (simp add: day_events_def)
  have b2: "list_all2 (shows_item qc) (stored_blocks (day_view m2))
      (sort_key it_start_min (snap_events ?old))"
    if "items_fit (snap_events ?old)"
    using perform_undo_blocks[OF pre_u _ _ m2(1)] that m1(4,8) a by simp
  have b3: "list_all2 (shows_item qc) (stored_blocks (day_view m3))
      (sort_key it_start_min ?new)"
    if "items_fit ?new"
    using perform_redo_blocks[OF pre_r _ _ m3(1)] that m1(5,6) m2(2,3) cur2 by simp
  show "\<exists>m1 m2 m3.
         on_day_changed mw = Inr m1 \<and> perform_undo valid qc m1 = Inr m2 \<and>
         perform_redo valid qc m2 = Inr m3 \<and>
         day_view m1 = day_view mw \<and>
         day_events m1 ?today = ?new \<and>
         day_events m2 ?today = snap_events ?old \<and>
         day_events m3 ?today = day_events m1 ?today \<and>
         history m2 = history m1 \<and> history m3 = history m1 \<and>
         history_index m2 = history_index m1 - 1 \<and> history_index m3 = history_index m1 \<and>
         (items_fit (snap_events ?old) \<longrightarrow>
            list_all2 (shows_item qc) (stored_blocks (day_view m2))
              (sort_key it_start_min (snap_events ?old))) \<and>
         (items_fit ?new \<longrightarrow>
            list_all2 (shows_item qc) (stored_blocks (day_view m3))
              (sort_key it_start_min ?new))"
    using m1(1) m2(1,2,3) m3(1,2,3) e1 e2 e3 dv1 b2 b3
    by (intro exI[of _ m1] exI[of _ m2] exI[of _ m3]) simp
qed

lemmas window_defs = scenario5_opened_def scenario5_added_def MainWindow_init_def
  MainWindow_fields_def DayView_init_def load_day_def clear_blocks_def update_box_selection_def
  reset_history_def history_snapshot_def day_events_def add_block_def
  clamp_start_to_available_def overlaps_range_def refresh_widget_transparency_def
  note_history_action_def EventWidget_init_def py_strip_def save_day_def item_of_widget_def
  plain_item_def stored_blocks_def default_fill_def qcolor_to_hex_def hex_byte_def
  hex_digit_def Let_def

lemma shows_single:
  assumes "list_all2 (shows_item qc) bs (sort_key it_start_min [plain_item (s, e)])"
  shows "map (\<lambda>b. (start_min b, end_min b)) bs = [(s, e)]"
  using shows_item_intervals[OF assms] by (simp add: plain_item_def)

lemma shows_none:
  assumes "list_all2 (shows_item qc) bs (sort_key it_start_min [])"
  shows "bs = []"
  using assms by simp

lemma plain_item_fits: "0 \<le> s \<Longrightarrow> s < e \<Longrightarrow> e \<le> 1440 \<Longrightarrow> items_fit [plain_item (s, e)]"
  by (simp add: items_fit_def plain_item_def)

theorem undo_redo_round_trip_witness:
  "history_index scenario5_opened \<le> 0 \<and>
   perform_undo (\<lambda>k. True) QColor_rrggbb scenario5_opened = Inr scenario5_opened \<and>
   history_index scenario5_opened \<ge> int (length (history scenario5_opened)) - 1 \<and>
   perform_redo (\<lambda>k. True) QColor_rrggbb scenario5_opened = Inr scenario5_opened \<and>
   stored_blocks (day_view (sample_window 3 [])) = [] \<and>
   (\<exists>mw'. perform_undo (\<lambda>k. True) QColor_rrggbb (sample_window 3 []) = Inr mw' \<and>
          history_index mw' = 2 \<and> day_events mw' ''2025-01-01'' = [plain_item (2, 3)] \<and>
          map (\<lambda>b. (start_min b, end_min b)) (stored_blocks (day_view mw')) = [(2, 3)]) \<and>
   (\<exists>mw'. perform_redo (\<lambda>k. True) QColor_rrggbb (sample_window 3 []) = Inr mw' \<and>
          history_index mw' = 4 \<and> day_events mw' ''2025-01-01'' = [plain_item (4, 5)] \<and>
          map (\<lambda>b. (start_min b, end_min b)) (stored_blocks (day_view mw')) = [(4, 5)]) \<and>
   snap_events (history scenario5_added ! nat (history_index scenario5_added)) = [] \<and>
   (\<exists>m1 m2 m3.
      on_day_changed scenario5_added = Inr m1 \<and>
      perform_undo (\<lambda>k. True) QColor_rrggbb m1 = Inr m2 \<and>
      perform_redo (\<lambda>k. True) QColor_rrggbb m2 = Inr m3 \<and>
      day_events m1 ''2025-01-01'' = [plain_item (480, 510)] \<and>
      day_events m2 ''2025-01-01'' = [] \<and>
      day_events m3 ''2025-01-01'' = [plain_item (480, 510)] \<and>
      map (\<lambda>b. (start_min b, end_min b)) (stored_blocks (day_view m1)) = [(480, 510)] \<and>
      stored_blocks (day_view m2) = [] \<and>
      map (\<lambda>b. (start_min b, end_min b)) (stored_blocks (day_view m3)) = [(480, 510)])"
proof -
  let ?v = "\<lambda>k :: string. True"
  let ?q = QColor_rrggbb
  have o: "history_index scenario5_opened \<le> 0"
    "history_index scenario5_opened \<ge> int (length (history scenario5_opened)) - 1"
    by (simp_all add: window_defs)
  have u0: "perform_undo ?v ?q scenario5_opened = Inr scenario5_opened"
    using undo_redo_round_trip[of scenario5_opened ?v ?q] o by blast
  have r0: "perform_redo ?v ?q scenario5_opened = Inr scenario5_opened"
    using undo_redo_round_trip[of scenario5_opened ?v ?q] o by blast
  let ?s = "sample_window 3 []"
  have s0: "stored_blocks (day_view ?s) = []"
    by (simp add: sample_defs stored_blocks_def)
  have s_pre: "0 < history_index ?s \<and> history_index ?s < int (length (history ?s)) \<and>
      snap_date (history ?s ! nat (history_index ?s - 1)) \<noteq> []"
    "- 1 \<le> history_index ?s \<and> history_index ?s < int (length (history ?s)) - 1 \<and>
      snap_date (history ?s ! nat (history_index ?s + 1)) \<noteq> []"
    by (simp_all add: sample_defs)
  have s_val: "history_index ?s - 1 = 2" "history_index ?s + 1 = 4"
    "snap_date (history ?s ! nat (history_index ?s - 1)) = ''2025-01-01''"
    "snap_events (history ?s ! nat (history_index ?s - 1)) = [plain_item (2, 3)]"
    "snap_date (history ?s ! nat (history_index ?s + 1)) = ''2025-01-01''"
    "snap_events (history ?s ! nat (history_index ?s + 1)) = [plain_item (4, 5)]"
    by (simp_all add: sample_window_def sample_history_def MainWindow_fields_def)
  obtain mu where mu: "perform_undo ?v ?q ?s = Inr mu" "history mu = history ?s"
    "history_index mu = history_index ?s - 1"
    "day_events mu (snap_date (history ?s ! nat (history_index ?s - 1)))
       = snap_events (history ?s ! nat (history_index ?s - 1))"
    "(?v (snap_date (history ?s ! nat (history_index ?s - 1))) \<or>
      snap_date (history ?s ! nat (history_index ?s - 1)) = current_date ?s) \<and>
     items_fit (snap_events (history ?s ! nat (history_index ?s - 1))) \<longrightarrow>
       list_all2 (shows_item ?q) (stored_blocks (day_view mu))
         (sort_key it_start_min (snap_events (history ?s ! nat (history_index ?s - 1))))"
    using undo_redo_round_trip[of ?s ?v ?q, THEN conjunct2, THEN conjunct2, THEN conjunct1,
        rule_format, OF s_pre(1)]
    by (elim exE conjE) (rule that; assumption)
  have mu_blocks: "map (\<lambda>b. (start_min b, end_min b)) (stored_blocks (day_view mu)) = [(2, 3)]"
  proof -
    have fit: "items_fit (snap_events (history ?s ! nat (history_index ?s - 1)))"
      unfolding s_val(4) by (rule plain_item_fits) simp_all
    have "list_all2 (shows_item ?q) (stored_blocks (day_view mu))
        (sort_key it_start_min (snap_events (history ?s ! nat (history_index ?s - 1))))"
      using mu(5) fit by simp
    then show ?thesis
      unfolding s_val(4) by (rule shows_single)
  qed
  have us: "\<exists>mw'. perform_undo ?v ?q ?s = Inr mw' \<and> history_index mw' = 2 \<and>
      day_events mw' ''2025-01-01'' = [plain_item (2, 3)] \<and>
      map (\<lambda>b. (start_min b, end_min b)) (stored_blocks (day_view mw')) = [(2, 3)]"
    using mu(1,3,4) mu_blocks s_val by (intro exI[of _ mu]) simp
  obtain mr where mr: "perform_redo ?v ?q ?s = Inr mr" "history mr = history ?s"
    "history_index mr = history_index ?s + 1"
    "day_events mr (snap_date (history ?s ! nat (history_index ?s + 1)))
       = snap_events (history ?s ! nat (history_index ?s + 1))"
    "(?v (snap_date (history ?s ! nat (history_index ?s + 1))) \<or>
      snap_date (history ?s ! nat (history_index ?s + 1)) = current_date ?s) \<and>
     items_fit (snap_events (history ?s ! nat (history_index ?s + 1))) \<longrightarrow>
       list_all2 (shows_item ?q) (stored_blocks (day_view mr))
         (sort_key it_start_min (snap_events (history ?s ! nat (history_index ?s + 1))))"
    using undo_redo_round_trip[of ?s ?v ?q, THEN conjunct2, THEN conjunct2, THEN conjunct2,
        THEN conjunct1, rule_format, OF s_pre(2)]
    by (elim exE conjE) (rule that; assumption)
  have mr_blocks: "map (\<lambda>b. (start_min b, end_min b)) (stored_blocks (day_view mr)) = [(4, 5)]"
  proof -
    have fit: "items_fit (snap_events (history ?s ! nat (history_index ?s + 1)))"
      unfolding s_val(6) by (rule plain_item_fits) simp_all
    have "list_all2 (shows_item ?q) (stored_blocks (day_view mr))
        (sort_key it_start_min (snap_events (history ?s ! nat (history_index ?s + 1))))"
      using mr(5) fit by simp
    then show ?thesis
      unfolding s_val(6) by (rule shows_single)
  qed
  have rs: "\<exists>mw'. perform_redo ?v ?q ?s = Inr mw' \<and> history_index mw' = 4 \<and>
      day_events mw' ''2025-01-01'' = [plain_item (4, 5)] \<and>
      map (\<lambda>b. (start_min b, end_min b)) (stored_blocks (day_view mw')) = [(4, 5)]"
    using mr(1,3,4) mr_blocks s_val by (intro exI[of _ mr]) simp
  let ?a = scenario5_added
  have a_val: "current_date ?a = ''2025-01-01''"
    "snap_events (history ?a ! nat (history_index ?a)) = []"
    "map item_of_widget (stored_blocks (day_view ?a)) = [plain_item (480, 510)]"
    "map (\<lambda>b. (start_min b, end_min b)) (stored_blocks (day_view ?a)) = [(480, 510)]"
    by (simp_all add: window_defs)
  have a_pre: "\<not> history_freeze ?a \<and> 0 \<le> history_index ?a \<and>
    history_index ?a < int (length (history ?a)) \<and> current_date ?a \<noteq> [] \<and>
    snap_date (history ?a ! nat (history_index ?a)) = current_date ?a \<and>
    snap_events (history ?a ! nat (history_index ?a))
      \<noteq> map item_of_widget (stored_blocks (day_view ?a))"
    unfolding a_val by (simp add: window_defs)
  obtain m1 m2 m3 where rt0: "on_day_changed ?a = Inr m1" "perform_undo ?v ?q m1 = Inr m2"
    "perform_redo ?v ?q m2 = Inr m3"
    "day_view m1 = day_view ?a"
    "day_events m1 (current_date ?a) = map item_of_widget (stored_blocks (day_view ?a))"
    "day_events m2 (current_date ?a) = snap_events (history ?a ! nat (history_index ?a))"
    "day_events m3 (current_date ?a) = day_events m1 (current_date ?a)"
    "history m2 = history m1" "history m3 = history m1"
    "history_index m2 = history_index m1 - 1" "history_index m3 = history_index m1"
    "items_fit (snap_events (history ?a ! nat (history_index ?a))) \<longrightarrow>
       list_all2 (shows_item ?q) (stored_blocks (day_view m2))
         (sort_key it_start_min (snap_events (history ?a ! nat (history_index ?a))))"
    "items_fit (map item_of_widget (stored_blocks (day_view ?a))) \<longrightarrow>
       list_all2 (shows_item ?q) (stored_blocks (day_view m3))
         (sort_key it_start_min (map item_of_widget (stored_blocks (day_view ?a))))"
    using undo_redo_round_trip[of ?a ?v ?q, THEN conjunct2, THEN conjunct2, THEN conjunct2,
        THEN conjunct2, rule_format, OF a_pre]
    by (elim exE conjE) (rule that; assumption)
  have b1: "map (\<lambda>b. (start_min b, end_min b)) (stored_blocks (day_view m1)) = [(480, 510)]"
    unfolding rt0(4) by (rule a_val(4))
  have b2: "stored_blocks (day_view m2) = []"
  proof -
    have fit: "items_fit (snap_events (history ?a ! nat (history_index ?a)))"
      unfolding a_val(2) by (simp add: items_fit_def)
    have "list_all2 (shows_item ?q) (stored_blocks (day_view m2))
        (sort_key it_start_min (snap_events (history ?a ! nat (history_index ?a))))"
      using rt0(12) fit by simp
    then show ?thesis
      unfolding a_val(2) by (rule shows_none)
  qed
  have b3: "map (\<lambda>b. (start_min b, end_min b)) (stored_blocks (day_view m3)) = [(480, 510)]"
  proof -
    have fit: "items_fit (map item_of_widget (stored_blocks (day_view ?a)))"
      unfolding a_val(3) by (rule plain_item_fits) simp_all
    have "list_all2 (shows_item ?q) (stored_blocks (day_view m3))
        (sort_key it_start_min (map item_of_widget (stored_blocks (day_view ?a))))"
      using rt0(13) fit by simp
    then show ?thesis
      unfolding a_val(3) by (rule shows_single)
  qed
  have round: "\<exists>m1 m2 m3.
      on_day_changed ?a = Inr m1 \<and> perform_undo ?v ?q m1 = Inr m2 \<and>
      perform_redo ?v ?q m2 = Inr m3 \<and>
      day_events m1 ''2025-01-01'' = [plain_item (480, 510)] \<and>
      day_events m2 ''2025-01-01'' = [] \<and>
      day_events m3 ''2025-01-01'' = [plain_item (480, 510)] \<and>
      map (\<lambda>b. (start_min b, end_min b)) (stored_blocks (day_view m1)) = [(480, 510)] \<and>
      stored_blocks (day_view m2) = [] \<and>
      map (\<lambda>b. (start_min b, end_min b)) (stored_blocks (day_view m3)) = [(480, 510)]"
    using rt0(1,2,3,5,6,7) a_val(1,2,3) b1 b2 b3
    by (intro exI[of _ m1] exI[of _ m2] exI[of _ m3]) simp
  show ?thesis
    by (intro conjI o u0 r0 s0 us rs a_val(2) round)
qed

text \<open>
  In the fifth scenario the blocks on screen follow the saved day: after the undo the day
  view is empty, after the redo it holds the block 08:00 to 08:30 again, and the log holds
  the baseline and the entry \<open>Add block\<close> with the cursor on the latter.
\<close>

lemma scenario5_day_view:
  "(case on_day_changed scenario5_added of
      Inl err \<Rightarrow> False
    | Inr m1 \<Rightarrow>
        (case perform_undo (\<lambda>k. True) QColor_rrggbb m1 of
           Inl err \<Rightarrow> False
         | Inr m2 \<Rightarrow>
             event_widgets (day_view m2) = [] \<and>
             (case perform_redo (\<lambda>k. True) QColor_rrggbb m2 of
                Inl err \<Rightarrow> False
              | Inr m3 \<Rightarrow>
                  map (\<lambda>w. (start_min (heap (day_view m3) w), end_min (heap (day_view m3) w)))
                    (event_widgets (day_view m3)) = [(480, 510)] \<and>
                  map snap_action (history m3) = [''Initial load'', ''Add block''] \<and>
                  history_index m3 = 1)))"
  by code_simp

text \<open>
  C6. Restoring the entry at a valid index applies that entry and sets the cursor to the
  index: the entry's items become the saved day and the day view is rebuilt from them, so
  that for an entry whose items fit a day the blocks of the day view that are not made from
  a rule show exactly the entry's items, in start order. The list of entries is exactly
  the list before, so every entry after the index is still there. Only when a later change
  is recorded are the entries after that cursor dropped and the new snapshot appended. An
  index outside the log changes nothing.
\<close>

theorem restore_history_entry_keeps_entries:
  "(\<not> (0 \<le> index \<and> index < int (length (history mw))) \<longrightarrow>
      restore_history_entry valid qc mw index = Inr mw) \<and>
   (0 \<le> index \<and> index < int (length (history mw)) \<and>
    snap_date (history mw ! nat index) \<noteq> [] \<longrightarrow>
      (\<exists>mw'. restore_history_entry valid qc mw index = Inr mw' \<and>
         history mw' = history mw \<and> history_index mw' = index \<and>
         day_events mw' (snap_date (history mw ! nat index))
           = snap_events (history mw ! nat index) \<and>
         current_date mw' =
           (if valid (snap_date (history mw ! nat index))
            then snap_date (history mw ! nat index) else current_date mw) \<and>
         ((valid (snap_date (history mw ! nat index)) \<or>
           snap_date (history mw ! nat index) = current_date mw) \<and>
          items_fit (snap_events (history mw ! nat index)) \<longrightarrow>
            list_all2 (shows_item qc) (stored_blocks (day_view mw'))
              (sort_key it_start_min (snap_events (history mw ! nat index)))) \<and>
         \<not> history_freeze mw' \<and>
         (\<forall>m. history m = history mw' \<and> history_index m = history_index mw' \<and>
              \<not> history_freeze m \<and>
              snap_events (history mw ! nat index) \<noteq> day_events m (current_date m) \<longrightarrow>
              (\<exists>m'. record_history m = Inr m' \<and>
                 history m' =
                   drop (nat (index + 2) - history_max)
                     (take (nat (index + 1)) (history mw) @
                      [history_snapshot m (current_date m)
                         (case pending_history_action m of None \<Rightarrow> ''Change''
                          | Some a \<Rightarrow> if a = [] then ''Change'' else a)]) \<and>
                 history_index m' = index + 1 - int (nat (index + 2) - history_max)))))"
proof (intro conjI impI)
  assume "\<not> (0 \<le> index \<and> index < int (length (history mw)))"
  then show "restore_history_entry valid qc mw index = Inr mw"
    by (simp add: restore_history_entry_def)
next
  assume a: "0 \<le> index \<and> index < int (length (history mw)) \<and>
    snap_date (history mw ! nat index) \<noteq> []"
  let ?e = "history mw ! nat index"
  obtain mw' where r: "apply_at_cursor valid qc (mw\<lparr>history_index := index\<rparr>) = Inr mw'"
    "history mw' = history mw" "history_index mw' = index"
    "events_by_date mw' = (events_by_date mw)(snap_date ?e \<mapsto> snap_events ?e)"
    "current_date mw' = (if valid (snap_date ?e) then snap_date ?e else current_date mw)"
    "\<not> history_freeze mw'"
    using a apply_at_cursor_valid[of "mw\<lparr>history_index := index\<rparr>" valid qc] by auto
  have res: "restore_history_entry valid qc mw index = Inr mw'"
    using a r(1) by (simp add: restore_history_entry_def)
  have blocks: "list_all2 (shows_item qc) (stored_blocks (day_view mw'))
      (sort_key it_start_min (snap_events ?e))"
    if "(valid (snap_date ?e) \<or> snap_date ?e = current_date mw) \<and> items_fit (snap_events ?e)"
    using apply_at_cursor_blocks[of "mw\<lparr>history_index := index\<rparr>" valid qc mw'] a that r(1)
    by simp
  have later: "\<exists>m'. record_history m = Inr m' \<and>
                 history m' =
                   drop (nat (index + 2) - history_max)
                     (take (nat (index + 1)) (history mw) @
                      [history_snapshot m (current_date m)
                         (case pending_history_action m of None \<Rightarrow> ''Change''
                          | Some a \<Rightarrow> if a = [] then ''Change'' else a)]) \<and>
                 history_index m' = index + 1 - int (nat (index + 2) - history_max)"
    if m: "history m = history mw' \<and> history_index m = history_index mw' \<and>
              \<not> history_freeze m \<and>
              snap_events (history mw ! nat index) \<noteq> day_events m (current_date m)" for m
  proof -
    let ?snap = "history_snapshot m (current_date m)
                         (case pending_history_action m of None \<Rightarrow> ''Change''
                          | Some a \<Rightarrow> if a = [] then ''Change'' else a)"
    let ?p = "m\<lparr>pending_history_action := None\<rparr>"
    have hm: "history m = history mw" "history_index m = index"
      using m r by simp_all
    have nf: "\<not> history_freeze m"
      using m by blast
    have lo: "- 1 \<le> history_index m"
      unfolding hm(2) using a by simp
    have hi: "history_index m < int (length (history m))"
      unfolding hm using a by simp
    have c: "\<not> (0 \<le> history_index m \<and>
        snap_events (history m ! nat (history_index m)) = day_events m (current_date m))"
      unfolding hm using m by blast
    have rec: "record_history m = Inr (append_history ?p ?snap)"
      using record_history_append[OF nf lo hi c] .
    have "history (append_history ?p ?snap) =
        drop (nat (index + 2) - history_max) (take (nat (index + 1)) (history mw) @ [?snap])"
      using append_history_log(1)[of ?p ?snap] a hm by simp
    moreover have "history_index (append_history ?p ?snap) =
        index + 1 - int (nat (index + 2) - history_max)"
      using append_history_log(2)[of ?p ?snap] a hm by simp
    ultimately show ?thesis
      using rec by simp
  qed
  show "\<exists>mw'. restore_history_entry valid qc mw index = Inr mw' \<and>
         history mw' = history mw \<and> history_index mw' = index \<and>
         day_events mw' (snap_date (history mw ! nat index))
           = snap_events (history mw ! nat index) \<and>
         current_date mw' =
           (if valid (snap_date (history mw ! nat index))
            then snap_date (history mw ! nat index) else current_date mw) \<and>
         ((valid (snap_date (history mw ! nat index)) \<or>
           snap_date (history mw ! nat index) = current_date mw) \<and>
          items_fit (snap_events (history mw ! nat index)) \<longrightarrow>
            list_all2 (shows_item qc) (stored_blocks (day_view mw'))
              (sort_key it_start_min (snap_events (history mw ! nat index)))) \<and>
         \<not> history_freeze mw' \<and>
         (\<forall>m. history m = history mw' \<and> history_index m = history_index mw' \<and>
              \<not> history_freeze m \<and>
              snap_events (history mw ! nat index) \<noteq> day_events m (current_date m) \<longrightarrow>
              (\<exists>m'. record_history m = Inr m' \<and>
                 history m' =
                   drop (nat (index + 2) - history_max)
                     (take (nat (index + 1)) (history mw) @
                      [history_snapshot m (current_date m)
                         (case pending_history_action m of None \<Rightarrow> ''Change''
                          | Some a \<Rightarrow> if a = [] then ''Change'' else a)]) \<and>
                 history_index m' = index + 1 - int (nat (index + 2) - history_max)))"
  proof (rule exI[of _ mw'], intro conjI)
    show "day_events mw' (snap_date ?e) = snap_events ?e"
      using r(4) by (simp add: day_events_def)
    show "(valid (snap_date ?e) \<or> snap_date ?e = current_date mw) \<and>
          items_fit (snap_events ?e) \<longrightarrow>
            list_all2 (shows_item qc) (stored_blocks (day_view mw'))
              (sort_key it_start_min (snap_events ?e))"
      using blocks by blast
    show "\<forall>m. history m = history mw' \<and> history_index m = history_index mw' \<and>
              \<not> history_freeze m \<and>
              snap_events (history mw ! nat index) \<noteq> day_events m (current_date m) \<longrightarrow>
              (\<exists>m'. record_history m = Inr m' \<and>
                 history m' =
                   drop (nat (index + 2) - history_max)
                     (take (nat (index + 1)) (history mw) @
                      [history_snapshot m (current_date m)
                         (case pending_history_action m of None \<Rightarrow> ''Change''
                          | Some a \<Rightarrow> if a = [] then ''Change'' else a)]) \<and>
                 history_index m' = index + 1 - int (nat (index + 2) - history_max))"
      using later by blast
  qed (use res r in \<open>simp_all\<close>)
qed

theorem restore_history_entry_keeps_entries_witness:
  "(0 :: int) \<le> 3 \<and> 3 < int (length (history (sample_window 10 []))) \<and>
   snap_date (history (sample_window 10 []) ! nat 3) \<noteq> [] \<and>
   stored_blocks (day_view (sample_window 10 [])) = [] \<and>
   (\<exists>mw'. restore_history_entry (\<lambda>k. True) QColor_rrggbb (sample_window 10 []) 3 = Inr mw' \<and>
      history mw' = sample_history \<and> length (history mw') = 11 \<and> history_index mw' = 3 \<and>
      day_events mw' ''2025-01-01'' = [plain_item (3, 4)] \<and>
      map (\<lambda>b. (start_min b, end_min b)) (stored_blocks (day_view mw')) = [(3, 4)] \<and>
      (\<exists>m'. record_history
               (mw'\<lparr>events_by_date :=
                      (events_by_date mw')(''2025-01-01'' \<mapsto> [plain_item (100, 130)])\<rparr>)
             = Inr m' \<and>
           history_index m' = 4 \<and>
           map (map it_start_min \<circ> snap_events) (history m') = [[0], [1], [2], [3], [100]])) \<and>
   \<not> (0 \<le> (11 :: int) \<and> 11 < int (length (history (sample_window 10 [])))) \<and>
   restore_history_entry (\<lambda>k. True) QColor_rrggbb (sample_window 10 []) 11 = Inr (sample_window 10 [])"
proof -
  let ?w = "sample_window 10 []"
  let ?v = "\<lambda>k :: string. True"
  have pre: "0 \<le> (3 :: int) \<and> 3 < int (length (history ?w)) \<and>
      snap_date (history ?w ! nat 3) \<noteq> []"
    by (simp add: sample_defs)
  have out: "\<not> (0 \<le> (11 :: int) \<and> 11 < int (length (history ?w)))"
    by (simp add: sample_defs)
  have vals: "history ?w = sample_history" "length sample_history = 11"
    "snap_date (history ?w ! nat 3) = ''2025-01-01''"
    "snap_events (history ?w ! nat 3) = [plain_item (3, 4)]"
    by (simp_all add: sample_window_def sample_history_def MainWindow_fields_def)
  have noop: "restore_history_entry ?v QColor_rrggbb ?w 11 = Inr ?w"
    using restore_history_entry_keeps_entries[of 11 ?w ?v QColor_rrggbb, THEN conjunct1, rule_format, OF out] .
  obtain mw' where r: "restore_history_entry ?v QColor_rrggbb ?w 3 = Inr mw'" "history mw' = history ?w"
    "history_index mw' = 3"
    "day_events mw' (snap_date (history ?w ! nat 3)) = snap_events (history ?w ! nat 3)"
    "current_date mw' =
       (if ?v (snap_date (history ?w ! nat 3)) then snap_date (history ?w ! nat 3)
        else current_date ?w)"
    "(?v (snap_date (history ?w ! nat 3)) \<or>
      snap_date (history ?w ! nat 3) = current_date ?w) \<and>
     items_fit (snap_events (history ?w ! nat 3)) \<longrightarrow>
       list_all2 (shows_item QColor_rrggbb) (stored_blocks (day_view mw'))
         (sort_key it_start_min (snap_events (history ?w ! nat 3)))"
    "\<not> history_freeze mw'"
    and later: "\<forall>m. history m = history mw' \<and> history_index m = history_index mw' \<and>
              \<not> history_freeze m \<and>
              snap_events (history ?w ! nat 3) \<noteq> day_events m (current_date m) \<longrightarrow>
              (\<exists>m'. record_history m = Inr m' \<and>
                 history m' =
                   drop (nat (3 + 2) - history_max)
                     (take (nat (3 + 1)) (history ?w) @
                      [history_snapshot m (current_date m)
                         (case pending_history_action m of None \<Rightarrow> ''Change''
                          | Some a \<Rightarrow> if a = [] then ''Change'' else a)]) \<and>
                 history_index m' = 3 + 1 - int (nat (3 + 2) - history_max))"
    using restore_history_entry_keeps_entries[of 3 ?w ?v QColor_rrggbb, THEN conjunct2, rule_format, OF pre]
    by (elim exE conjE) (rule that; assumption)
  have shown: "map (\<lambda>b. (start_min b, end_min b)) (stored_blocks (day_view mw')) = [(3, 4)]"
  proof -
    have fit: "items_fit (snap_events (history ?w ! nat 3))"
      unfolding vals(4) by (rule plain_item_fits) simp_all
    have "list_all2 (shows_item QColor_rrggbb) (stored_blocks (day_view mw'))
        (sort_key it_start_min (snap_events (history ?w ! nat 3)))"
      using r(6) fit by simp
    then show ?thesis
      unfolding vals(4) by (rule shows_single)
  qed
  have before: "stored_blocks (day_view ?w) = []"
    by (simp add: sample_defs stored_blocks_def)
  let ?m = "mw'\<lparr>events_by_date :=
                      (events_by_date mw')(''2025-01-01'' \<mapsto> [plain_item (100, 130)])\<rparr>"
  have cd: "current_date ?m = ''2025-01-01''"
    using r(5) vals by simp
  have de: "day_events ?m (current_date ?m) = [plain_item (100, 130)]"
    unfolding cd by (simp add: day_events_def)
  have ne: "snap_events (history ?w ! nat 3) \<noteq> [plain_item (100, 130)]"
    by (simp add: sample_defs)
  have mpre: "history ?m = history mw' \<and> history_index ?m = history_index mw' \<and>
              \<not> history_freeze ?m \<and>
              snap_events (history ?w ! nat 3) \<noteq> day_events ?m (current_date ?m)"
    unfolding de using r(7) ne by simp
  obtain m' where m': "record_history ?m = Inr m'"
    "history m' =
       drop (nat (3 + 2) - history_max)
         (take (nat (3 + 1)) (history ?w) @
          [history_snapshot ?m (current_date ?m)
             (case pending_history_action ?m of None \<Rightarrow> ''Change''
              | Some a \<Rightarrow> if a = [] then ''Change'' else a)])"
    "history_index m' = 3 + 1 - int (nat (3 + 2) - history_max)"
    using later[rule_format, OF mpre] by (elim exE conjE) (rule that; assumption)
  have i4: "history_index m' = 4"
    unfolding m'(3) by (simp add: history_max_def)
  have h5: "map (map it_start_min \<circ> snap_events) (history m') = [[0], [1], [2], [3], [100]]"
    unfolding m'(2) history_snapshot_def de
    by (simp add: sample_defs upt_rec)
  have inner: "\<exists>m'. record_history ?m = Inr m' \<and> history_index m' = 4 \<and>
           map (map it_start_min \<circ> snap_events) (history m') = [[0], [1], [2], [3], [100]]"
    by (rule exI[of _ m']) (intro conjI m'(1) i4 h5)
  have outer: "\<exists>mw'. restore_history_entry ?v QColor_rrggbb ?w 3 = Inr mw' \<and>
      history mw' = sample_history \<and> length (history mw') = 11 \<and> history_index mw' = 3 \<and>
      day_events mw' ''2025-01-01'' = [plain_item (3, 4)] \<and>
      map (\<lambda>b. (start_min b, end_min b)) (stored_blocks (day_view mw')) = [(3, 4)] \<and>
      (\<exists>m'. record_history
               (mw'\<lparr>events_by_date :=
                      (events_by_date mw')(''2025-01-01'' \<mapsto> [plain_item (100, 130)])\<rparr>)
             = Inr m' \<and>
           history_index m' = 4 \<and>
           map (map it_start_min \<circ> snap_events) (history m') = [[0], [1], [2], [3], [100]])"
    using r(1,2,3,4) vals inner shown by (intro exI[of _ mw']) simp
  show ?thesis
    using pre out noop outer before by blast
qed

section \<open>Locked blocks and the schedule invariant\<close>

lemmas day_defs = locked_day_def locked_day_selected_def smart_scale_day_def MainWindow_init_def
  MainWindow_fields_def DayView_init_def load_day_def clear_blocks_def update_box_selection_def
  reset_history_def history_snapshot_def day_events_def add_block_def add_item_def
  clamp_start_to_available_def overlaps_range_def refresh_widget_transparency_def
  note_history_action_def EventWidget_init_def py_strip_def save_day_def item_of_widget_def
  plain_item_def hex_to_qcolor_def QColor_rrggbb_def hex_value_def qcolor_to_hex_def hex_byte_def
  hex_digit_def default_fill_def Let_def

text \<open>
  C1, at an input where the code breaks it. The day holds a ten-minute block at 00:00 and a
  block from 00:10 to 00:40 that do not overlap; the time size is 30 and smart scale is on.
  Pressing the bottom handle of the first block and moving the pointer to minute 12 makes
  \<open>_smart_scale_resize_bottom\<close> try the duration 30, find the overlap, step down to 0 and
  fall back to one chunk without testing it again: the block becomes 00:00 to 00:30 and
  overlaps its neighbour. The release saves the day and records the overlapping pair under
  the label \<open>Resize block\<close>.
\<close>

theorem smart_scale_resize_commits_overlap:
  "event_widgets (day_view smart_scale_day) = [0, 1] \<and>
   \<not> overlap (heap (day_view smart_scale_day) 0) (heap (day_view smart_scale_day) 1) \<and>
   (let m1 = mousePressEvent smart_scale_day 0 LeftButton BottomHandle;
        m2 = m1\<lparr>day_view := smart_scale_resize_bottom (day_view m1) 0 12\<rparr>
    in drag_mode (heap (day_view m1) 0) = Some ResizeBottom \<and>
       event_widgets (day_view m2) = [0, 1] \<and>
       start_min (heap (day_view m2) 0) = 0 \<and> end_min (heap (day_view m2) 0) = 30 \<and>
       start_min (heap (day_view m2) 1) = 10 \<and> end_min (heap (day_view m2) 1) = 40 \<and>
       overlap (heap (day_view m2) 0) (heap (day_view m2) 1) \<and>
       (case mouseReleaseEvent m2 0 LeftButton of
          Inl err \<Rightarrow> False
        | Inr m3 \<Rightarrow>
            history_index m3 = 1 \<and>
            map (\<lambda>s. (snap_action s, map (\<lambda>i. (it_start_min i, it_end_min i)) (snap_events s)))
              (history m3)
              = [(''Initial load'', [(0, 10), (10, 40)]),
                 (''Resize block'', [(0, 30), (10, 40)])]))"
  by code_simp

theorem smart_scale_resize_commits_overlap_witness:
  "store_invariant (day_view smart_scale_day) \<and>
   \<not> store_invariant
       (smart_scale_resize_bottom
          (day_view (mousePressEvent smart_scale_day 0 LeftButton BottomHandle)) 0 12)"
proof
  have ws: "event_widgets (day_view smart_scale_day) = [0, 1]"
    and no: "\<not> overlap (heap (day_view smart_scale_day) 0) (heap (day_view smart_scale_day) 1)"
    using smart_scale_resize_commits_overlap by simp_all
  have pos: "start_min (heap (day_view smart_scale_day) 0) < end_min (heap (day_view smart_scale_day) 0)"
    "start_min (heap (day_view smart_scale_day) 1) < end_min (heap (day_view smart_scale_day) 1)"
    by (simp_all add: day_defs)
  have sym: "\<not> overlap (heap (day_view smart_scale_day) 1) (heap (day_view smart_scale_day) 0)"
    using no by (simp add: overlap_def max.commute min.commute)
  show "store_invariant (day_view smart_scale_day)"
    unfolding store_invariant_def ws using no sym pos
    by (auto simp: less_Suc_eq numeral_2_eq_2)
next
  let ?dv = "smart_scale_resize_bottom
          (day_view (mousePressEvent smart_scale_day 0 LeftButton BottomHandle)) 0 12"
  have ws: "event_widgets ?dv = [0, 1]" and ov: "overlap (heap ?dv 0) (heap ?dv 1)"
    using smart_scale_resize_commits_overlap by (simp_all add: Let_def)
  show "\<not> store_invariant ?dv"
  proof
    assume "store_invariant ?dv"
    then have pair: "i < 2 \<Longrightarrow> j < 2 \<Longrightarrow> i \<noteq> j \<Longrightarrow>
        \<not> overlap (heap ?dv ([0, 1] ! i)) (heap ?dv ([0, 1] ! j))" for i j
      unfolding store_invariant_def ws by simp
    show False
      using pair[of 0 1] ov by simp
  qed
qed

lemma locked_in_selection:
  "(\<exists>w\<in>set xs. locked (h w)) \<Longrightarrow> remdups xs \<noteq> [] \<and> list_ex (\<lambda>w. locked (h w)) (remdups xs)"
  by (auto simp: list_ex_iff)

text \<open>
  C8. A locked block is refused at the entry of each mutating operation, with the blocks,
  the saved days and the history entries and cursor left as they were:
  \<open>delete_block\<close> on a locked block reports and returns; \<open>delete_selected_blocks\<close> and the
  start of a group move report and return when the selection has a locked member (the
  former has by then noted the action label \<open>Delete selection\<close> for the next recording,
  which is no entry); a left press on a locked block reports and arms no drag, so neither
  move nor resize begins, and the release that follows changes and records nothing.
\<close>

theorem locked_mutations_rejected:
  "(block \<in> set (event_widgets (day_view mw)) \<and> locked (heap (day_view mw) block) \<longrightarrow>
      (\<exists>mw'. delete_block mw block = Inr mw' \<and> rejected mw mw' ''Event is locked'')) \<and>
   ((\<exists>w\<in>set (box_selected_widgets (day_view mw)). locked (heap (day_view mw) w)) \<longrightarrow>
      (\<exists>mw'. delete_selected_blocks QColor_str mw = Inr mw' \<and>
             rejected mw mw' ''Locked events cannot be deleted'') \<and>
      \<not> fst (start_group_move mw) \<and>
      rejected mw (snd (start_group_move mw)) ''Locked events cannot move'' \<and>
      group_move_active (day_view (snd (start_group_move mw))) = group_move_active (day_view mw) \<and>
      (box_select_mode (day_view mw) \<and> block \<in> set (box_selected_widgets (day_view mw)) \<longrightarrow>
         rejected mw (mousePressEvent mw block LeftButton region) ''Locked events cannot move'')) \<and>
   (\<not> box_select_mode (day_view mw) \<and> locked (heap (day_view mw) block) \<longrightarrow>
      rejected mw (mousePressEvent mw block LeftButton region) ''Event is locked'' \<and>
      drag_mode (heap (day_view (mousePressEvent mw block LeftButton region)) block) = None \<and>
      (\<exists>mw'. mouseReleaseEvent mw block LeftButton = Inr mw' \<and>
             store_and_log_unchanged mw mw' \<and> status_messages mw' = status_messages mw \<and>
             drag_mode (heap (day_view mw') block) = None))"
proof (intro conjI impI)
  assume "block \<in> set (event_widgets (day_view mw)) \<and> locked (heap (day_view mw) block)"
  then show "\<exists>mw'. delete_block mw block = Inr mw' \<and> rejected mw mw' ''Event is locked''"
    by (simp add: delete_block_def rejected_def store_and_log_unchanged_def flash_status_def)
next
  assume a: "\<exists>w\<in>set (box_selected_widgets (day_view mw)). locked (heap (day_view mw) w)"
  note sel = locked_in_selection[OF a]
  show "\<exists>mw'. delete_selected_blocks QColor_str mw = Inr mw' \<and>
             rejected mw mw' ''Locked events cannot be deleted''"
    using sel
    by (simp add: delete_selected_blocks_def Let_def rejected_def store_and_log_unchanged_def
        flash_status_def note_history_action_def)
  have sg: "start_group_move mw = (False, flash_status mw ''Locked events cannot move'')"
    using sel by (simp add: start_group_move_def Let_def)
  show "\<not> fst (start_group_move mw)"
    by (simp add: sg)
  show "rejected mw (snd (start_group_move mw)) ''Locked events cannot move''"
    by (simp add: sg rejected_def store_and_log_unchanged_def flash_status_def)
  show "group_move_active (day_view (snd (start_group_move mw))) = group_move_active (day_view mw)"
    by (simp add: sg)
  assume "box_select_mode (day_view mw) \<and> block \<in> set (box_selected_widgets (day_view mw))"
  then show "rejected mw (mousePressEvent mw block LeftButton region)
      ''Locked events cannot move''"
    by (simp add: mousePressEvent_def Let_def start_group_move_by_widget_def sg rejected_def
        store_and_log_unchanged_def flash_status_def)
next
  assume a: "\<not> box_select_mode (day_view mw) \<and> locked (heap (day_view mw) block)"
  then show "rejected mw (mousePressEvent mw block LeftButton region) ''Event is locked''"
    by (simp add: mousePressEvent_def Let_def rejected_def store_and_log_unchanged_def
        flash_status_def update_widget_def)
  show "drag_mode (heap (day_view (mousePressEvent mw block LeftButton region)) block) = None"
    using a by (simp add: mousePressEvent_def Let_def flash_status_def update_widget_def)
  show "\<exists>mw'. mouseReleaseEvent mw block LeftButton = Inr mw' \<and>
             store_and_log_unchanged mw mw' \<and> status_messages mw' = status_messages mw \<and>
             drag_mode (heap (day_view mw') block) = None"
    using a
    by (simp add: mouseReleaseEvent_def Let_def store_and_log_unchanged_def update_widget_def)
qed

theorem locked_mutations_rejected_witness:
  "0 \<in> set (event_widgets (day_view locked_day)) \<and> locked (heap (day_view locked_day) 0) \<and>
   \<not> box_select_mode (day_view locked_day) \<and> length (history locked_day) = 1 \<and>
   (\<exists>mw'. delete_block locked_day 0 = Inr mw' \<and> rejected locked_day mw' ''Event is locked'') \<and>
   rejected locked_day (mousePressEvent locked_day 0 LeftButton Body) ''Event is locked'' \<and>
   drag_mode (heap (day_view (mousePressEvent locked_day 0 LeftButton Body)) 0) = None \<and>
   (\<exists>mw'. mouseReleaseEvent locked_day 0 LeftButton = Inr mw' \<and>
          store_and_log_unchanged locked_day mw') \<and>
   (\<exists>w\<in>set (box_selected_widgets (day_view locked_day_selected)).
      locked (heap (day_view locked_day_selected) w)) \<and>
   box_select_mode (day_view locked_day_selected) \<and>
   1 \<in> set (box_selected_widgets (day_view locked_day_selected)) \<and>
   (\<exists>mw'. delete_selected_blocks QColor_rrggbb locked_day_selected = Inr mw' \<and>
          rejected locked_day_selected mw' ''Locked events cannot be deleted'') \<and>
   \<not> fst (start_group_move locked_day_selected) \<and>
   rejected locked_day_selected (mousePressEvent locked_day_selected 1 LeftButton Body)
     ''Locked events cannot move''"
proof -
  have n: "0 \<in> set (event_widgets (day_view locked_day)) \<and> locked (heap (day_view locked_day) 0)"
    "\<not> box_select_mode (day_view locked_day) \<and> locked (heap (day_view locked_day) 0)"
    "length (history locked_day) = 1"
    by (simp_all add: day_defs)
  have s: "\<exists>w\<in>set (box_selected_widgets (day_view locked_day_selected)).
      locked (heap (day_view locked_day_selected) w)"
    "box_select_mode (day_view locked_day_selected) \<and>
     1 \<in> set (box_selected_widgets (day_view locked_day_selected))"
    by (simp_all add: day_defs)
  note a = locked_mutations_rejected[of 0 locked_day QColor_rrggbb Body, THEN conjunct1, rule_format, OF n(1)]
  note b = locked_mutations_rejected[of 0 locked_day QColor_rrggbb Body, THEN conjunct2, THEN conjunct2,
      rule_format, OF n(2)]
  note c = locked_mutations_rejected[of 1 locked_day_selected QColor_rrggbb Body, THEN conjunct2,
      THEN conjunct1, rule_format, OF s(1)]
  have b1: "rejected locked_day (mousePressEvent locked_day 0 LeftButton Body) ''Event is locked''"
    using b by (rule conjunct1)
  have b2: "drag_mode (heap (day_view (mousePressEvent locked_day 0 LeftButton Body)) 0) = None"
    using b by blast
  have b3: "\<exists>mw'. mouseReleaseEvent locked_day 0 LeftButton = Inr mw' \<and>
          store_and_log_unchanged locked_day mw'"
    using b by blast
  have c1: "\<exists>mw'. delete_selected_blocks QColor_rrggbb locked_day_selected = Inr mw' \<and>
          rejected locked_day_selected mw' ''Locked events cannot be deleted''"
    using c by (rule conjunct1)
  have c2: "\<not> fst (start_group_move locked_day_selected)"
    using c by blast
  have c3: "rejected locked_day_selected (mousePressEvent locked_day_selected 1 LeftButton Body)
     ''Locked events cannot move''"
    using c s(2) by blast
  show ?thesis
    by (intro conjI n(1)[THEN conjunct1] n(1)[THEN conjunct2] n(2)[THEN conjunct1] n(3) a b1 b2 b3
        s(1) s(2)[THEN conjunct1] s(2)[THEN conjunct2] c1 c2 c3)
qed

end
